theory Spec2Isabelle
  imports Main "HOL-Library.Sublist" "HOL-Library.Multiset"
begin

text \<open>
  A model of the meal store of OpenMeal, of the analysis pipeline on top of it and of the
  bridge to Health Connect, with the properties the specification states about them.
  A function of the source is a function here under its own name; a function that can
  throw returns the error as a value, next to the state it leaves behind.
\<close>

section \<open>JavaScript values\<close>

text \<open>
  An optional property of a JavaScript object is in one of three states: the property is
  absent, it is present with the value \<^verbatim>\<open>undefined\<close>, or it holds a value. Object spread
  copies a present property (also an undefined one) over the older value and leaves the
  older value alone when the property is absent; \<^verbatim>\<open>JSON.stringify\<close> drops a property
  whose value is undefined.
\<close>

datatype 'a optional = Absent | Undefined | Has 'a

fun spread :: "'a optional \<Rightarrow> 'a optional \<Rightarrow> 'a optional" where
  "spread older Absent = older"
| "spread older newer = newer"

fun stringified :: "'a optional \<Rightarrow> 'a optional" where
  "stringified Undefined = Absent"
| "stringified v = v"

fun truthyStr :: "string optional \<Rightarrow> bool" where
  "truthyStr (Has s) = (s \<noteq> [])"
| "truthyStr _ = False"

fun falsyStr :: "string optional \<Rightarrow> bool" where
  "falsyStr (Has s) = (s = [])"
| "falsyStr _ = True"

fun truthyBool :: "bool optional \<Rightarrow> bool" where
  "truthyBool (Has b) = b"
| "truthyBool _ = False"

text \<open>
  \<open>orEmpty\<close> is \<^verbatim>\<open>v || ''\<close>; it is also the string itself where the source has checked
  that the property is truthy. \<open>templ\<close> is the text a template literal or a property key
  makes of the value. \<open>strictEq\<close> is \<^verbatim>\<open>===\<close> between two properties, an absent one
  reading as \<^verbatim>\<open>undefined\<close>.
\<close>

fun orEmpty :: "string optional \<Rightarrow> string" where
  "orEmpty (Has s) = s"
| "orEmpty _ = []"

fun templ :: "string optional \<Rightarrow> string" where
  "templ (Has s) = s"
| "templ _ = ''undefined''"

fun strictEq :: "'a optional \<Rightarrow> 'a optional \<Rightarrow> bool" where
  "strictEq (Has a) (Has b) = (a = b)"
| "strictEq (Has a) _ = False"
| "strictEq _ (Has b) = False"
| "strictEq _ _ = True"

text \<open>
  A \<^typ>\<open>string\<close> is a list of characters with codes below 256. \<^verbatim>\<open>String.prototype.trim\<close>
  removes the white space and line terminators of ECMAScript, which among these
  characters are tab, line feed, vertical tab, form feed, carriage return, space and the
  no-break space. Then \<^verbatim>\<open>startsWith\<close>, the last piece of \<^verbatim>\<open>split('.')\<close> and the decimal
  rendering of a number.
\<close>

definition whitespace :: "char \<Rightarrow> bool" where
  "whitespace c =
     (c \<in> set [CHR 0x09, CHR 0x0A, CHR 0x0B, CHR 0x0C, CHR 0x0D, CHR 0x20, CHR 0xA0])"

definition trim :: "string \<Rightarrow> string" where
  "trim s = rev (dropWhile whitespace (rev (dropWhile whitespace s)))"

definition startsWith :: "string \<Rightarrow> string \<Rightarrow> bool" where
  "startsWith s p = prefix p s"

definition lastSegment :: "string \<Rightarrow> string" where
  "lastSegment s = rev (takeWhile (\<lambda>c. c \<noteq> CHR ''.'') (rev s))"

fun showNat :: "nat \<Rightarrow> string" where
  "showNat n = (if n < 10 then [char_of (48 + n)]
                else showNat (n div 10) @ [char_of (48 + n mod 10)])"

definition showInt :: "int \<Rightarrow> string" where
  "showInt i = (if i < 0 then ''-'' @ showNat (nat (- i)) else showNat (nat i))"

section \<open>Data model\<close>

text \<open>
  The analysis payload is \<^verbatim>\<open>any\<close> in the source; the model keeps the properties the
  store, the pipeline and the sync bridge read. \<open>None\<close> stands for a missing number or
  object. Numbers are integers: no property below depends on a fraction.
\<close>

record nutritional_values =
  total_calories :: "int option"
  total_total_carbohydrate_g :: "int option"
  total_protein_g :: "int option"
  total_total_fat_g :: "int option"

record analysis_object =
  title :: "string option"
  total_meal_nutritional_values :: "nutritional_values option"

text \<open>
  Interface \<^verbatim>\<open>MealAnalysis\<close>, as the objects are at run time: an object read from a file
  or handed to the store as an update can lack any property, so each of the eight
  properties has its three states. The value of \<open>analysis\<close> is \<open>None\<close> for \<^verbatim>\<open>null\<close>.
  The entries of the index are objects of the same kind. The index keeps its
  \<open>lastUpdated\<close> mark as the instant in milliseconds, not as the ISO text of it.
\<close>

record MealAnalysis =
  mealId :: "string optional"
  timestamp :: "string optional"
  imageUri :: "string optional"
  afterImageUri :: "string optional"
  analysis :: "analysis_object option optional"
  comment :: "string optional"
  isLoading :: "bool optional"
  hasError :: "bool optional"

record mealRef =
  ref_id :: "string optional"
  ref_timestamp :: "string optional"
  ref_filename :: "string optional"

record MealIndex =
  meals :: "mealRef list"
  lastUpdated :: int

text \<open>\<open>theAnalysis\<close> is the value read as \<^verbatim>\<open>meal.analysis\<close>, \<open>None\<close> for \<^verbatim>\<open>null\<close> and
  \<^verbatim>\<open>undefined\<close>; \<open>falsyAnalysis\<close> is \<^verbatim>\<open>!meal.analysis\<close>.\<close>

fun theAnalysis :: "analysis_object option optional \<Rightarrow> analysis_object option" where
  "theAnalysis (Has v) = v"
| "theAnalysis _ = None"

fun falsyAnalysis :: "analysis_object option optional \<Rightarrow> bool" where
  "falsyAnalysis (Has (Some a)) = False"
| "falsyAnalysis _ = True"

definition EMPTY_ANALYSIS :: analysis_object where
  "EMPTY_ANALYSIS = \<lparr>title = None,
     total_meal_nutritional_values = Some \<lparr>total_calories = Some 0,
       total_total_carbohydrate_g = Some 0, total_protein_g = Some 0,
       total_total_fat_g = Some 0\<rparr>\<rparr>"

datatype error =
    MissingRequiredMealData
  | MissingRequiredPendingMealData
  | InvalidTimeRange
  | FileUnreadable string
  | TypeError
  | NoImageOrComment
  | AnalysisFailure
  | InvalidDate

section \<open>File system\<close>

text \<open>
  One name space of paths, as on the device. A file holds the JSON of a meal, the JSON of
  the index, or other bytes (an image, or text that is not JSON); a path can also be a
  directory. Reading fails on a missing path, on a directory and on content that is not
  JSON; writes, copies of an existing source and idempotent deletes succeed.
\<close>

datatype fcontent =
    MealJson MealAnalysis
  | IndexJson MealIndex
  | Bytes string
  | Directory

type_synonym filesystem = "string \<Rightarrow> fcontent option"

text \<open>
  What the source reads from its surroundings: \<^verbatim>\<open>FileSystem.documentDirectory\<close>, the
  clock (\<^verbatim>\<open>Date.now()\<close>, constant during one call of the store) and
  \<^verbatim>\<open>new Date(s).getTime()\<close> for a string \<open>s\<close>, which is \<open>None\<close> where JavaScript gives
  \<^verbatim>\<open>NaN\<close>. \<open>timeOf\<close> is the same for a property: \<^verbatim>\<open>new Date(undefined)\<close> is an invalid
  date.
\<close>

record env =
  documentDirectory :: string
  getTime :: "string \<Rightarrow> int option"
  now :: int

fun timeOf :: "env \<Rightarrow> string optional \<Rightarrow> int option" where
  "timeOf e (Has s) = getTime e s"
| "timeOf e v = None"

definition mealsDir :: "env \<Rightarrow> string" where
  "mealsDir e = documentDirectory e @ ''meals/''"

definition imagesDir :: "env \<Rightarrow> string" where
  "imagesDir e = documentDirectory e @ ''meals/images/''"

definition indexFile :: "env \<Rightarrow> string" where
  "indexFile e = documentDirectory e @ ''meals/index.json''"

definition mealFilename :: "string optional \<Rightarrow> string" where
  "mealFilename i = ''meal_'' @ templ i @ ''.json''"

definition mealFile :: "env \<Rightarrow> string optional \<Rightarrow> string" where
  "mealFile e i = mealsDir e @ mealFilename i"

text \<open>\<^verbatim>\<open>JSON.stringify\<close> of a meal and of an index entry.\<close>

definition stringifyMeal :: "MealAnalysis \<Rightarrow> MealAnalysis" where
  "stringifyMeal m =
     \<lparr>mealId = stringified (mealId m), timestamp = stringified (timestamp m),
      imageUri = stringified (imageUri m), afterImageUri = stringified (afterImageUri m),
      analysis = stringified (analysis m), comment = stringified (comment m),
      isLoading = stringified (isLoading m), hasError = stringified (hasError m)\<rparr>"

definition stringifyRef :: "mealRef \<Rightarrow> mealRef" where
  "stringifyRef r =
     \<lparr>ref_id = stringified (ref_id r), ref_timestamp = stringified (ref_timestamp r),
      ref_filename = stringified (ref_filename r)\<rparr>"

definition writeMeal :: "string \<Rightarrow> MealAnalysis \<Rightarrow> filesystem \<Rightarrow> filesystem" where
  "writeMeal p m fs = fs(p \<mapsto> MealJson (stringifyMeal m))"

text \<open>Reading a meal from a file that holds the JSON of an index gives an object
  without any of the properties of a meal.\<close>

definition noProperties :: MealAnalysis where
  "noProperties = \<lparr>mealId = Absent, timestamp = Absent, imageUri = Absent,
     afterImageUri = Absent, analysis = Absent, comment = Absent, isLoading = Absent,
     hasError = Absent\<rparr>"

definition readMeal :: "string \<Rightarrow> filesystem \<Rightarrow> error + MealAnalysis" where
  "readMeal p fs =
     (case fs p of
        Some (MealJson m) \<Rightarrow> Inr m
      | Some (IndexJson i) \<Rightarrow> Inr noProperties
      | _ \<Rightarrow> Inl (FileUnreadable p))"

fun deleteAll :: "string list \<Rightarrow> filesystem \<Rightarrow> filesystem" where
  "deleteAll [] fs = fs"
| "deleteAll (p # ps) fs = deleteAll ps (fs(p := None))"

section \<open>Record store (FileSystemStorageService)\<close>

text \<open>
  The class \<^verbatim>\<open>FileSystemStorageService\<close>, lines 213 to 703 of
  \<^verbatim>\<open>components/MealHistoryCard.tsx\<close>. Every public method starts with
  \<^verbatim>\<open>initializeStorage\<close>, whose effect stays when the method throws later.
\<close>

definition initializeStorage :: "env \<Rightarrow> filesystem \<Rightarrow> filesystem" where
  "initializeStorage e fs =
     (let fs1 = (if fs (mealsDir e) = None then fs(mealsDir e \<mapsto> Directory) else fs);
          fs2 = (if fs1 (imagesDir e) = None then fs1(imagesDir e \<mapsto> Directory) else fs1)
      in if fs2 (indexFile e) = None
         then fs2(indexFile e \<mapsto> IndexJson \<lparr>meals = [], lastUpdated = now e\<rparr>)
         else fs2)"

text \<open>
  \<^verbatim>\<open>readIndex\<close> returns what \<^verbatim>\<open>JSON.parse\<close> makes of the index file, and the default
  index when the file cannot be read or is not JSON. When the file holds JSON without the
  array \<^verbatim>\<open>meals\<close> (the JSON of a meal), the value returned has no \<^verbatim>\<open>meals\<close> and the
  statement that follows the call in each caller, which uses \<^verbatim>\<open>index.meals\<close>, throws
  \<^verbatim>\<open>TypeError\<close>: the model gives that error as the result of the read.
\<close>

definition readIndex :: "env \<Rightarrow> filesystem \<Rightarrow> error + MealIndex" where
  "readIndex e fs =
     (case fs (indexFile e) of
        Some (IndexJson i) \<Rightarrow> Inr i
      | Some (MealJson m) \<Rightarrow> Inl TypeError
      | _ \<Rightarrow> Inr \<lparr>meals = [], lastUpdated = now e\<rparr>)"

definition writeIndex :: "env \<Rightarrow> MealIndex \<Rightarrow> filesystem \<Rightarrow> filesystem" where
  "writeIndex e index fs =
     fs(indexFile e \<mapsto> IndexJson \<lparr>meals = map stringifyRef (meals index), lastUpdated = now e\<rparr>)"

definition copyImageToStorage ::
  "env \<Rightarrow> string \<Rightarrow> string \<Rightarrow> string \<Rightarrow> filesystem \<Rightarrow> (error + string) \<times> filesystem" where
  "copyImageToStorage e sourceUri mid sfx fs =
     (let extension = (if lastSegment sourceUri = [] then ''jpg'' else lastSegment sourceUri);
          filename = mid @ (if sfx \<noteq> [] then ''_'' @ sfx else []) @ ''_''
                     @ showInt (now e) @ ''.'' @ extension;
          destinationUri = imagesDir e @ filename
      in case fs sourceUri of
           None \<Rightarrow> (Inl (FileUnreadable sourceUri), fs)
         | Some c \<Rightarrow> (Inr destinationUri, fs(destinationUri \<mapsto> c)))"

definition newRef :: "string optional \<Rightarrow> string optional \<Rightarrow> mealRef" where
  "newRef i ts = \<lparr>ref_id = i, ref_timestamp = ts, ref_filename = Has (mealFilename i)\<rparr>"

text \<open>The parts of \<^verbatim>\<open>saveMealAnalysis\<close>: copying the image and the after image into
  storage unless they are there already, and the update of the index with the retention
  cap of 50 entries. The image and the id are truthy where the copies are made.\<close>

definition storeImage :: "env \<Rightarrow> MealAnalysis \<Rightarrow> filesystem \<Rightarrow> (error + string) \<times> filesystem" where
  "storeImage e meal fs =
     (if startsWith (orEmpty (imageUri meal)) (imagesDir e) then (Inr (orEmpty (imageUri meal)), fs)
      else copyImageToStorage e (orEmpty (imageUri meal)) (templ (mealId meal)) [] fs)"

definition storeAfterImage ::
  "env \<Rightarrow> MealAnalysis \<Rightarrow> filesystem \<Rightarrow> (error + string optional) \<times> filesystem" where
  "storeAfterImage e meal fs =
     (if truthyStr (afterImageUri meal)
         \<and> \<not> startsWith (orEmpty (afterImageUri meal)) (imagesDir e)
      then (case copyImageToStorage e (orEmpty (afterImageUri meal)) (templ (mealId meal))
                   ''after'' fs of
              (Inl err, fs1) \<Rightarrow> (Inl err, fs1)
            | (Inr uri, fs1) \<Rightarrow> (Inr (Has uri), fs1))
      else (Inr (spread Undefined (afterImageUri meal)), fs))"

definition unshiftCapped ::
  "env \<Rightarrow> string optional \<Rightarrow> string optional \<Rightarrow> filesystem \<Rightarrow> error + filesystem" where
  "unshiftCapped e mid ts fs =
     (case readIndex e fs of
        Inl err \<Rightarrow> Inl err
      | Inr index \<Rightarrow>
          (let kept = filter (\<lambda>m. \<not> strictEq (ref_id m) mid) (meals index);
               added = newRef mid ts # kept
           in if length added > 50
              then Inr (writeIndex e (index\<lparr>meals := take 50 added\<rparr>)
                     (deleteAll (map (\<lambda>oldMeal. mealsDir e @ templ (ref_filename oldMeal))
                                   (drop 50 added)) fs))
              else Inr (writeIndex e (index\<lparr>meals := added\<rparr>) fs)))"

definition saveMealAnalysis ::
  "env \<Rightarrow> MealAnalysis \<Rightarrow> filesystem \<Rightarrow> (error + unit) \<times> filesystem" where
  "saveMealAnalysis e meal fs =
     (let fs1 = initializeStorage e fs in
      if falsyStr (mealId meal) \<or> falsyStr (timestamp meal) \<or> falsyStr (imageUri meal)
         \<or> falsyAnalysis (analysis meal)
      then (Inl MissingRequiredMealData, fs1)
      else
        case storeImage e meal fs1 of
          (Inl err, fs2) \<Rightarrow> (Inl err, fs2)
        | (Inr storageImageUri, fs2) \<Rightarrow>
            (case storeAfterImage e meal fs2 of
               (Inl err, fs3) \<Rightarrow> (Inl err, fs3)
             | (Inr storageAfterImageUri, fs3) \<Rightarrow>
                 (let mealToSave = meal\<lparr>imageUri := Has storageImageUri,
                                         afterImageUri := storageAfterImageUri\<rparr>;
                      fs4 = writeMeal (mealFile e (mealId meal)) mealToSave fs3
                  in case unshiftCapped e (mealId meal) (timestamp meal) fs4 of
                       Inl err \<Rightarrow> (Inl err, fs4)
                     | Inr fs5 \<Rightarrow> (Inr (), fs5))))"

definition getMealById ::
  "env \<Rightarrow> string optional \<Rightarrow> filesystem \<Rightarrow> MealAnalysis option \<times> filesystem" where
  "getMealById e mid fs =
     (let fs1 = initializeStorage e fs in
      case readMeal (mealFile e mid) fs1 of
        Inr m \<Rightarrow> (Some m, fs1)
      | Inl err \<Rightarrow> (None, fs1))"

text \<open>The parts of \<^verbatim>\<open>savePendingMeal\<close>: copying the images that are given, and the update
  of the index, which has no cap.\<close>

definition storePendingImage ::
  "env \<Rightarrow> MealAnalysis \<Rightarrow> filesystem \<Rightarrow> (error + string) \<times> filesystem" where
  "storePendingImage e pendingMeal fs =
     (if truthyStr (imageUri pendingMeal) \<and> trim (orEmpty (imageUri pendingMeal)) \<noteq> []
      then copyImageToStorage e (orEmpty (imageUri pendingMeal)) (templ (mealId pendingMeal)) [] fs
      else (Inr [], fs))"

definition storePendingAfterImage ::
  "env \<Rightarrow> MealAnalysis \<Rightarrow> filesystem \<Rightarrow> (error + string optional) \<times> filesystem" where
  "storePendingAfterImage e pendingMeal fs =
     (if truthyStr (afterImageUri pendingMeal)
         \<and> trim (orEmpty (afterImageUri pendingMeal)) \<noteq> []
      then (case copyImageToStorage e (orEmpty (afterImageUri pendingMeal))
                   (templ (mealId pendingMeal)) ''after'' fs of
              (Inl err, fs1) \<Rightarrow> (Inl err, fs1)
            | (Inr uri, fs1) \<Rightarrow> (Inr (Has uri), fs1))
      else (Inr Undefined, fs))"

definition unshift ::
  "env \<Rightarrow> string optional \<Rightarrow> string optional \<Rightarrow> filesystem \<Rightarrow> error + filesystem" where
  "unshift e mid ts fs =
     (case readIndex e fs of
        Inl err \<Rightarrow> Inl err
      | Inr index \<Rightarrow>
          (let kept = filter (\<lambda>m. \<not> strictEq (ref_id m) mid) (meals index);
               added = newRef mid ts # kept
           in Inr (writeIndex e (index\<lparr>meals := added\<rparr>) fs)))"

definition savePendingMeal ::
  "env \<Rightarrow> MealAnalysis \<Rightarrow> filesystem \<Rightarrow> (error + unit) \<times> filesystem" where
  "savePendingMeal e pendingMeal fs =
     (let fs1 = initializeStorage e fs in
      if falsyStr (mealId pendingMeal) \<or> falsyStr (timestamp pendingMeal)
      then (Inl MissingRequiredPendingMealData, fs1)
      else
        case storePendingImage e pendingMeal fs1 of
          (Inl err, fs2) \<Rightarrow> (Inl err, fs2)
        | (Inr storageImageUri, fs2) \<Rightarrow>
            (case storePendingAfterImage e pendingMeal fs2 of
               (Inl err, fs3) \<Rightarrow> (Inl err, fs3)
             | (Inr storageAfterImageUri, fs3) \<Rightarrow>
                 (let mealToSave = \<lparr>mealId = mealId pendingMeal,
                                     timestamp = timestamp pendingMeal,
                                     imageUri = Has storageImageUri,
                                     afterImageUri = storageAfterImageUri,
                                     analysis = Has None,
                                     comment = Has (orEmpty (comment pendingMeal)),
                                     isLoading = Has True, hasError = Has False\<rparr>;
                      fs4 = writeMeal (mealFile e (mealId pendingMeal)) mealToSave fs3
                  in case unshift e (mealId pendingMeal) (timestamp pendingMeal) fs4 of
                       Inl err \<Rightarrow> (Inl err, fs4)
                     | Inr fs5 \<Rightarrow> (Inr (), fs5))))"

text \<open>
  \<^verbatim>\<open>Array.prototype.findIndex\<close> (\<open>None\<close> for \<open>-1\<close>) and \<^verbatim>\<open>Array.prototype.sort\<close> with a
  comparator. The sort is stable (ECMAScript 2019); it is written as an insertion sort,
  and any stable sort gives the same list when the comparator is a consistent order. A
  comparator result of \<^verbatim>\<open>NaN\<close> counts as \<open>0\<close>.
\<close>

fun findIndex :: "('a \<Rightarrow> bool) \<Rightarrow> 'a list \<Rightarrow> nat option" where
  "findIndex P [] = None"
| "findIndex P (x # xs) = (if P x then Some 0 else map_option Suc (findIndex P xs))"

fun insertBy :: "('a \<Rightarrow> 'a \<Rightarrow> int) \<Rightarrow> 'a \<Rightarrow> 'a list \<Rightarrow> 'a list" where
  "insertBy cmp x [] = [x]"
| "insertBy cmp x (y # ys) = (if cmp x y \<le> 0 then x # y # ys else y # insertBy cmp x ys)"

definition sortBy :: "('a \<Rightarrow> 'a \<Rightarrow> int) \<Rightarrow> 'a list \<Rightarrow> 'a list" where
  "sortBy cmp xs = foldr (insertBy cmp) xs []"

definition byTimestampDesc :: "env \<Rightarrow> mealRef \<Rightarrow> mealRef \<Rightarrow> int" where
  "byTimestampDesc e a b =
     (case (timeOf e (ref_timestamp b), timeOf e (ref_timestamp a)) of
        (Some tb, Some ta) \<Rightarrow> tb - ta
      | _ \<Rightarrow> 0)"

text \<open>The parts of \<^verbatim>\<open>updateMealAnalysis\<close>: the merge
  \<^verbatim>\<open>{...existingMeal, ...meal, isLoading: false, hasError: false}\<close> of the stored meal with
  the one given, and the update of the index entry followed by the sort.\<close>

definition mergeMeal :: "MealAnalysis \<Rightarrow> MealAnalysis \<Rightarrow> MealAnalysis" where
  "mergeMeal existingMeal meal =
     \<lparr>mealId = spread (mealId existingMeal) (mealId meal),
      timestamp = spread (timestamp existingMeal) (timestamp meal),
      imageUri = spread (imageUri existingMeal) (imageUri meal),
      afterImageUri = spread (afterImageUri existingMeal) (afterImageUri meal),
      analysis = spread (analysis existingMeal) (analysis meal),
      comment = spread (comment existingMeal) (comment meal),
      isLoading = Has False, hasError = Has False\<rparr>"

definition syncIndexEntry ::
  "env \<Rightarrow> string optional \<Rightarrow> string optional \<Rightarrow> filesystem \<Rightarrow> error + filesystem" where
  "syncIndexEntry e mid ts fs =
     (case readIndex e fs of
        Inl err \<Rightarrow> Inl err
      | Inr index \<Rightarrow>
          (let entries = (case findIndex (\<lambda>m. strictEq (ref_id m) mid) (meals index) of
                            Some entryIndex \<Rightarrow>
                              (meals index)[entryIndex :=
                                 (meals index ! entryIndex)\<lparr>ref_timestamp := ts\<rparr>]
                          | None \<Rightarrow> newRef mid ts # meals index)
           in Inr (writeIndex e (index\<lparr>meals := sortBy (byTimestampDesc e) entries\<rparr>) fs)))"

definition updateMealAnalysis ::
  "env \<Rightarrow> string optional \<Rightarrow> MealAnalysis \<Rightarrow> filesystem \<Rightarrow> (error + unit) \<times> filesystem" where
  "updateMealAnalysis e mid meal fs =
     (let fs1 = initializeStorage e fs in
      case readMeal (mealFile e mid) fs1 of
        Inl err \<Rightarrow> (Inl err, fs1)
      | Inr existingMeal \<Rightarrow>
          (let updatedMeal = mergeMeal existingMeal meal;
               fs2 = writeMeal (mealFile e mid) updatedMeal fs1
           in case syncIndexEntry e mid (timestamp updatedMeal) fs2 of
                Inl err \<Rightarrow> (Inl err, fs2)
              | Inr fs3 \<Rightarrow> (Inr (), fs3)))"

definition updateMealAnalysisError ::
  "env \<Rightarrow> string optional \<Rightarrow> filesystem \<Rightarrow> (error + unit) \<times> filesystem" where
  "updateMealAnalysisError e mid fs =
     (let fs1 = initializeStorage e fs in
      case readMeal (mealFile e mid) fs1 of
        Inl err \<Rightarrow> (Inl err, fs1)
      | Inr existingMeal \<Rightarrow>
          (Inr (), writeMeal (mealFile e mid)
                     (existingMeal\<lparr>isLoading := Has False, hasError := Has True\<rparr>) fs1))"

fun readMeals :: "env \<Rightarrow> mealRef list \<Rightarrow> filesystem \<Rightarrow> MealAnalysis list" where
  "readMeals e [] fs = []"
| "readMeals e (mealRef # refs) fs =
     (case readMeal (mealsDir e @ templ (ref_filename mealRef)) fs of
        Inr meal \<Rightarrow> meal # readMeals e refs fs
      | Inl err \<Rightarrow> readMeals e refs fs)"

text \<open>\<^verbatim>\<open>getMealHistory\<close> catches every error and returns the empty list then.\<close>

definition getMealHistory :: "env \<Rightarrow> filesystem \<Rightarrow> MealAnalysis list \<times> filesystem" where
  "getMealHistory e fs =
     (let fs1 = initializeStorage e fs
      in case readIndex e fs1 of
           Inl err \<Rightarrow> ([], fs1)
         | Inr index \<Rightarrow> (readMeals e (meals index) fs1, fs1))"

definition clearHistory :: "env \<Rightarrow> filesystem \<Rightarrow> (error + unit) \<times> filesystem" where
  "clearHistory e fs =
     (let fs1 = initializeStorage e fs
      in case readIndex e fs1 of
           Inl err \<Rightarrow> (Inl err, fs1)
         | Inr index \<Rightarrow>
             (let fs2 = deleteAll (map (\<lambda>mealRef. mealsDir e @ templ (ref_filename mealRef))
                                     (meals index)) fs1
              in (Inr (), writeIndex e \<lparr>meals = [], lastUpdated = now e\<rparr> fs2)))"

definition cutoffTime :: "env \<Rightarrow> string \<Rightarrow> int option" where
  "cutoffTime e timeRange =
     (if timeRange = ''hour'' then Some (now e - 60 * 60 * 1000)
      else if timeRange = ''day'' then Some (now e - 24 * 60 * 60 * 1000)
      else if timeRange = ''month'' then Some (now e - 30 * 24 * 60 * 60 * 1000)
      else if timeRange = ''year'' then Some (now e - 365 * 24 * 60 * 60 * 1000)
      else None)"

definition atOrAfter :: "env \<Rightarrow> int \<Rightarrow> mealRef \<Rightarrow> bool" where
  "atOrAfter e cutoff mealRef =
     (case timeOf e (ref_timestamp mealRef) of Some mealDate \<Rightarrow> mealDate \<ge> cutoff
      | None \<Rightarrow> False)"

definition clearHistoryByTimeRange ::
  "env \<Rightarrow> string \<Rightarrow> filesystem \<Rightarrow> (error + unit) \<times> filesystem" where
  "clearHistoryByTimeRange e timeRange fs =
     (let fs1 = initializeStorage e fs in
      if timeRange = ''all'' then clearHistory e fs1
      else case cutoffTime e timeRange of
        None \<Rightarrow> (Inl InvalidTimeRange, fs1)
      | Some cutoffDate \<Rightarrow>
          (case readIndex e fs1 of
             Inl err \<Rightarrow> (Inl err, fs1)
           | Inr index \<Rightarrow>
               (let mealsToDelete = filter (atOrAfter e cutoffDate) (meals index);
                    mealsToKeep = filter (\<lambda>mealRef. \<not> atOrAfter e cutoffDate mealRef)
                                    (meals index);
                    fs2 = deleteAll (map (\<lambda>mealRef. mealsDir e @ templ (ref_filename mealRef))
                                       mealsToDelete) fs1
                in (Inr (), writeIndex e \<lparr>meals = mealsToKeep, lastUpdated = now e\<rparr> fs2))))"

section \<open>External sync bridge (HealthConnectService)\<close>

text \<open>
  \<^verbatim>\<open>services/HealthConnectService.ts\<close>, lines 20 to 237. A value of the version map, or the
  version of a record, is a number that is an integer of magnitude at most \<open>2 ^ 53\<close>
  (among which a double computes exactly), or a value the model does not follow: a
  fraction, a larger number, \<^verbatim>\<open>null\<close>, a string, an object or a function. Nothing is
  known of an untracked value, also not that it differs from a number.
\<close>

datatype jsvalue = Num int | Untracked

record permission =
  recordType :: string
  accessType :: string

record nutrition_record =
  clientRecordId :: "string optional"
  clientRecordVersion :: jsvalue
  startTime :: int
  endTime :: int
  recordName :: string
  energy :: int
  protein :: int
  totalCarbohydrate :: int
  totalFat :: int

text \<open>
  The two items of the secure store: the permission flag and the version map. The stored
  version map is the JSON of an object, given by its own properties, or text that does
  not parse. \<open>written\<close> lists the records Health Connect has accepted.
\<close>

type_synonym versionMap = "string \<Rightarrow> jsvalue option"

datatype versionItem = VersionJson versionMap | Unparsable

record hcState =
  permissionFlag :: "string option"
  versionMapItem :: "versionItem option"
  written :: "nutrition_record list"

text \<open>
  What the bridge meets during one call: the platform, whether the native module loaded,
  the outcome of the k-th \<^verbatim>\<open>initialize()\<close> (\<open>None\<close>: it throws), of
  \<^verbatim>\<open>getGrantedPermissions\<close>, of the secure store, and of the write methods of the module
  (\<open>None\<close>: not a function; otherwise whether the call with this record resolves).
\<close>

datatype granted = NoSuchMethod | Rejects | NotAnArray | GrantedList "permission list"

record hcEnv =
  platformAndroid :: bool
  healthConnectLoaded :: bool
  initializeOutcome :: "nat \<Rightarrow> bool option"
  grantedPermissions :: granted
  secureStoreReads :: bool
  secureStoreWrites :: bool
  insertRecords :: "(nutrition_record \<Rightarrow> bool) option"
  writeRecords :: "(nutrition_record \<Rightarrow> bool) option"

definition readVersionMap :: "hcEnv \<Rightarrow> hcState \<Rightarrow> versionMap" where
  "readVersionMap h s =
     (if secureStoreReads h
      then (case versionMapItem s of Some (VersionJson m) \<Rightarrow> m | _ \<Rightarrow> Map.empty)
      else Map.empty)"

definition writeVersionMap :: "hcEnv \<Rightarrow> versionMap \<Rightarrow> hcState \<Rightarrow> hcState" where
  "writeVersionMap h m s =
     (if secureStoreWrites h then s\<lparr>versionMapItem := Some (VersionJson m)\<rparr> else s)"

text \<open>
  \<^verbatim>\<open>map[key]\<close> finds an own property of the map, or else a property the map inherits from
  \<^verbatim>\<open>Object.prototype\<close>, which is a function or an object; \<open>None\<close> is \<^verbatim>\<open>undefined\<close>.
  \<^verbatim>\<open>v ?? 0\<close> replaces \<^verbatim>\<open>undefined\<close>. \<^verbatim>\<open>v + 1\<close> is exact below \<open>2 ^ 53\<close>, and
  \<open>2 ^ 53 + 1\<close> rounds to \<open>2 ^ 53\<close>. \<^verbatim>\<open>map[key] = v\<close> sets an own property, except that
  for the key \<^verbatim>\<open>__proto__\<close> on a map without such an own property the inherited setter
  runs, which ignores a number and a string (and \<^verbatim>\<open>v + 1\<close> is one of the two).
\<close>

definition objectPrototypeNames :: "string list" where
  "objectPrototypeNames =
     [''constructor'', ''hasOwnProperty'', ''isPrototypeOf'', ''propertyIsEnumerable'',
      ''toLocaleString'', ''toString'', ''valueOf'', ''__proto__'', ''__defineGetter__'',
      ''__defineSetter__'', ''__lookupGetter__'', ''__lookupSetter__'']"

definition getProperty :: "versionMap \<Rightarrow> string \<Rightarrow> jsvalue option" where
  "getProperty m k =
     (case m k of Some v \<Rightarrow> Some v
      | None \<Rightarrow> if k \<in> set objectPrototypeNames then Some Untracked else None)"

definition orZeroValue :: "jsvalue option \<Rightarrow> jsvalue" where
  "orZeroValue v = (case v of Some x \<Rightarrow> x | None \<Rightarrow> Num 0)"

fun plusOne :: "jsvalue \<Rightarrow> jsvalue" where
  "plusOne (Num n) =
     (if - 9007199254740992 \<le> n \<and> n < 9007199254740992 then Num (n + 1)
      else if n = 9007199254740992 then Num n
      else Untracked)"
| "plusOne Untracked = Untracked"

definition setProperty :: "versionMap \<Rightarrow> string \<Rightarrow> jsvalue \<Rightarrow> versionMap" where
  "setProperty m k v = (if k = ''__proto__'' \<and> m k = None then m else m(k \<mapsto> v))"

definition getNextVersion ::
  "hcEnv \<Rightarrow> string optional \<Rightarrow> hcState \<Rightarrow> jsvalue \<times> versionMap" where
  "getNextVersion h mid s =
     (let m = readVersionMap h s;
          next = plusOne (orZeroValue (getProperty m (templ mid)))
      in (next, m))"

definition setPermissionGranted :: "hcEnv \<Rightarrow> bool \<Rightarrow> hcState \<Rightarrow> hcState" where
  "setPermissionGranted h isGranted s =
     (if secureStoreWrites h
      then s\<lparr>permissionFlag := (if isGranted then Some ''true'' else None)\<rparr>
      else s)"

definition getPersistedPermission :: "hcEnv \<Rightarrow> hcState \<Rightarrow> bool" where
  "getPersistedPermission h s = (secureStoreReads h \<and> permissionFlag s = Some ''true'')"

definition ensureInitialized :: "hcEnv \<Rightarrow> nat \<Rightarrow> bool" where
  "ensureInitialized h k =
     (if platformAndroid h \<and> healthConnectLoaded h
      then (case initializeOutcome h k of Some initialized \<Rightarrow> initialized | None \<Rightarrow> False)
      else False)"

definition hasWritePermission :: "hcEnv \<Rightarrow> hcState \<Rightarrow> bool \<times> hcState" where
  "hasWritePermission h s =
     (if platformAndroid h \<and> healthConnectLoaded h
      then (case grantedPermissions h of
              GrantedList grantedList \<Rightarrow>
                (let isGranted = list_ex (\<lambda>p. recordType p = ''Nutrition''
                                              \<and> accessType p = ''write'') grantedList
                 in (isGranted, setPermissionGranted h isGranted s))
            | _ \<Rightarrow> (getPersistedPermission h s, s))
      else (False, s))"

definition orZero :: "int option \<Rightarrow> int" where
  "orZero v = (case v of Some n \<Rightarrow> n | None \<Rightarrow> 0)"

text \<open>
  The record builder is \<open>None\<close> when the meal has no analysis or the analysis has no
  totals. Building the record calls \<^verbatim>\<open>toISOString\<close>, which throws on an invalid date.
\<close>

definition convertMealToNutritionRecord ::
  "env \<Rightarrow> MealAnalysis \<Rightarrow> (jsvalue \<Rightarrow> error + nutrition_record) option" where
  "convertMealToNutritionRecord e meal =
     (case theAnalysis (analysis meal) of
        None \<Rightarrow> None
      | Some a \<Rightarrow>
          (case total_meal_nutritional_values a of
             None \<Rightarrow> None
           | Some totals \<Rightarrow>
               Some (\<lambda>version.
                 case timeOf e (timestamp meal) of
                   None \<Rightarrow> Inl InvalidDate
                 | Some mealDate \<Rightarrow>
                     Inr \<lparr>clientRecordId = mealId meal, clientRecordVersion = version,
                          startTime = mealDate, endTime = mealDate + 60 * 1000,
                          recordName = (case title a of Some t \<Rightarrow> t | None \<Rightarrow> ''Meal''),
                          energy = orZero (total_calories totals),
                          protein = orZero (total_protein_g totals),
                          totalCarbohydrate = orZero (total_total_carbohydrate_g totals),
                          totalFat = orZero (total_total_fat_g totals)\<rparr>)))"

definition persistVersion ::
  "hcEnv \<Rightarrow> string optional \<Rightarrow> jsvalue \<Rightarrow> versionMap \<Rightarrow> nutrition_record \<Rightarrow> hcState \<Rightarrow> hcState" where
  "persistVersion h mid version m r s =
     writeVersionMap h (setProperty m (templ mid) version) (s\<lparr>written := written s @ [r]\<rparr>)"

text \<open>
  The \<^verbatim>\<open>try\<close> block of \<^verbatim>\<open>writeMealToHealthConnect\<close> up to the write: \<^verbatim>\<open>insertRecords\<close> is
  used when it is a function, \<^verbatim>\<open>writeRecords\<close> otherwise; the result says whether a
  write was made and resolved. When neither is a function the source returns, and when
  the call throws the catch block logs: the version is persisted in neither case.
\<close>

definition attemptWrite :: "hcEnv \<Rightarrow> nutrition_record \<Rightarrow> bool" where
  "attemptWrite h r =
     (case insertRecords h of
        Some insertFn \<Rightarrow> insertFn r
      | None \<Rightarrow> (case writeRecords h of Some writeFn \<Rightarrow> writeFn r | None \<Rightarrow> False))"

definition writeMealToHealthConnect ::
  "hcEnv \<Rightarrow> env \<Rightarrow> MealAnalysis \<Rightarrow> hcState \<Rightarrow> error option \<times> hcState" where
  "writeMealToHealthConnect h e meal s =
     (if platformAndroid h
      then case hasWritePermission h s of (permitted, s1) \<Rightarrow>
        if permitted \<and> healthConnectLoaded h
        then case getNextVersion h (mealId meal) s1 of (version, m) \<Rightarrow>
          (case convertMealToNutritionRecord e meal of
             None \<Rightarrow> (None, s1)
           | Some recordBuilder \<Rightarrow>
               (case recordBuilder version of
                  Inl err \<Rightarrow> (Some err, s1)
                | Inr r \<Rightarrow>
                    if ensureInitialized h 1
                    then (if attemptWrite h r
                          then (None, persistVersion h (mealId meal) version m r s1)
                          else (None, s1))
                    else (None, s1)))
        else (None, s1)
      else (None, s))"

section \<open>Analysis pipeline (AnalysisProcessor)\<close>

text \<open>The module that exports \<^verbatim>\<open>processMeal\<close> and \<^verbatim>\<open>resumePending\<close>
  (lines 643 to 776 of \<^verbatim>\<open>unnamed/part_003\<close>).\<close>

datatype event = MealUpdated MealAnalysis

datatype request =
    AnalyzeFoodFromText string
  | AnalyzeFoodBeforeAfter fcontent fcontent "string optional"
  | AnalyzeFood fcontent "string optional"

text \<open>
  The inference collaborator is a function from the number of calls made so far and the
  request to an analysis or a failure: every behaviour of the service is one such
  function. The world of the pipeline is the file system, the events emitted, the
  requests sent to the collaborator and the state of the sync bridge.
\<close>

type_synonym gemini = "nat \<Rightarrow> request \<Rightarrow> error + analysis_object"

record world =
  files :: filesystem
  emitted :: "event list"
  inferenceCalls :: "request list"
  health :: hcState

definition MEAL_TIMEOUT_MS :: int where
  "MEAL_TIMEOUT_MS = 24 * 60 * 60 * 1000"

definition readBase64 :: "string \<Rightarrow> filesystem \<Rightarrow> error + fcontent" where
  "readBase64 p fs =
     (case fs p of None \<Rightarrow> Inl (FileUnreadable p)
      | Some Directory \<Rightarrow> Inl (FileUnreadable p)
      | Some c \<Rightarrow> Inr c)"

definition callGemini :: "gemini \<Rightarrow> request \<Rightarrow> world \<Rightarrow> (error + analysis_object) \<times> world" where
  "callGemini g r w =
     (g (length (inferenceCalls w)) r, w\<lparr>inferenceCalls := inferenceCalls w @ [r]\<rparr>)"

text \<open>Marking the record as failed and telling the listeners, as the expiry branch and
  the catch block both do.\<close>

definition markErrorAndNotify :: "env \<Rightarrow> MealAnalysis \<Rightarrow> world \<Rightarrow> error option \<times> world" where
  "markErrorAndNotify e meal w =
     (case updateMealAnalysisError e (mealId meal) (files w) of
        (Inl err, fs1) \<Rightarrow> (Some err, w\<lparr>files := fs1\<rparr>)
      | (Inr u, fs1) \<Rightarrow>
          (None, w\<lparr>files := fs1,
                    emitted := emitted w @
                      [MealUpdated (meal\<lparr>isLoading := Has False, hasError := Has True\<rparr>)]\<rparr>))"

definition isExpired :: "env \<Rightarrow> MealAnalysis \<Rightarrow> bool" where
  "isExpired e meal =
     (case timeOf e (timestamp meal) of
        Some mealTime \<Rightarrow> now e - mealTime > MEAL_TIMEOUT_MS
      | None \<Rightarrow> False)"

text \<open>The retry branch of \<^verbatim>\<open>processMeal\<close>: a meal in the error state is written back as
  loading before the collaborator is called.\<close>

definition processMeal_retry :: "env \<Rightarrow> MealAnalysis \<Rightarrow> world \<Rightarrow> error option \<times> world" where
  "processMeal_retry e meal w =
     (if truthyBool (hasError meal)
      then (let retryMeal = meal\<lparr>isLoading := Has True, hasError := Has False\<rparr>
            in case updateMealAnalysis e (mealId meal) retryMeal (files w) of
                 (Inl err, fs1) \<Rightarrow> (Some err, w\<lparr>files := fs1\<rparr>)
               | (Inr u, fs1) \<Rightarrow>
                   (None, w\<lparr>files := fs1, emitted := emitted w @ [MealUpdated retryMeal]\<rparr>))
      else (None, w))"

text \<open>The dispatch to one of the three inference modes.\<close>

definition processMeal_analyze ::
  "gemini \<Rightarrow> MealAnalysis \<Rightarrow> world \<Rightarrow> (error + analysis_object) \<times> world" where
  "processMeal_analyze g meal w =
     (if falsyStr (imageUri meal) \<or> trim (orEmpty (imageUri meal)) = []
      then (if falsyStr (comment meal) \<or> trim (orEmpty (comment meal)) = []
            then (Inl NoImageOrComment, w)
            else callGemini g (AnalyzeFoodFromText (orEmpty (comment meal))) w)
      else if truthyStr (afterImageUri meal)
      then (case readBase64 (orEmpty (imageUri meal)) (files w) of
              Inl err \<Rightarrow> (Inl err, w)
            | Inr base64Before \<Rightarrow>
                (case readBase64 (orEmpty (afterImageUri meal)) (files w) of
                   Inl err \<Rightarrow> (Inl err, w)
                 | Inr base64After \<Rightarrow>
                     callGemini g (AnalyzeFoodBeforeAfter base64Before base64After (comment meal)) w))
      else (case readBase64 (orEmpty (imageUri meal)) (files w) of
              Inl err \<Rightarrow> (Inl err, w)
            | Inr base64 \<Rightarrow> callGemini g (AnalyzeFood base64 (comment meal)) w))"

text \<open>Storing the analysis, the best-effort sync and the notification.\<close>

definition processMeal_complete ::
  "env \<Rightarrow> hcEnv \<Rightarrow> MealAnalysis \<Rightarrow> analysis_object \<Rightarrow> world \<Rightarrow> error option \<times> world" where
  "processMeal_complete e h meal a w =
     (let completedMeal = meal\<lparr>analysis := Has (Some a), isLoading := Has False,
                                hasError := Has False\<rparr>
      in case updateMealAnalysis e (mealId meal) completedMeal (files w) of
           (Inl err, fs1) \<Rightarrow> (Some err, w\<lparr>files := fs1\<rparr>)
         | (Inr u, fs1) \<Rightarrow>
             (let w1 = w\<lparr>files := fs1\<rparr>;
                  w2 = (if platformAndroid h
                        then w1\<lparr>health := snd (writeMealToHealthConnect h e completedMeal
                                                   (health w1))\<rparr>
                        else w1)
              in (None, w2\<lparr>emitted := emitted w2 @ [MealUpdated completedMeal]\<rparr>)))"

text \<open>The body of the \<^verbatim>\<open>try\<close> block: the error, if any, and the world as the block left
  it.\<close>

definition processMeal_try ::
  "env \<Rightarrow> gemini \<Rightarrow> hcEnv \<Rightarrow> MealAnalysis \<Rightarrow> world \<Rightarrow> error option \<times> world" where
  "processMeal_try e g h meal w =
     (if isExpired e meal then markErrorAndNotify e meal w
      else case processMeal_retry e meal w of
             (Some err, w1) \<Rightarrow> (Some err, w1)
           | (None, w1) \<Rightarrow>
               (case processMeal_analyze g meal w1 of
                  (Inl err, w2) \<Rightarrow> (Some err, w2)
                | (Inr a, w2) \<Rightarrow> processMeal_complete e h meal a w2))"

text \<open>\<^verbatim>\<open>processMeal\<close>: the first component is the exception that leaves the function.\<close>

definition processMeal ::
  "env \<Rightarrow> gemini \<Rightarrow> hcEnv \<Rightarrow> MealAnalysis \<Rightarrow> world \<Rightarrow> error option \<times> world" where
  "processMeal e g h meal w =
     (case processMeal_try e g h meal w of
        (None, w1) \<Rightarrow> (None, w1)
      | (Some err, w1) \<Rightarrow>
          (case markErrorAndNotify e meal w1 of
             (Some updateError, w2) \<Rightarrow> (None, w2)
           | (None, w2) \<Rightarrow> (None, w2)))"

text \<open>
  \<^verbatim>\<open>resumePending\<close>: the k-th meal is processed at time \<open>clock k\<close> against the bridge
  surroundings \<open>hs k\<close>; an exception of one iteration is caught and the loop goes on.
\<close>

fun resumeLoop ::
  "env \<Rightarrow> (nat \<Rightarrow> int) \<Rightarrow> gemini \<Rightarrow> (nat \<Rightarrow> hcEnv) \<Rightarrow> nat \<Rightarrow> MealAnalysis list \<Rightarrow> world
     \<Rightarrow> error option \<times> world" where
  "resumeLoop e clock g hs k [] w = (None, w)"
| "resumeLoop e clock g hs k (meal # rest) w =
     (case processMeal (e\<lparr>now := clock k\<rparr>) g (hs k) meal w of
        (Some err, w1) \<Rightarrow> resumeLoop e clock g hs (Suc k) rest w1
      | (None, w1) \<Rightarrow> resumeLoop e clock g hs (Suc k) rest w1)"

definition resumePending ::
  "env \<Rightarrow> (nat \<Rightarrow> int) \<Rightarrow> gemini \<Rightarrow> (nat \<Rightarrow> hcEnv) \<Rightarrow> world \<Rightarrow> error option \<times> world" where
  "resumePending e clock g hs w =
     (case getMealHistory e (files w) of
        (history, fs1) \<Rightarrow>
          (let toRetry = filter (\<lambda>m. truthyBool (isLoading m) \<or> truthyBool (hasError m)) history
           in resumeLoop e clock g hs 0 toRetry (w\<lparr>files := fs1\<rparr>)))"

section \<open>Predicates and sample data of the statements\<close>

text \<open>
  \<open>indexEntries\<close>: the entries of the index as the store reads it, \<open>None\<close> when the index
  file holds JSON that is not an index. \<open>wellFormedRef\<close>: the entry has an id, names
  the record file of that id, and its time stamp is a string or missing, as in every entry
  the store writes for a record it has validated. \<open>imagesAdded\<close>: the second file system
  differs from the first only by files under the images directory. \<open>imagesReadable\<close>: the
  images of a meal are in storage already or exist at their source.
\<close>

definition indexEntries :: "env \<Rightarrow> filesystem \<Rightarrow> mealRef list option" where
  "indexEntries e fs = (case readIndex e fs of Inr index \<Rightarrow> Some (meals index) | Inl err \<Rightarrow> None)"

definition wellFormedRef :: "mealRef \<Rightarrow> bool" where
  "wellFormedRef r =
     (case ref_id r of
        Has i \<Rightarrow> ref_filename r = Has (mealFilename (Has i)) \<and> ref_timestamp r \<noteq> Undefined
      | _ \<Rightarrow> False)"

definition imagesAdded :: "env \<Rightarrow> filesystem \<Rightarrow> filesystem \<Rightarrow> bool" where
  "imagesAdded e fs fs' =
     (\<forall>p. fs' p = fs p \<or> (fs' p \<noteq> None \<and> (\<exists>f. p = imagesDir e @ f)))"

definition imagesReadable :: "env \<Rightarrow> MealAnalysis \<Rightarrow> filesystem \<Rightarrow> bool" where
  "imagesReadable e meal fs =
     ((startsWith (orEmpty (imageUri meal)) (imagesDir e)
         \<or> fs (orEmpty (imageUri meal)) \<noteq> None) \<and>
      (truthyStr (afterImageUri meal) \<longrightarrow>
         startsWith (orEmpty (afterImageUri meal)) (imagesDir e)
         \<or> fs (orEmpty (afterImageUri meal)) \<noteq> None))"

definition testEnv :: env where
  "testEnv = \<lparr>documentDirectory = ''/doc/'',
     getTime = map_of [(''2024-05-01T12:00:00.000Z'', 1714564800000),
                       (''2024-05-02T12:00:00.000Z'', 1714651200000),
                       (''2024-05-03T12:00:00.000Z'', 1714737600000)],
     now = 1714741200000\<rparr>"

definition cameraRoll :: filesystem where
  "cameraRoll = [''/cache/photo.jpg'' \<mapsto> Bytes ''jpeg'']"

definition photoMeal :: MealAnalysis where
  "photoMeal = \<lparr>mealId = Has ''1714737600000'',
     timestamp = Has ''2024-05-03T12:00:00.000Z'',
     imageUri = Has ''/cache/photo.jpg'', afterImageUri = Absent,
     analysis = Has (Some EMPTY_ANALYSIS), comment = Absent, isLoading = Absent,
     hasError = Absent\<rparr>"

definition commentOnlyMeal :: MealAnalysis where
  "commentOnlyMeal = photoMeal\<lparr>imageUri := Has [], afterImageUri := Undefined,
     comment := Has ''lentil soup'', isLoading := Has False, hasError := Has False\<rparr>"

text \<open>\<open>holdsMeal\<close>: the path holds JSON that the store can read as a meal.\<close>

definition holdsMeal :: "filesystem \<Rightarrow> string \<Rightarrow> bool" where
  "holdsMeal fs p = (case readMeal p fs of Inr m \<Rightarrow> True | Inl err \<Rightarrow> False)"

definition pendingImagesReadable :: "env \<Rightarrow> MealAnalysis \<Rightarrow> filesystem \<Rightarrow> bool" where
  "pendingImagesReadable e pendingMeal fs =
     ((trim (orEmpty (imageUri pendingMeal)) = []
         \<or> fs (orEmpty (imageUri pendingMeal)) \<noteq> None) \<and>
      (trim (orEmpty (afterImageUri pendingMeal)) = []
         \<or> fs (orEmpty (afterImageUri pendingMeal)) \<noteq> None))"

definition emptyPendingMeal :: MealAnalysis where
  "emptyPendingMeal = \<lparr>mealId = Has ''1714737600000'',
     timestamp = Has ''2024-05-03T12:00:00.000Z'',
     imageUri = Has [], afterImageUri = Absent, analysis = Has None, comment = Absent,
     isLoading = Has True, hasError = Has False\<rparr>"

definition textPendingMeal :: MealAnalysis where
  "textPendingMeal = emptyPendingMeal\<lparr>comment := Has ''lentil soup''\<rparr>"

text \<open>
  A history of five meals aged 30 minutes, 12 hours, 3 days, 40 days and 400 days at the
  time of \<open>historyEnv\<close>; the time stamps are written as the milliseconds they stand for.
\<close>

definition historyEnv :: env where
  "historyEnv = \<lparr>documentDirectory = ''/doc/'',
     getTime = map_of [(''t-30min'', 1714739400000), (''t-12h'', 1714698000000),
                       (''t-25h'', 1714651200000), (''t-3d'', 1714482000000),
                       (''t-40d'', 1711285200000), (''t-400d'', 1680181200000)],
     now = 1714741200000\<rparr>"

definition historyMeal :: "string \<Rightarrow> MealAnalysis" where
  "historyMeal ts = \<lparr>mealId = Has ts, timestamp = Has ts, imageUri = Has [],
     afterImageUri = Absent, analysis = Has (Some EMPTY_ANALYSIS), comment = Has ''meal'',
     isLoading = Has False, hasError = Has False\<rparr>"

definition history :: filesystem where
  "history =
     [indexFile historyEnv \<mapsto> IndexJson \<lparr>meals = map (\<lambda>ts. newRef (Has ts) (Has ts))
          [''t-30min'', ''t-12h'', ''t-3d'', ''t-40d'', ''t-400d''], lastUpdated = 0\<rparr>,
      mealFile historyEnv (Has ''t-30min'') \<mapsto> MealJson (historyMeal ''t-30min''),
      mealFile historyEnv (Has ''t-12h'') \<mapsto> MealJson (historyMeal ''t-12h''),
      mealFile historyEnv (Has ''t-3d'') \<mapsto> MealJson (historyMeal ''t-3d''),
      mealFile historyEnv (Has ''t-40d'') \<mapsto> MealJson (historyMeal ''t-40d''),
      mealFile historyEnv (Has ''t-400d'') \<mapsto> MealJson (historyMeal ''t-400d'')]"

text \<open>The same history with the 12 hour old meal failed, and an edit of that meal that
  moves it 400 days back and mentions neither flag.\<close>

definition failedMeal :: MealAnalysis where
  "failedMeal = (historyMeal ''t-12h'')\<lparr>analysis := Has None, isLoading := Has False,
     hasError := Has True\<rparr>"

definition failedHistory :: filesystem where
  "failedHistory = history(mealFile historyEnv (Has ''t-12h'') \<mapsto> MealJson failedMeal)"

definition editedMeal :: MealAnalysis where
  "editedMeal = failedMeal\<lparr>timestamp := Has ''t-400d'', comment := Has ''late lunch'',
     isLoading := Absent, hasError := Absent\<rparr>"

text \<open>
  Surroundings and worlds for the pipeline: a collaborator that fails every call, a
  device without Health Connect, a pending meal 25 hours old and a pending meal 30
  minutes old, each stored in the sample history.
\<close>

definition failingGemini :: gemini where
  "failingGemini = (\<lambda>n r. Inl AnalysisFailure)"

definition noHealthConnect :: hcEnv where
  "noHealthConnect = \<lparr>platformAndroid = False, healthConnectLoaded = False,
     initializeOutcome = (\<lambda>k. None), grantedPermissions = NoSuchMethod,
     secureStoreReads = True, secureStoreWrites = True,
     insertRecords = None, writeRecords = None\<rparr>"

definition emptyHealth :: hcState where
  "emptyHealth = \<lparr>permissionFlag = None, versionMapItem = None, written = []\<rparr>"

definition staleMeal :: MealAnalysis where
  "staleMeal = (historyMeal ''t-25h'')\<lparr>analysis := Has None, isLoading := Has True,
     hasError := Has False\<rparr>"

definition staleWorld :: world where
  "staleWorld = \<lparr>files = history(mealFile historyEnv (Has ''t-25h'') \<mapsto> MealJson staleMeal),
     emitted = [], inferenceCalls = [], health = emptyHealth\<rparr>"

definition freshMeal :: MealAnalysis where
  "freshMeal = (historyMeal ''t-30min'')\<lparr>analysis := Has None, isLoading := Has True,
     hasError := Has False\<rparr>"

definition freshWorld :: world where
  "freshWorld = \<lparr>files = history(mealFile historyEnv (Has ''t-30min'') \<mapsto> MealJson freshMeal),
     emitted = [], inferenceCalls = [], health = emptyHealth\<rparr>"

text \<open>The sample history with the meal of 30 minutes ago pending and the meal of 12
  hours ago failed: the two meals that \<^verbatim>\<open>resumePending\<close> takes up.\<close>

definition pendingWorld :: world where
  "pendingWorld = \<lparr>files = history(mealFile historyEnv (Has ''t-30min'') \<mapsto> MealJson freshMeal,
                                    mealFile historyEnv (Has ''t-12h'') \<mapsto> MealJson failedMeal),
     emitted = [], inferenceCalls = [], health = emptyHealth\<rparr>"

text \<open>
  A phone on which every step of the sync works, and the same phone with a secure store
  that cannot be read. A secure store after one
  sync of the meal that is three days old, and one after five syncs of it and seven of
  another meal.
\<close>

definition healthyPhone :: hcEnv where
  "healthyPhone = \<lparr>platformAndroid = True, healthConnectLoaded = True,
     initializeOutcome = (\<lambda>k. Some True),
     grantedPermissions = GrantedList [\<lparr>recordType = ''Nutrition'', accessType = ''write''\<rparr>],
     secureStoreReads = True, secureStoreWrites = True,
     insertRecords = Some (\<lambda>r. True), writeRecords = None\<rparr>"

definition unreadablePhone :: hcEnv where
  "unreadablePhone = healthyPhone\<lparr>secureStoreReads := False\<rparr>"

definition syncedOnce :: hcState where
  "syncedOnce = \<lparr>permissionFlag = Some ''true'',
     versionMapItem = Some (VersionJson [''t-3d'' \<mapsto> Num 1]), written = []\<rparr>"

definition syncedFive :: hcState where
  "syncedFive = \<lparr>permissionFlag = Some ''true'',
     versionMapItem = Some (VersionJson [''t-3d'' \<mapsto> Num 5, ''t-40d'' \<mapsto> Num 7]),
     written = []\<rparr>"

text \<open>The world in which the failed meal of the sample history is retried.\<close>

definition failedWorld :: world where
  "failedWorld = \<lparr>files = failedHistory, emitted = [], inferenceCalls = [],
     health = emptyHealth\<rparr>"

text \<open>
  A run of \<^verbatim>\<open>saveMealAnalysis\<close> calls, each at its own time: \<open>None\<close> when one of them
  throws. \<open>isRecordPath\<close>: the path has the form of a record file of the store.
  \<open>creatable\<close>: the meal passes the validation, and its images exist and are not record
  files. \<open>survives\<close>: every file of the first file system that is not a record file
  exists in the second.
\<close>

fun createAll :: "env \<Rightarrow> (int \<times> MealAnalysis) list \<Rightarrow> filesystem \<Rightarrow> filesystem option" where
  "createAll e [] fs = Some fs"
| "createAll e (c # rest) fs =
     (case saveMealAnalysis (e\<lparr>now := fst c\<rparr>) (snd c) fs of
        (Inr u, fs1) \<Rightarrow> createAll e rest fs1
      | (Inl err, fs1) \<Rightarrow> None)"

definition isRecordPath :: "env \<Rightarrow> string \<Rightarrow> bool" where
  "isRecordPath e p = startsWith p (mealsDir e @ ''meal_'')"

definition creatable :: "env \<Rightarrow> filesystem \<Rightarrow> MealAnalysis \<Rightarrow> bool" where
  "creatable e fs meal =
     (truthyStr (mealId meal) \<and> truthyStr (timestamp meal) \<and> truthyStr (imageUri meal)
      \<and> theAnalysis (analysis meal) \<noteq> None
      \<and> fs (orEmpty (imageUri meal)) \<noteq> None \<and> \<not> isRecordPath e (orEmpty (imageUri meal))
      \<and> (truthyStr (afterImageUri meal) \<longrightarrow>
            fs (orEmpty (afterImageUri meal)) \<noteq> None
            \<and> \<not> isRecordPath e (orEmpty (afterImageUri meal))))"

definition survives :: "env \<Rightarrow> filesystem \<Rightarrow> filesystem \<Rightarrow> bool" where
  "survives e fs fs' = (\<forall>p. fs p \<noteq> None \<and> \<not> isRecordPath e p \<longrightarrow> fs' p \<noteq> None)"

definition entryOf :: "int \<times> MealAnalysis \<Rightarrow> mealRef" where
  "entryOf c = newRef (mealId (snd c)) (timestamp (snd c))"

text \<open>\<open>keptImages\<close>: the record of the meal as the first file system stores it names
  an image, and an after image if it has one, that exist in the second and are not record
  files.\<close>

definition keptImages :: "env \<Rightarrow> filesystem \<Rightarrow> filesystem \<Rightarrow> string optional \<Rightarrow> bool" where
  "keptImages e fsi fs mid =
     (\<exists>r. fst (getMealById e mid fsi) = Some r
         \<and> fs (orEmpty (imageUri r)) \<noteq> None \<and> \<not> isRecordPath e (orEmpty (imageUri r))
         \<and> (truthyStr (afterImageUri r) \<longrightarrow>
               fs (orEmpty (afterImageUri r)) \<noteq> None
               \<and> \<not> isRecordPath e (orEmpty (afterImageUri r))))"

text \<open>Fifty-one photographed meals with ids of one to fifty-one letters, the n-th saved
  at time n.\<close>

definition fiftyOneMeals :: "(int \<times> MealAnalysis) list" where
  "fiftyOneMeals =
     map (\<lambda>n. (int n, photoMeal\<lparr>mealId := Has (replicate (Suc n) CHR ''m'')\<rparr>)) [0..<51]"

section \<open>Properties of the record store\<close>

subsection \<open>Paths and the parts of the store\<close>

lemma mealFile_neq_indexFile [simp]: "mealFile e i \<noteq> indexFile e" "indexFile e \<noteq> mealFile e i"
  by (auto simp: mealFile_def indexFile_def mealsDir_def mealFilename_def)

lemma mealFile_neq_mealsDir [simp]: "mealFile e i \<noteq> mealsDir e" "mealsDir e \<noteq> mealFile e i"
  by (auto simp: mealFile_def mealsDir_def mealFilename_def)

lemma mealFile_neq_imagesDir [simp]: "mealFile e i \<noteq> imagesDir e" "imagesDir e \<noteq> mealFile e i"
  by (auto simp: mealFile_def imagesDir_def mealsDir_def mealFilename_def)

lemma mealFile_inj [simp]: "(mealFile e i = mealFile e j) = (templ i = templ j)"
  by (auto simp: mealFile_def mealFilename_def)

lemma strictEq_Has [simp]: "strictEq x (Has s) = (x = Has s)" "strictEq (Has s) x = (x = Has s)"
  by (cases x; auto)+

lemma stringified_Has [simp]: "(stringified v = Has s) = (v = Has s)"
  by (cases v) auto

lemma stringified_idem [simp]: "stringified (stringified v) = stringified v"
  by (cases v) auto

lemma stringifyMeal_idem [simp]: "stringifyMeal (stringifyMeal m) = stringifyMeal m"
  by (simp add: stringifyMeal_def)

lemma truthyStr_Has: "truthyStr v \<Longrightarrow> \<exists>s. v = Has s \<and> s \<noteq> []"
  by (cases v) auto

lemma falsyStr_truthyStr [simp]: "falsyStr v = (\<not> truthyStr v)"
  by (cases v) auto

lemma falsyAnalysis_theAnalysis [simp]: "falsyAnalysis v = (theAnalysis v = None)"
  by (cases v rule: falsyAnalysis.cases) auto

lemma dirs_distinct [simp]:
  "indexFile e \<noteq> mealsDir e" "mealsDir e \<noteq> indexFile e"
  "indexFile e \<noteq> imagesDir e" "imagesDir e \<noteq> indexFile e"
  "mealsDir e \<noteq> imagesDir e" "imagesDir e \<noteq> mealsDir e"
  by (auto simp: indexFile_def imagesDir_def mealsDir_def)

lemma image_path_neq [simp]:
  "imagesDir e @ f \<noteq> mealFile e i" "mealFile e i \<noteq> imagesDir e @ f"
  "imagesDir e @ f \<noteq> indexFile e" "indexFile e \<noteq> imagesDir e @ f"
  "imagesDir e @ f \<noteq> mealsDir e" "mealsDir e \<noteq> imagesDir e @ f"
  by (auto simp: mealFile_def imagesDir_def mealsDir_def mealFilename_def indexFile_def)

lemma mealFilename_inj [simp]: "(mealFilename i = mealFilename j) = (templ i = templ j)"
  by (auto simp: mealFilename_def)

lemma initializeStorage_mealFile [simp]:
  "initializeStorage e fs (mealFile e i) = fs (mealFile e i)"
  by (simp add: initializeStorage_def Let_def)

lemma initializeStorage_mono: "fs p \<noteq> None \<Longrightarrow> initializeStorage e fs p \<noteq> None"
  by (auto simp: initializeStorage_def Let_def)

lemma initializeStorage_index [simp]:
  "readIndex e (initializeStorage e fs) = readIndex e fs" 
  by (auto simp: initializeStorage_def Let_def readIndex_def split: option.splits fcontent.splits)

lemma copy_cases:
  obtains (missing) "fs src = None" "copyImageToStorage e src mid sfx fs = (Inl (FileUnreadable src), fs)"
  | (copied) f c where "fs src = Some c" "f \<noteq> []"
      "copyImageToStorage e src mid sfx fs = (Inr (imagesDir e @ f), fs(imagesDir e @ f \<mapsto> c))"
  by (cases "fs src") (auto simp: copyImageToStorage_def Let_def)

lemma deleteAll_apply: "deleteAll ps fs p = (if p \<in> set ps then None else fs p)"
  by (induction ps arbitrary: fs) auto

lemma stringifyRef_newRef [simp]:
  "stringifyRef (newRef (Has i) ts) = newRef (Has i) (stringified ts)"
  by (simp add: stringifyRef_def newRef_def)

lemma wellFormedRef_stringify [simp]: "wellFormedRef r \<Longrightarrow> stringifyRef r = r"
  by (cases r; cases "ref_id r"; cases "ref_timestamp r")
     (auto simp: wellFormedRef_def stringifyRef_def)

lemma wellFormedRef_newRef [simp]: "wellFormedRef (newRef (Has i) ts) = (ts \<noteq> Undefined)"
  by (simp add: wellFormedRef_def newRef_def)

lemma list_all_filter: "list_all P xs \<Longrightarrow> list_all P (filter Q xs)"
  by (induction xs) auto

lemma list_all_take: "list_all P xs \<Longrightarrow> list_all P (take n xs)"
  unfolding list_all_iff using in_set_takeD by fast

lemma map_stringifyRef_wellFormed: "list_all wellFormedRef refs \<Longrightarrow> map stringifyRef refs = refs"
  by (induction refs) auto

lemma indexEntries_init [simp]: "indexEntries e (initializeStorage e fs) = indexEntries e fs"
  by (simp add: indexEntries_def)

lemma readIndex_writeIndex [simp]:
  "readIndex e (writeIndex e idx fs) =
     Inr \<lparr>meals = map stringifyRef (meals idx), lastUpdated = now e\<rparr>"
  by (simp add: readIndex_def writeIndex_def)

lemma indexEntries_writeIndex [simp]:
  "indexEntries e (writeIndex e idx fs) = Some (map stringifyRef (meals idx))"
  by (simp add: indexEntries_def)

lemma writeIndex_other [simp]: "p \<noteq> indexFile e \<Longrightarrow> writeIndex e idx fs p = fs p"
  by (simp add: writeIndex_def)

lemma readIndex_writeMeal [simp]: "readIndex e (writeMeal (mealFile e i) m fs) = readIndex e fs"
  by (simp add: readIndex_def writeMeal_def)

lemma indexEntries_writeMeal [simp]:
  "indexEntries e (writeMeal (mealFile e i) m fs) = indexEntries e fs"
  by (simp add: indexEntries_def)

lemma readIndex_image [simp]: "readIndex e (fs(imagesDir e @ f \<mapsto> c)) = readIndex e fs"
  by (simp add: readIndex_def)

lemma readMeal_writeMeal [simp]: "readMeal p (writeMeal p m fs) = Inr (stringifyMeal m)"
  by (simp add: readMeal_def writeMeal_def)

lemma indexEntries_Some: "indexEntries e fs = Some refs \<Longrightarrow> \<exists>idx. readIndex e fs = Inr idx \<and> meals idx = refs"
  by (auto simp: indexEntries_def split: sum.splits)

lemma indexEntries_None: "indexEntries e fs = None \<Longrightarrow> readIndex e fs = Inl TypeError"
  by (auto simp: indexEntries_def readIndex_def split: sum.splits option.splits fcontent.splits)

text \<open>The entries \<^verbatim>\<open>saveMealAnalysis\<close> keeps and the files it deletes.\<close>

lemma unshiftCapped_Inr:
  assumes "indexEntries e fs = Some refs"
  shows "unshiftCapped e mid ts fs =
     Inr (writeIndex e \<lparr>meals = take 50 (newRef mid ts # filter (\<lambda>m. \<not> strictEq (ref_id m) mid) refs),
                         lastUpdated = 0\<rparr>
            (deleteAll (map (\<lambda>r. mealsDir e @ templ (ref_filename r))
                         (drop 50 (newRef mid ts # filter (\<lambda>m. \<not> strictEq (ref_id m) mid) refs))) fs))"
proof -
  from indexEntries_Some[OF assms] obtain idx where i: "readIndex e fs = Inr idx" "meals idx = refs"
    by blast
  show ?thesis
    by (simp add: unshiftCapped_def i Let_def writeIndex_def)
qed

lemma entries_unshiftCapped:
  assumes "indexEntries e fs = Some refs" and "unshiftCapped e mid ts fs = Inr fs'"
  shows "indexEntries e fs' =
     Some (map stringifyRef (take 50 (newRef mid ts # filter (\<lambda>m. \<not> strictEq (ref_id m) mid) refs)))"
  using assms(2) unfolding unshiftCapped_Inr[OF assms(1)] by auto

lemma unshiftCapped_other:
  assumes "indexEntries e fs = Some refs" and "unshiftCapped e mid ts fs = Inr fs'"
    and "p \<noteq> indexFile e"
  shows "fs' p =
     (if p \<in> (\<lambda>r. mealsDir e @ templ (ref_filename r)) `
              set (drop 50 (newRef mid ts # filter (\<lambda>m. \<not> strictEq (ref_id m) mid) refs))
      then None else fs p)"
  using assms(2,3) unfolding unshiftCapped_Inr[OF assms(1)]
  by (auto simp: deleteAll_apply)

lemma wellFormedRef_path:
  "wellFormedRef r \<Longrightarrow> mealsDir e @ templ (ref_filename r) = mealFile e (ref_id r)"
  by (cases "ref_id r") (auto simp: wellFormedRef_def mealFile_def)

lemma wellFormedRef_id: "wellFormedRef r \<Longrightarrow> \<exists>i. ref_id r = Has i"
  by (cases "ref_id r") (auto simp: wellFormedRef_def)

lemma wellFormed_dropped:
  assumes "list_all wellFormedRef refs"
    and "r \<in> set (drop 50 (newRef (Has i) ts # filter (\<lambda>m. \<not> strictEq (ref_id m) (Has i)) refs))"
  shows "ref_id r \<noteq> Has i \<and> mealsDir e @ templ (ref_filename r) = mealFile e (ref_id r)
         \<and> r \<in> set refs \<and> wellFormedRef r"
proof -
  from assms(2) have "r \<in> set (drop 49 (filter (\<lambda>m. \<not> strictEq (ref_id m) (Has i)) refs))"
    by simp
  then have "r \<in> set (filter (\<lambda>m. \<not> strictEq (ref_id m) (Has i)) refs)"
    by (rule in_set_dropD)
  then have a: "ref_id r \<noteq> Has i" and b: "r \<in> set refs" by simp_all
  from assms(1) b have w: "wellFormedRef r"
    unfolding list_all_iff by blast
  with a b show ?thesis by (simp add: wellFormedRef_path)
qed

lemma unshiftCapped_keeps_record:
  assumes "indexEntries e fs = Some refs" and "list_all wellFormedRef refs"
    and "unshiftCapped e (Has i) ts fs = Inr fs'"
  shows "fs' (mealFile e (Has i)) = fs (mealFile e (Has i))"
proof -
  have "mealFile e (Has i) \<notin> (\<lambda>r. mealsDir e @ templ (ref_filename r)) `
              set (drop 50 (newRef (Has i) ts # filter (\<lambda>m. \<not> strictEq (ref_id m) (Has i)) refs))"
  proof
    assume "mealFile e (Has i) \<in> (\<lambda>r. mealsDir e @ templ (ref_filename r)) `
              set (drop 50 (newRef (Has i) ts # filter (\<lambda>m. \<not> strictEq (ref_id m) (Has i)) refs))"
    then obtain r where r: "r \<in> set (drop 50 (newRef (Has i) ts # filter (\<lambda>m. \<not> strictEq (ref_id m) (Has i)) refs))"
      and eq: "mealFile e (Has i) = mealsDir e @ templ (ref_filename r)" by blast
    from wellFormed_dropped[OF assms(2) r, of e] have a: "ref_id r \<noteq> Has i"
      and b: "mealsDir e @ templ (ref_filename r) = mealFile e (ref_id r)"
      and c: "wellFormedRef r" by simp_all
    from wellFormedRef_id[OF c] obtain j where j: "ref_id r = Has j" by blast
    from eq b j have "i = j" by simp
    with a j show False by simp
  qed
  then show ?thesis
    by (simp only: unshiftCapped_other[OF assms(1) assms(3) mealFile_neq_indexFile(1)] if_False)
qed

lemma imagesAdded_refl [simp]: "imagesAdded e fs fs"
  by (simp add: imagesAdded_def)

lemma imagesAdded_upd [simp]: "imagesAdded e fs (fs(imagesDir e @ f \<mapsto> c))"
  by (auto simp: imagesAdded_def)

lemma imagesAdded_mono: "imagesAdded e fs fs' \<Longrightarrow> fs p \<noteq> None \<Longrightarrow> fs' p \<noteq> None"
  unfolding imagesAdded_def by metis

lemma imagesAdded_mealFile: "imagesAdded e fs fs' \<Longrightarrow> fs' (mealFile e i) = fs (mealFile e i)"
  unfolding imagesAdded_def using image_path_neq(2) by metis

lemma imagesAdded_index: "imagesAdded e fs fs' \<Longrightarrow> readIndex e fs' = readIndex e fs"
  unfolding imagesAdded_def readIndex_def using image_path_neq(4) by metis

lemma imagesAdded_entries: "imagesAdded e fs fs' \<Longrightarrow> indexEntries e fs' = indexEntries e fs"
  by (simp add: indexEntries_def imagesAdded_index)

lemma copy_imagesAdded:
  "copyImageToStorage e src mid sfx fs = (r, fs') \<Longrightarrow> imagesAdded e fs fs'"
  by (cases rule: copy_cases[of fs src e mid sfx]) auto

lemma storeImage_imagesAdded: "storeImage e meal fs = (r, fs') \<Longrightarrow> imagesAdded e fs fs'"
  by (auto simp: storeImage_def split: if_splits dest: copy_imagesAdded)

lemma storeAfterImage_imagesAdded: "storeAfterImage e meal fs = (r, fs') \<Longrightarrow> imagesAdded e fs fs'"
  by (auto simp: storeAfterImage_def split: if_splits prod.splits sum.splits dest: copy_imagesAdded)


lemma storeImage_Inr:
  assumes "storeImage e meal fs = (Inr u, fs')"
  shows "startsWith u (imagesDir e)" and "fs (orEmpty (imageUri meal)) \<noteq> None \<Longrightarrow> fs' u \<noteq> None"
proof -
  show "startsWith u (imagesDir e)"
    using assms
    by (cases rule: copy_cases[of fs "orEmpty (imageUri meal)" e "templ (mealId meal)" "[]"])
       (auto simp: storeImage_def startsWith_def split: if_splits)
  show "fs (orEmpty (imageUri meal)) \<noteq> None \<Longrightarrow> fs' u \<noteq> None"
    using assms
    by (cases rule: copy_cases[of fs "orEmpty (imageUri meal)" e "templ (mealId meal)" "[]"])
       (auto simp: storeImage_def split: if_splits)
qed

lemma storeImage_succeeds:
  assumes "startsWith (orEmpty (imageUri meal)) (imagesDir e) \<or> fs (orEmpty (imageUri meal)) \<noteq> None"
  shows "\<exists>u fs'. storeImage e meal fs = (Inr u, fs')"
  using assms
  by (cases rule: copy_cases[of fs "orEmpty (imageUri meal)" e "templ (mealId meal)" "[]"])
     (auto simp: storeImage_def)

lemma storeAfterImage_Inr:
  assumes "storeAfterImage e meal fs = (Inr v, fs')" and "v = Has w" and "w \<noteq> []"
  shows "startsWith w (imagesDir e)" and "fs (orEmpty (afterImageUri meal)) \<noteq> None \<Longrightarrow> fs' w \<noteq> None"
proof -
  show "startsWith w (imagesDir e)"
    using assms
    by (cases rule: copy_cases[of fs "orEmpty (afterImageUri meal)" e "templ (mealId meal)" "''after''"];
        cases "afterImageUri meal")
       (auto simp: storeAfterImage_def startsWith_def split: if_splits)
  show "fs (orEmpty (afterImageUri meal)) \<noteq> None \<Longrightarrow> fs' w \<noteq> None"
    using assms
    by (cases rule: copy_cases[of fs "orEmpty (afterImageUri meal)" e "templ (mealId meal)" "''after''"];
        cases "afterImageUri meal")
       (auto simp: storeAfterImage_def split: if_splits)
qed

lemma storeAfterImage_succeeds:
  assumes "truthyStr (afterImageUri meal) \<longrightarrow>
         startsWith (orEmpty (afterImageUri meal)) (imagesDir e)
         \<or> fs (orEmpty (afterImageUri meal)) \<noteq> None"
  shows "\<exists>v fs'. storeAfterImage e meal fs = (Inr v, fs')"
  using assms
  by (cases rule: copy_cases[of fs "orEmpty (afterImageUri meal)" e "templ (mealId meal)" "''after''"])
     (auto simp: storeAfterImage_def)

lemma saveMealAnalysis_saved:
  assumes valid: "truthyStr (mealId meal)" "truthyStr (timestamp meal)" "truthyStr (imageUri meal)"
      "theAnalysis (analysis meal) \<noteq> None"
    and readable: "imagesReadable e meal fs"
    and index: "indexEntries e fs = Some refs"
  obtains u v fs2 fs3 fs5 where
    "storeImage e meal (initializeStorage e fs) = (Inr u, fs2)"
    "storeAfterImage e meal fs2 = (Inr v, fs3)"
    "unshiftCapped e (mealId meal) (timestamp meal)
       (writeMeal (mealFile e (mealId meal))
          (meal\<lparr>imageUri := Has u, afterImageUri := v\<rparr>) fs3) = Inr fs5"
    "indexEntries e (writeMeal (mealFile e (mealId meal))
          (meal\<lparr>imageUri := Has u, afterImageUri := v\<rparr>) fs3) = Some refs"
    "saveMealAnalysis e meal fs = (Inr (), fs5)"
proof -
  from readable have "startsWith (orEmpty (imageUri meal)) (imagesDir e)
      \<or> initializeStorage e fs (orEmpty (imageUri meal)) \<noteq> None"
    unfolding imagesReadable_def using initializeStorage_mono by blast
  from storeImage_succeeds[of meal e "initializeStorage e fs", OF this] obtain u fs2
    where s1: "storeImage e meal (initializeStorage e fs) = (Inr u, fs2)" by blast
  have m2: "fs (orEmpty (afterImageUri meal)) \<noteq> None \<Longrightarrow> fs2 (orEmpty (afterImageUri meal)) \<noteq> None"
    using imagesAdded_mono[OF storeImage_imagesAdded[OF s1]] initializeStorage_mono by blast
  with readable have "truthyStr (afterImageUri meal) \<longrightarrow>
         startsWith (orEmpty (afterImageUri meal)) (imagesDir e)
         \<or> fs2 (orEmpty (afterImageUri meal)) \<noteq> None"
    unfolding imagesReadable_def by blast
  from storeAfterImage_succeeds[of meal e fs2, OF this] obtain v fs3
    where s2: "storeAfterImage e meal fs2 = (Inr v, fs3)" by blast
  let ?fs4 = "writeMeal (mealFile e (mealId meal)) (meal\<lparr>imageUri := Has u, afterImageUri := v\<rparr>) fs3"
  have "indexEntries e fs3 = indexEntries e (initializeStorage e fs)"
    using imagesAdded_entries[OF storeAfterImage_imagesAdded[OF s2]]
      imagesAdded_entries[OF storeImage_imagesAdded[OF s1]] by simp
  then have i4: "indexEntries e ?fs4 = Some refs" using index by simp
  from unshiftCapped_Inr[OF i4] obtain fs5
    where s5: "unshiftCapped e (mealId meal) (timestamp meal) ?fs4 = Inr fs5" by blast
  from valid s1 s2 s5 have "saveMealAnalysis e meal fs = (Inr (), fs5)"
    by (simp add: saveMealAnalysis_def Let_def)
  with s1 s2 s5 i4 show ?thesis by (rule that)
qed

lemma readMeal_init [simp]:
  "readMeal (mealFile e i) (initializeStorage e fs) = readMeal (mealFile e i) fs"
  by (simp add: readMeal_def)

lemma getMealById_readMeal:
  "fst (getMealById e i fs) = (case readMeal (mealFile e i) fs of Inr m \<Rightarrow> Some m | Inl err \<Rightarrow> None)"
  by (simp add: getMealById_def Let_def split: sum.splits)

lemma getMealById_None: "fs (mealFile e i) = None \<Longrightarrow> fst (getMealById e i fs) = None"
  by (simp add: getMealById_readMeal readMeal_def)

lemma getMealById_cong:
  "fs' (mealFile e i) = fs (mealFile e i) \<Longrightarrow> fst (getMealById e i fs') = fst (getMealById e i fs)"
  by (simp add: getMealById_readMeal readMeal_def)

lemma now_paths [simp]:
  "mealsDir (e\<lparr>now := t\<rparr>) = mealsDir e" "imagesDir (e\<lparr>now := t\<rparr>) = imagesDir e"
  "indexFile (e\<lparr>now := t\<rparr>) = indexFile e" "mealFile (e\<lparr>now := t\<rparr>) i = mealFile e i"
  by (simp_all add: mealsDir_def imagesDir_def indexFile_def mealFile_def)

lemma now_index [simp]: "indexEntries (e\<lparr>now := t\<rparr>) fs = indexEntries e fs"
  by (simp add: indexEntries_def readIndex_def split: option.splits fcontent.splits)

subsection \<open>Validation of saveMealAnalysis\<close>

text \<open>
  Claim C2. The import of a meal that has a comment and no image calls
  \<^verbatim>\<open>saveMealAnalysis\<close> with the empty string as image (\<^verbatim>\<open>importData\<close>, lines 303 to
  337 of \<^verbatim>\<open>unnamed/part_000\<close>). The meal has an id, a time stamp, an analysis and a
  comment, and \<^verbatim>\<open>saveMealAnalysis\<close> rejects it: the call throws the validation error,
  no record is stored under the id and the index stays empty.
\<close>

theorem saveMealAnalysis_rejects_comment_only:
  "truthyStr (mealId commentOnlyMeal) \<and> truthyStr (timestamp commentOnlyMeal)
   \<and> truthyStr (comment commentOnlyMeal)
   \<and> analysis commentOnlyMeal = Has (Some EMPTY_ANALYSIS)
   \<and> imageUri commentOnlyMeal = Has []
   \<and> fst (saveMealAnalysis testEnv commentOnlyMeal cameraRoll) = Inl MissingRequiredMealData
   \<and> fst (getMealById testEnv (mealId commentOnlyMeal)
            (snd (saveMealAnalysis testEnv commentOnlyMeal cameraRoll))) = None
   \<and> indexEntries testEnv (snd (saveMealAnalysis testEnv commentOnlyMeal cameraRoll)) = Some []"
proof -
  have s: "saveMealAnalysis testEnv commentOnlyMeal cameraRoll
             = (Inl MissingRequiredMealData, initializeStorage testEnv cameraRoll)"
    by (simp add: saveMealAnalysis_def Let_def commentOnlyMeal_def photoMeal_def)
  have g: "fst (getMealById testEnv (mealId commentOnlyMeal)
                  (initializeStorage testEnv cameraRoll)) = None"
    by (rule getMealById_None)
       (simp add: initializeStorage_def Let_def cameraRoll_def mealFile_def mealsDir_def
          mealFilename_def imagesDir_def indexFile_def testEnv_def commentOnlyMeal_def
          photoMeal_def)
  have i: "indexEntries testEnv (initializeStorage testEnv cameraRoll) = Some []"
    unfolding indexEntries_init
    by (simp add: indexEntries_def readIndex_def cameraRoll_def indexFile_def testEnv_def)
  show ?thesis
    unfolding s fst_conv snd_conv
    using g i by (simp add: commentOnlyMeal_def photoMeal_def)
qed

subsection \<open>savePendingMeal\<close>

lemma storePendingImage_err:
  "storePendingImage e meal fs = (Inl err, fs') \<Longrightarrow> err = FileUnreadable (orEmpty (imageUri meal))"
  by (cases rule: copy_cases[of fs "orEmpty (imageUri meal)" e "templ (mealId meal)" "[]"])
     (auto simp: storePendingImage_def split: if_splits)

lemma storePendingAfterImage_err:
  "storePendingAfterImage e meal fs = (Inl err, fs')
     \<Longrightarrow> err = FileUnreadable (orEmpty (afterImageUri meal))"
  by (cases rule: copy_cases[of fs "orEmpty (afterImageUri meal)" e "templ (mealId meal)" "''after''"])
     (auto simp: storePendingAfterImage_def split: if_splits)

lemma storePendingImage_imagesAdded:
  "storePendingImage e meal fs = (r, fs') \<Longrightarrow> imagesAdded e fs fs'"
  by (auto simp: storePendingImage_def split: if_splits dest: copy_imagesAdded)

lemma storePendingAfterImage_imagesAdded:
  "storePendingAfterImage e meal fs = (r, fs') \<Longrightarrow> imagesAdded e fs fs'"
  by (auto simp: storePendingAfterImage_def split: if_splits prod.splits sum.splits
           dest: copy_imagesAdded)

lemma storePendingImage_succeeds:
  assumes "trim (orEmpty (imageUri meal)) = [] \<or> fs (orEmpty (imageUri meal)) \<noteq> None"
  shows "\<exists>u fs'. storePendingImage e meal fs = (Inr u, fs')"
  using assms
  by (cases rule: copy_cases[of fs "orEmpty (imageUri meal)" e "templ (mealId meal)" "[]"])
     (auto simp: storePendingImage_def)

lemma storePendingAfterImage_succeeds:
  assumes "trim (orEmpty (afterImageUri meal)) = [] \<or> fs (orEmpty (afterImageUri meal)) \<noteq> None"
  shows "\<exists>v fs'. storePendingAfterImage e meal fs = (Inr v, fs')"
  using assms
  by (cases rule: copy_cases[of fs "orEmpty (afterImageUri meal)" e "templ (mealId meal)" "''after''"])
     (auto simp: storePendingAfterImage_def)

lemma unshift_err: "unshift e mid ts fs = Inl err \<Longrightarrow> err = TypeError"
  by (auto simp: unshift_def readIndex_def Let_def
           split: sum.splits option.splits fcontent.splits)

lemma savePendingMeal_validation:
  "(fst (savePendingMeal e meal fs) = Inl MissingRequiredPendingMealData) =
     (falsyStr (mealId meal) \<or> falsyStr (timestamp meal))"
proof (cases "falsyStr (mealId meal) \<or> falsyStr (timestamp meal)")
  case True
  then show ?thesis by (simp add: savePendingMeal_def Let_def)
next
  case False
  obtain r1 fs2 where s1: "storePendingImage e meal (initializeStorage e fs) = (r1, fs2)"
    by (cases "storePendingImage e meal (initializeStorage e fs)") auto
  show ?thesis
  proof (cases r1)
    case (Inl err)
    with s1 False show ?thesis
      by (auto simp: savePendingMeal_def Let_def dest: storePendingImage_err)
  next
    case (Inr u)
    obtain r2 fs3 where s2: "storePendingAfterImage e meal fs2 = (r2, fs3)"
      by (cases "storePendingAfterImage e meal fs2") auto
    show ?thesis
    proof (cases r2)
      case (Inl err)
      with s1 s2 Inr False show ?thesis
        by (auto simp: savePendingMeal_def Let_def dest: storePendingAfterImage_err)
    next
      case (Inr v)
      with s1 s2 \<open>r1 = Inr u\<close> False show ?thesis
        by (auto simp: savePendingMeal_def Let_def split: sum.splits dest: unshift_err)
    qed
  qed
qed

lemma unshift_Inr:
  assumes "indexEntries e fs = Some refs"
  shows "unshift e mid ts fs =
     Inr (writeIndex e \<lparr>meals = newRef mid ts # filter (\<lambda>m. \<not> strictEq (ref_id m) mid) refs,
                         lastUpdated = 0\<rparr> fs)"
proof -
  from indexEntries_Some[OF assms] obtain idx where i: "readIndex e fs = Inr idx" "meals idx = refs"
    by blast
  show ?thesis
    by (simp add: unshift_def i Let_def writeIndex_def)
qed

lemma savePendingMeal_saved:
  assumes valid: "truthyStr (mealId meal)" "truthyStr (timestamp meal)"
    and readable: "pendingImagesReadable e meal fs"
    and index: "indexEntries e fs = Some refs"
  obtains u v fs2 fs3 where
    "storePendingImage e meal (initializeStorage e fs) = (Inr u, fs2)"
    "storePendingAfterImage e meal fs2 = (Inr v, fs3)"
    "savePendingMeal e meal fs =
       (Inr (), writeIndex e \<lparr>meals = newRef (mealId meal) (timestamp meal)
                                  # filter (\<lambda>m. \<not> strictEq (ref_id m) (mealId meal)) refs,
                               lastUpdated = 0\<rparr>
                  (writeMeal (mealFile e (mealId meal))
                     \<lparr>mealId = mealId meal, timestamp = timestamp meal, imageUri = Has u,
                      afterImageUri = v, analysis = Has None,
                      comment = Has (orEmpty (comment meal)),
                      isLoading = Has True, hasError = Has False\<rparr> fs3))"
proof -
  from readable have "trim (orEmpty (imageUri meal)) = []
      \<or> initializeStorage e fs (orEmpty (imageUri meal)) \<noteq> None"
    unfolding pendingImagesReadable_def using initializeStorage_mono by blast
  from storePendingImage_succeeds[of meal "initializeStorage e fs" e, OF this] obtain u fs2
    where s1: "storePendingImage e meal (initializeStorage e fs) = (Inr u, fs2)" by blast
  have m2: "fs (orEmpty (afterImageUri meal)) \<noteq> None \<Longrightarrow> fs2 (orEmpty (afterImageUri meal)) \<noteq> None"
    using imagesAdded_mono[OF storePendingImage_imagesAdded[OF s1]] initializeStorage_mono by blast
  with readable have "trim (orEmpty (afterImageUri meal)) = []
         \<or> fs2 (orEmpty (afterImageUri meal)) \<noteq> None"
    unfolding pendingImagesReadable_def by blast
  from storePendingAfterImage_succeeds[of meal fs2 e, OF this] obtain v fs3
    where s2: "storePendingAfterImage e meal fs2 = (Inr v, fs3)" by blast
  let ?m = "\<lparr>mealId = mealId meal, timestamp = timestamp meal, imageUri = Has u,
                      afterImageUri = v, analysis = Has None,
                      comment = Has (orEmpty (comment meal)),
                      isLoading = Has True, hasError = Has False\<rparr>"
  have "indexEntries e fs3 = indexEntries e (initializeStorage e fs)"
    using imagesAdded_entries[OF storePendingAfterImage_imagesAdded[OF s2]]
      imagesAdded_entries[OF storePendingImage_imagesAdded[OF s1]] by simp
  then have i4: "indexEntries e (writeMeal (mealFile e (mealId meal)) ?m fs3) = Some refs"
    using index by simp
  from valid s1 s2 have "savePendingMeal e meal fs =
       (Inr (), writeIndex e \<lparr>meals = newRef (mealId meal) (timestamp meal)
                                  # filter (\<lambda>m. \<not> strictEq (ref_id m) (mealId meal)) refs,
                               lastUpdated = 0\<rparr>
                  (writeMeal (mealFile e (mealId meal)) ?m fs3))"
    by (simp add: savePendingMeal_def Let_def unshift_Inr[OF i4])
  with s1 s2 show ?thesis by (rule that)
qed

lemma savePendingMeal_stored:
  assumes valid: "truthyStr (mealId meal)" "truthyStr (timestamp meal)"
    and readable: "pendingImagesReadable e meal fs"
    and index: "indexEntries e fs = Some refs"
  shows "fst (savePendingMeal e meal fs) = Inr ()"
    and "indexEntries e (snd (savePendingMeal e meal fs)) =
           Some (newRef (mealId meal) (timestamp meal)
                 # map stringifyRef (filter (\<lambda>m. \<not> strictEq (ref_id m) (mealId meal)) refs))"
    and "\<exists>r. fst (getMealById e (mealId meal) (snd (savePendingMeal e meal fs))) = Some r
            \<and> mealId r = mealId meal \<and> timestamp r = timestamp meal
            \<and> isLoading r = Has True \<and> hasError r = Has False \<and> analysis r = Has None
            \<and> comment r = Has (orEmpty (comment meal))"
proof -
  from truthyStr_Has[OF valid(1)] obtain i where i: "mealId meal = Has i" by blast
  from truthyStr_Has[OF valid(2)] obtain ts where ts: "timestamp meal = Has ts" by blast
  obtain u v fs2 fs3 where
    s1: "storePendingImage e meal (initializeStorage e fs) = (Inr u, fs2)" and
    s2: "storePendingAfterImage e meal fs2 = (Inr v, fs3)" and
    eq: "savePendingMeal e meal fs =
       (Inr (), writeIndex e \<lparr>meals = newRef (mealId meal) (timestamp meal)
                                  # filter (\<lambda>m. \<not> strictEq (ref_id m) (mealId meal)) refs,
                               lastUpdated = 0\<rparr>
                  (writeMeal (mealFile e (mealId meal))
                     \<lparr>mealId = mealId meal, timestamp = timestamp meal, imageUri = Has u,
                      afterImageUri = v, analysis = Has None,
                      comment = Has (orEmpty (comment meal)),
                      isLoading = Has True, hasError = Has False\<rparr> fs3))"
    by (rule savePendingMeal_saved[OF valid readable index])
  show "fst (savePendingMeal e meal fs) = Inr ()" by (simp add: eq)
  show "indexEntries e (snd (savePendingMeal e meal fs)) =
           Some (newRef (mealId meal) (timestamp meal)
                 # map stringifyRef (filter (\<lambda>m. \<not> strictEq (ref_id m) (mealId meal)) refs))"
    by (simp add: eq i ts)
  have "readMeal (mealFile e (mealId meal))
          (initializeStorage e (snd (savePendingMeal e meal fs))) =
        Inr (stringifyMeal \<lparr>mealId = mealId meal, timestamp = timestamp meal, imageUri = Has u,
                      afterImageUri = v, analysis = Has None,
                      comment = Has (orEmpty (comment meal)),
                      isLoading = Has True, hasError = Has False\<rparr>)"
    by (simp add: eq readMeal_def writeMeal_def)
  then have "fst (getMealById e (mealId meal) (snd (savePendingMeal e meal fs))) =
        Some (stringifyMeal \<lparr>mealId = mealId meal, timestamp = timestamp meal, imageUri = Has u,
                      afterImageUri = v, analysis = Has None,
                      comment = Has (orEmpty (comment meal)),
                      isLoading = Has True, hasError = Has False\<rparr>)"
    by (simp add: getMealById_def Let_def)
  then show "\<exists>r. fst (getMealById e (mealId meal) (snd (savePendingMeal e meal fs))) = Some r
            \<and> mealId r = mealId meal \<and> timestamp r = timestamp meal
            \<and> isLoading r = Has True \<and> hasError r = Has False \<and> analysis r = Has None
            \<and> comment r = Has (orEmpty (comment meal))"
    by (simp add: stringifyMeal_def i ts)
qed

text \<open>
  Claim C5, as amended. \<^verbatim>\<open>savePendingMeal\<close> validates the id and the time stamp only: it
  raises its validation error exactly when one of the two is missing. It tolerates a
  missing or blank image and a missing comment. A meal it accepts, the images it names
  being readable and the index file being absent, unreadable or an index, is stored with
  \<open>isLoading = true\<close>, \<open>hasError = false\<close> and \<open>analysis = null\<close>, and its entry is put in
  front of all the entries of the other ids, none of which is removed.
\<close>

theorem savePendingMeal_validates_id_and_timestamp:
  "((fst (savePendingMeal e meal fs) = Inl MissingRequiredPendingMealData) =
      (falsyStr (mealId meal) \<or> falsyStr (timestamp meal)))
   \<and> (truthyStr (mealId meal) \<and> truthyStr (timestamp meal) \<and> pendingImagesReadable e meal fs
        \<and> indexEntries e fs = Some refs \<longrightarrow>
       fst (savePendingMeal e meal fs) = Inr ()
       \<and> indexEntries e (snd (savePendingMeal e meal fs)) =
           Some (newRef (mealId meal) (timestamp meal)
                 # map stringifyRef (filter (\<lambda>m. \<not> strictEq (ref_id m) (mealId meal)) refs))
       \<and> (\<exists>r. fst (getMealById e (mealId meal) (snd (savePendingMeal e meal fs))) = Some r
            \<and> mealId r = mealId meal \<and> timestamp r = timestamp meal
            \<and> isLoading r = Has True \<and> hasError r = Has False \<and> analysis r = Has None
            \<and> comment r = Has (orEmpty (comment meal))))"
proof (intro conjI impI)
  show "(fst (savePendingMeal e meal fs) = Inl MissingRequiredPendingMealData) =
      (falsyStr (mealId meal) \<or> falsyStr (timestamp meal))"
    by (rule savePendingMeal_validation)
next
  assume a: "truthyStr (mealId meal) \<and> truthyStr (timestamp meal) \<and> pendingImagesReadable e meal fs
        \<and> indexEntries e fs = Some refs"
  then have v: "truthyStr (mealId meal)" "truthyStr (timestamp meal)"
    and r: "pendingImagesReadable e meal fs" and i: "indexEntries e fs = Some refs" by simp_all
  show "fst (savePendingMeal e meal fs) = Inr ()"
    by (rule savePendingMeal_stored(1)[OF v r i])
  show "indexEntries e (snd (savePendingMeal e meal fs)) =
           Some (newRef (mealId meal) (timestamp meal)
                 # map stringifyRef (filter (\<lambda>m. \<not> strictEq (ref_id m) (mealId meal)) refs))"
    by (rule savePendingMeal_stored(2)[OF v r i])
  show "\<exists>r. fst (getMealById e (mealId meal) (snd (savePendingMeal e meal fs))) = Some r
            \<and> mealId r = mealId meal \<and> timestamp r = timestamp meal
            \<and> isLoading r = Has True \<and> hasError r = Has False \<and> analysis r = Has None
            \<and> comment r = Has (orEmpty (comment meal))"
    by (rule savePendingMeal_stored(3)[OF v r i])
qed

text \<open>The theorem at a text-only pending meal saved into an empty store.\<close>

theorem savePendingMeal_validates_id_and_timestamp_witness:
  "fst (savePendingMeal testEnv textPendingMeal Map.empty) = Inr ()
   \<and> indexEntries testEnv (snd (savePendingMeal testEnv textPendingMeal Map.empty)) =
       Some [newRef (mealId textPendingMeal) (timestamp textPendingMeal)]
   \<and> (\<exists>r. fst (getMealById testEnv (mealId textPendingMeal)
                 (snd (savePendingMeal testEnv textPendingMeal Map.empty))) = Some r
          \<and> isLoading r = Has True \<and> analysis r = Has None)"
proof -
  have a: "truthyStr (mealId textPendingMeal) \<and> truthyStr (timestamp textPendingMeal)"
    by (simp add: textPendingMeal_def emptyPendingMeal_def)
  have b: "pendingImagesReadable testEnv textPendingMeal Map.empty"
    by (simp add: pendingImagesReadable_def textPendingMeal_def emptyPendingMeal_def trim_def)
  have c: "indexEntries testEnv Map.empty = Some []"
    by (simp add: indexEntries_def readIndex_def)
  from savePendingMeal_validates_id_and_timestamp[of testEnv textPendingMeal Map.empty "[]"] a b c
  show ?thesis by auto
qed

text \<open>
  Claim C5 as the specification words it fails: a pending meal with neither image nor
  comment is accepted and stored.
\<close>

theorem savePendingMeal_accepts_no_image_no_comment:
  "fst (savePendingMeal testEnv emptyPendingMeal Map.empty) = Inr ()
   \<and> imageUri emptyPendingMeal = Has [] \<and> comment emptyPendingMeal = Absent
   \<and> afterImageUri emptyPendingMeal = Absent"
proof -
  have a: "truthyStr (mealId emptyPendingMeal)" "truthyStr (timestamp emptyPendingMeal)"
    by (simp_all add: emptyPendingMeal_def)
  have b: "pendingImagesReadable testEnv emptyPendingMeal Map.empty"
    by (simp add: pendingImagesReadable_def emptyPendingMeal_def trim_def)
  have c: "indexEntries testEnv Map.empty = Some []"
    by (simp add: indexEntries_def readIndex_def)
  from savePendingMeal_stored(1)[OF a b c] show ?thesis
    by (simp add: emptyPendingMeal_def)
qed

subsection \<open>clearHistoryByTimeRange\<close>

lemma cutoffTime_cases:
  assumes "(timeRange, ms) \<in> set [(''hour'', 60 * 60 * 1000), (''day'', 24 * 60 * 60 * 1000),
             (''month'', 30 * 24 * 60 * 60 * 1000), (''year'', 365 * 24 * 60 * 60 * 1000)]"
  shows "cutoffTime e timeRange = Some (now e - ms)" and "timeRange \<noteq> ''all''"
  using assms by (auto simp: cutoffTime_def)

lemma clearHistoryByTimeRange_eq:
  assumes "cutoffTime e timeRange = Some cutoff" and "timeRange \<noteq> ''all''"
    and "indexEntries e fs = Some refs" and "list_all wellFormedRef refs"
  shows "clearHistoryByTimeRange e timeRange fs =
     (Inr (), writeIndex e \<lparr>meals = filter (\<lambda>r. \<not> atOrAfter e cutoff r) refs,
                              lastUpdated = now e\<rparr>
                (deleteAll (map (\<lambda>r. mealsDir e @ templ (ref_filename r))
                              (filter (atOrAfter e cutoff) refs))
                   (initializeStorage e fs)))"
    and "indexEntries e (snd (clearHistoryByTimeRange e timeRange fs)) =
           Some (filter (\<lambda>r. \<not> atOrAfter e cutoff r) refs)"
proof -
  from indexEntries_Some[OF assms(3)] obtain idx
    where i: "readIndex e fs = Inr idx" "meals idx = refs" by blast
  show eq: "clearHistoryByTimeRange e timeRange fs =
     (Inr (), writeIndex e \<lparr>meals = filter (\<lambda>r. \<not> atOrAfter e cutoff r) refs,
                              lastUpdated = now e\<rparr>
                (deleteAll (map (\<lambda>r. mealsDir e @ templ (ref_filename r))
                              (filter (atOrAfter e cutoff) refs))
                   (initializeStorage e fs)))"
    using assms(1,2) by (simp add: clearHistoryByTimeRange_def Let_def i)
  show "indexEntries e (snd (clearHistoryByTimeRange e timeRange fs)) =
           Some (filter (\<lambda>r. \<not> atOrAfter e cutoff r) refs)"
    unfolding eq snd_conv
    by (simp add: map_stringifyRef_wellFormed[OF list_all_filter[OF assms(4)]])
qed

lemma atOrAfter_iff:
  "atOrAfter e cutoff r = (\<exists>t. timeOf e (ref_timestamp r) = Some t \<and> cutoff \<le> t)"
  by (simp add: atOrAfter_def split: option.splits)

lemma clearHistory_eq:
  assumes "indexEntries e fs = Some refs"
  shows "clearHistoryByTimeRange e ''all'' fs =
     (Inr (), writeIndex e \<lparr>meals = [], lastUpdated = now e\<rparr>
                (deleteAll (map (\<lambda>r. mealsDir e @ templ (ref_filename r)) refs)
                   (initializeStorage e fs)))"
proof -
  from indexEntries_Some[OF assms] obtain idx
    where i: "readIndex e fs = Inr idx" "meals idx = refs" by blast
  have "initializeStorage e (initializeStorage e fs) = initializeStorage e fs"
    by (auto simp: initializeStorage_def Let_def)
  then show ?thesis
    by (simp add: clearHistoryByTimeRange_def clearHistory_def Let_def i)
qed


lemma deleted_record_unreadable:
  assumes wf: "list_all wellFormedRef refs" and r: "r \<in> set refs" and p: "P r"
  shows "fst (getMealById e (ref_id r)
           (writeIndex e idx (deleteAll (map (\<lambda>r. mealsDir e @ templ (ref_filename r))
                                (filter P refs)) (initializeStorage e fs)))) = None"
proof -
  from wf r have "wellFormedRef r" unfolding list_all_iff by blast
  from wellFormedRef_path[OF this, of e]
  have "mealFile e (ref_id r) \<in> set (map (\<lambda>r. mealsDir e @ templ (ref_filename r))
                                (filter P refs))"
    using r p by force
  then show ?thesis
    by (intro getMealById_None) (simp add: deleteAll_apply)
qed

lemma other_record_untouched:
  assumes wf: "list_all wellFormedRef refs"
    and i: "\<forall>r\<in>set refs. ref_id r = Has i \<longrightarrow> \<not> P r"
  shows "fst (getMealById e (Has i)
           (writeIndex e idx (deleteAll (map (\<lambda>r. mealsDir e @ templ (ref_filename r))
                                (filter P refs)) (initializeStorage e fs))))
         = fst (getMealById e (Has i) fs)"
proof -
  have "mealFile e (Has i) \<notin> set (map (\<lambda>r. mealsDir e @ templ (ref_filename r))
                                (filter P refs))"
  proof
    assume "mealFile e (Has i) \<in> set (map (\<lambda>r. mealsDir e @ templ (ref_filename r))
                                (filter P refs))"
    then obtain r where r: "r \<in> set refs" and pr: "P r"
      and eq: "mealFile e (Has i) = mealsDir e @ templ (ref_filename r)" by auto
    from wf r have w: "wellFormedRef r" unfolding list_all_iff by blast
    from wellFormedRef_id[OF w] obtain j where j: "ref_id r = Has j" by blast
    from eq wellFormedRef_path[OF w, of e] j have "ref_id r = Has i" by simp
    with i r pr show False by blast
  qed
  then show ?thesis
    by (intro getMealById_cong) (simp add: deleteAll_apply)
qed

text \<open>
  Claim C6. For the ranges hour, day, month (30 days) and year (365 days) the cut-off is
  the current time less the range. On a store whose index can be read and has well
  formed entries, \<^verbatim>\<open>clearHistoryByTimeRange\<close> succeeds; the index it leaves is the old one
  without the entries whose time stamp is at or after the cut-off, in the old order; the
  record of each such entry can no longer be read; every entry strictly older than the
  cut-off stays in the index; and the record of an id none of whose entries is at or
  after the cut-off reads as before. For the range all the index is left empty and no
  indexed record can be read.
\<close>

theorem clearHistoryByTimeRange_deletes_recent:
  assumes idx: "indexEntries e fs = Some refs" and wf: "list_all wellFormedRef refs"
    and range: "(timeRange, ms) \<in> set [(''hour'', 60 * 60 * 1000), (''day'', 24 * 60 * 60 * 1000),
             (''month'', 30 * 24 * 60 * 60 * 1000), (''year'', 365 * 24 * 60 * 60 * 1000)]"
  shows "fst (clearHistoryByTimeRange e timeRange fs) = Inr ()
    \<and> indexEntries e (snd (clearHistoryByTimeRange e timeRange fs)) =
        Some (filter (\<lambda>r. \<not> (\<exists>t. timeOf e (ref_timestamp r) = Some t \<and> now e - ms \<le> t)) refs)
    \<and> (\<forall>r\<in>set refs.
          (\<exists>t. timeOf e (ref_timestamp r) = Some t \<and> now e - ms \<le> t) \<longrightarrow>
          fst (getMealById e (ref_id r) (snd (clearHistoryByTimeRange e timeRange fs))) = None)
    \<and> (\<forall>r\<in>set refs. \<forall>t.
          timeOf e (ref_timestamp r) = Some t \<and> t < now e - ms \<longrightarrow>
          (\<exists>kept. indexEntries e (snd (clearHistoryByTimeRange e timeRange fs)) = Some kept
                 \<and> r \<in> set kept))
    \<and> (\<forall>i. (\<forall>r\<in>set refs. ref_id r = Has i \<longrightarrow>
                \<not> (\<exists>t. timeOf e (ref_timestamp r) = Some t \<and> now e - ms \<le> t)) \<longrightarrow>
          fst (getMealById e (Has i) (snd (clearHistoryByTimeRange e timeRange fs)))
            = fst (getMealById e (Has i) fs))
    \<and> fst (clearHistoryByTimeRange e ''all'' fs) = Inr ()
    \<and> indexEntries e (snd (clearHistoryByTimeRange e ''all'' fs)) = Some []
    \<and> (\<forall>r\<in>set refs.
          fst (getMealById e (ref_id r) (snd (clearHistoryByTimeRange e ''all'' fs))) = None)"
proof -
  note eq = clearHistoryByTimeRange_eq(1)[where e = e and fs = fs,
      OF cutoffTime_cases(1)[OF range, of e] cutoffTime_cases(2)[OF range] idx wf]
  note ent = clearHistoryByTimeRange_eq(2)[where e = e and fs = fs,
      OF cutoffTime_cases(1)[OF range, of e] cutoffTime_cases(2)[OF range] idx wf]
  have 1: "fst (clearHistoryByTimeRange e timeRange fs) = Inr ()" by (simp add: eq)
  have 2: "indexEntries e (snd (clearHistoryByTimeRange e timeRange fs)) =
        Some (filter (\<lambda>r. \<not> (\<exists>t. timeOf e (ref_timestamp r) = Some t \<and> now e - ms \<le> t)) refs)"
    unfolding ent by (simp add: atOrAfter_iff)
  have 3: "\<forall>r\<in>set refs.
          (\<exists>t. timeOf e (ref_timestamp r) = Some t \<and> now e - ms \<le> t) \<longrightarrow>
          fst (getMealById e (ref_id r) (snd (clearHistoryByTimeRange e timeRange fs))) = None"
    unfolding eq snd_conv atOrAfter_iff[symmetric]
    using deleted_record_unreadable[OF wf] by blast
  have 4: "\<forall>r\<in>set refs. \<forall>t.
          timeOf e (ref_timestamp r) = Some t \<and> t < now e - ms \<longrightarrow>
          (\<exists>kept. indexEntries e (snd (clearHistoryByTimeRange e timeRange fs)) = Some kept
                 \<and> r \<in> set kept)"
    unfolding 2 by auto
  have 5: "\<forall>i. (\<forall>r\<in>set refs. ref_id r = Has i \<longrightarrow>
                \<not> (\<exists>t. timeOf e (ref_timestamp r) = Some t \<and> now e - ms \<le> t)) \<longrightarrow>
          fst (getMealById e (Has i) (snd (clearHistoryByTimeRange e timeRange fs)))
            = fst (getMealById e (Has i) fs)"
    unfolding eq snd_conv atOrAfter_iff[symmetric]
    using other_record_untouched[OF wf] by blast
  have 6: "fst (clearHistoryByTimeRange e ''all'' fs) = Inr ()"
    by (simp add: clearHistory_eq[OF idx])
  have 7: "indexEntries e (snd (clearHistoryByTimeRange e ''all'' fs)) = Some []"
    by (simp add: clearHistory_eq[OF idx])
  have 8: "\<forall>r\<in>set refs.
          fst (getMealById e (ref_id r) (snd (clearHistoryByTimeRange e ''all'' fs))) = None"
    unfolding clearHistory_eq[OF idx] snd_conv
    using deleted_record_unreadable[OF wf, of _ "\<lambda>r. True"] by simp
  from 1 2 3 4 5 6 7 8 show ?thesis by (intro conjI)
qed


lemma history_index:
  "indexEntries historyEnv history =
     Some (map (\<lambda>ts. newRef (Has ts) (Has ts)) [''t-30min'', ''t-12h'', ''t-3d'', ''t-40d'', ''t-400d''])"
  by (simp add: indexEntries_def readIndex_def history_def)

text \<open>The theorem at the history of five meals aged 30 minutes, 12 hours, 3 days, 40
  days and 400 days, cleared for the last day and cleared entirely.\<close>

theorem clearHistoryByTimeRange_deletes_recent_witness:
  "indexEntries historyEnv (snd (clearHistoryByTimeRange historyEnv ''day'' history))
     = Some (map (\<lambda>ts. newRef (Has ts) (Has ts)) [''t-3d'', ''t-40d'', ''t-400d''])
   \<and> fst (getMealById historyEnv (Has ''t-30min'') (snd (clearHistoryByTimeRange historyEnv ''day'' history))) = None
   \<and> fst (getMealById historyEnv (Has ''t-12h'') (snd (clearHistoryByTimeRange historyEnv ''day'' history))) = None
   \<and> fst (getMealById historyEnv (Has ''t-3d'') (snd (clearHistoryByTimeRange historyEnv ''day'' history)))
       = Some (historyMeal ''t-3d'')
   \<and> indexEntries historyEnv (snd (clearHistoryByTimeRange historyEnv ''all'' history)) = Some []"
proof -
  let ?refs = "map (\<lambda>ts. newRef (Has ts) (Has ts)) [''t-30min'', ''t-12h'', ''t-3d'', ''t-40d'', ''t-400d'']"
  have wf: "list_all wellFormedRef ?refs"
    by simp
  have rg: "(''day'', 24 * 60 * 60 * 1000) \<in> set [(''hour'', 60 * 60 * 1000), (''day'', 24 * 60 * 60 * 1000),
             (''month'', 30 * 24 * 60 * 60 * 1000), (''year'', 365 * 24 * 60 * 60 * 1000 :: int)]"
    by simp
  note th = clearHistoryByTimeRange_deletes_recent[OF history_index wf rg]
  have tm: "getTime historyEnv ''t-30min'' = Some 1714739400000"
    "getTime historyEnv ''t-12h'' = Some 1714698000000"
    "getTime historyEnv ''t-3d'' = Some 1714482000000"
    "getTime historyEnv ''t-40d'' = Some 1711285200000"
    "getTime historyEnv ''t-400d'' = Some 1680181200000"
    "now historyEnv = 1714741200000"
    by (simp_all add: historyEnv_def)
  from th have "indexEntries historyEnv (snd (clearHistoryByTimeRange historyEnv ''day'' history)) =
        Some (filter (\<lambda>r. \<not> (\<exists>t. timeOf historyEnv (ref_timestamp r) = Some t
                          \<and> now historyEnv - 24 * 60 * 60 * 1000 \<le> t)) ?refs)"
    by (rule conjunct1[OF conjunct2])
  then have a: "indexEntries historyEnv (snd (clearHistoryByTimeRange historyEnv ''day'' history))
     = Some (map (\<lambda>ts. newRef (Has ts) (Has ts)) [''t-3d'', ''t-40d'', ''t-400d''])"
    by (simp add: newRef_def tm)
  from th have del: "\<forall>r\<in>set ?refs.
          (\<exists>t. timeOf historyEnv (ref_timestamp r) = Some t \<and> now historyEnv - 24 * 60 * 60 * 1000 \<le> t) \<longrightarrow>
          fst (getMealById historyEnv (ref_id r) (snd (clearHistoryByTimeRange historyEnv ''day'' history))) = None"
    by (rule conjunct1[OF conjunct2[OF conjunct2]])
  have b: "fst (getMealById historyEnv (Has ''t-30min'') (snd (clearHistoryByTimeRange historyEnv ''day'' history))) = None"
    using del[rule_format, of "newRef (Has ''t-30min'') (Has ''t-30min'')"]
    by (simp add: newRef_def tm)
  have c: "fst (getMealById historyEnv (Has ''t-12h'') (snd (clearHistoryByTimeRange historyEnv ''day'' history))) = None"
    using del[rule_format, of "newRef (Has ''t-12h'') (Has ''t-12h'')"]
    by (simp add: newRef_def tm)
  from th have keep: "\<forall>i. (\<forall>r\<in>set ?refs. ref_id r = Has i \<longrightarrow>
                \<not> (\<exists>t. timeOf historyEnv (ref_timestamp r) = Some t \<and> now historyEnv - 24 * 60 * 60 * 1000 \<le> t)) \<longrightarrow>
          fst (getMealById historyEnv (Has i) (snd (clearHistoryByTimeRange historyEnv ''day'' history)))
            = fst (getMealById historyEnv (Has i) history)"
    by (rule conjunct1[OF conjunct2[OF conjunct2[OF conjunct2[OF conjunct2]]]])
  have old: "fst (getMealById historyEnv (Has ''t-3d'') history) = Some (historyMeal ''t-3d'')"
    by (simp add: getMealById_readMeal readMeal_def history_def)
  have "\<forall>r\<in>set ?refs. ref_id r = Has ''t-3d'' \<longrightarrow>
                \<not> (\<exists>t. timeOf historyEnv (ref_timestamp r) = Some t \<and> now historyEnv - 24 * 60 * 60 * 1000 \<le> t)"
    by (simp add: newRef_def tm)
  from keep[THEN spec, of "''t-3d''", THEN mp, OF this]
  have d: "fst (getMealById historyEnv (Has ''t-3d'') (snd (clearHistoryByTimeRange historyEnv ''day'' history)))
       = Some (historyMeal ''t-3d'')"
    by (simp only: old)
  from th have e: "indexEntries historyEnv (snd (clearHistoryByTimeRange historyEnv ''all'' history)) = Some []"
    by simp
  from a b c d e show ?thesis by (intro conjI)
qed

subsection \<open>updateMealAnalysis\<close>

lemma mset_insertBy: "mset (insertBy cmp x ys) = add_mset x (mset ys)"
  by (induction ys) auto

lemma mset_sortBy: "mset (sortBy cmp xs) = mset xs"
  unfolding sortBy_def by (induction xs) (auto simp: mset_insertBy)

lemma set_insertBy: "set (insertBy cmp x ys) = insert x (set ys)"
  by (induction ys) auto

lemma set_sortBy: "set (sortBy cmp xs) = set xs"
  unfolding sortBy_def by (induction xs) (auto simp: set_insertBy)

lemma sorted_insertBy:
  assumes "\<And>y. y \<in> set ys \<Longrightarrow> cmp x y = key y - key x"
    and "sorted_wrt (\<lambda>a b. key b \<le> key a) ys"
  shows "sorted_wrt (\<lambda>a b. (key b :: int) \<le> key a) (insertBy cmp x ys)"
  using assms
proof (induction ys)
  case Nil
  then show ?case by simp
next
  case (Cons y ys)
  show ?case
  proof (cases "cmp x y \<le> 0")
    case True
    with Cons.prems(1)[of y] have "key y \<le> key x" by simp
    with Cons.prems(2) True show ?thesis by fastforce
  next
    case False
    with Cons.prems(1)[of y] have "key x \<le> key y" by simp
    moreover have "sorted_wrt (\<lambda>a b. key b \<le> key a) (insertBy cmp x ys)"
      using Cons by simp
    ultimately show ?thesis
      using False Cons.prems(2) by (auto simp: set_insertBy)
  qed
qed

lemma sorted_sortBy:
  assumes "\<And>x y. x \<in> set xs \<Longrightarrow> y \<in> set xs \<Longrightarrow> cmp x y = key y - key x"
  shows "sorted_wrt (\<lambda>a b. (key b :: int) \<le> key a) (sortBy cmp xs)"
  using assms
proof (induction xs)
  case Nil
  then show ?case by (simp add: sortBy_def)
next
  case (Cons x xs)
  have "sorted_wrt (\<lambda>a b. key b \<le> key a) (sortBy cmp xs)"
    using Cons by simp
  moreover have "\<And>y. y \<in> set (sortBy cmp xs) \<Longrightarrow> cmp x y = key y - key x"
    using Cons.prems by (simp add: set_sortBy)
  ultimately have "sorted_wrt (\<lambda>a b. key b \<le> key a) (insertBy cmp x (sortBy cmp xs))"
    by (intro sorted_insertBy)
  then show ?case by (simp add: sortBy_def)
qed

lemma timeOf_stringified [simp]: "timeOf e (stringified v) = timeOf e v"
  by (cases v) auto

lemma ref_timestamp_stringifyRef [simp]:
  "ref_timestamp (stringifyRef r) = stringified (ref_timestamp r)"
  by (simp add: stringifyRef_def)

lemma sortBy_timestamps:
  assumes valid: "\<forall>r\<in>set xs. timeOf e (ref_timestamp r) \<noteq> None"
  shows "sorted_wrt (\<lambda>a b. \<exists>ta tb. timeOf e (ref_timestamp a) = Some ta
                         \<and> timeOf e (ref_timestamp b) = Some tb \<and> tb \<le> ta)
           (map stringifyRef (sortBy (byTimestampDesc e) xs))"
proof -
  let ?key = "\<lambda>r. the (timeOf e (ref_timestamp r))"
  have "\<And>x y. x \<in> set xs \<Longrightarrow> y \<in> set xs \<Longrightarrow> byTimestampDesc e x y = ?key y - ?key x"
    using valid by (fastforce simp: byTimestampDesc_def split: option.splits)
  then have "sorted_wrt (\<lambda>a b. ?key b \<le> ?key a) (sortBy (byTimestampDesc e) xs)"
    by (rule sorted_sortBy)
  then have "sorted_wrt (\<lambda>a b. \<exists>ta tb. timeOf e (ref_timestamp a) = Some ta
                         \<and> timeOf e (ref_timestamp b) = Some tb \<and> tb \<le> ta)
           (sortBy (byTimestampDesc e) xs)"
  proof (rule sorted_wrt_mono_rel[rotated])
    fix a b
    assume "a \<in> set (sortBy (byTimestampDesc e) xs)" "b \<in> set (sortBy (byTimestampDesc e) xs)"
      and le: "?key b \<le> ?key a"
    then have "timeOf e (ref_timestamp a) \<noteq> None" "timeOf e (ref_timestamp b) \<noteq> None"
      using valid by (simp_all add: set_sortBy)
    with le show "\<exists>ta tb. timeOf e (ref_timestamp a) = Some ta
                         \<and> timeOf e (ref_timestamp b) = Some tb \<and> tb \<le> ta"
      by auto
  qed
  then show ?thesis by (simp add: sorted_wrt_map)
qed

lemma syncIndexEntry_Inr:
  assumes "indexEntries e fs = Some refs"
  shows "syncIndexEntry e mid ts fs =
     Inr (writeIndex e
            \<lparr>meals = sortBy (byTimestampDesc e)
               (case findIndex (\<lambda>m. strictEq (ref_id m) mid) refs of
                  Some entryIndex \<Rightarrow> refs[entryIndex := (refs ! entryIndex)\<lparr>ref_timestamp := ts\<rparr>]
                | None \<Rightarrow> newRef mid ts # refs),
             lastUpdated = 0\<rparr> fs)"
proof -
  from indexEntries_Some[OF assms] obtain idx where i: "readIndex e fs = Inr idx" "meals idx = refs"
    by blast
  show ?thesis
    by (simp add: syncIndexEntry_def i Let_def writeIndex_def cong: option.case_cong)
qed

lemma findIndex_None: "(findIndex P xs = None) = (\<forall>x\<in>set xs. \<not> P x)"
  by (induction xs) auto

lemma findIndex_first:
  "P x \<Longrightarrow> \<forall>y\<in>set pre. \<not> P y \<Longrightarrow> findIndex P (pre @ x # post) = Some (length pre)"
  by (induction pre) auto

lemma synced_entries_valid:
  assumes valid: "\<forall>r\<in>set xs. timeOf e (ref_timestamp r) \<noteq> None"
    and ts: "timeOf e ts \<noteq> None"
  shows "\<forall>r\<in>set (case findIndex P xs of
          Some entryIndex \<Rightarrow> xs[entryIndex := (xs ! entryIndex)\<lparr>ref_timestamp := ts\<rparr>]
        | None \<Rightarrow> newRef mid ts # xs). timeOf e (ref_timestamp r) \<noteq> None"
proof (cases "findIndex P xs")
  case None
  with valid ts show ?thesis by (simp add: newRef_def)
next
  case (Some i)
  have "set (xs[i := (xs ! i)\<lparr>ref_timestamp := ts\<rparr>]) \<subseteq> insert ((xs ! i)\<lparr>ref_timestamp := ts\<rparr>) (set xs)"
    by (rule set_update_subset_insert)
  with valid ts Some show ?thesis by auto
qed

lemma updateMealAnalysis_eq:
  assumes "readMeal (mealFile e mid) fs = Inr existing" and "indexEntries e fs = Some refs"
  shows "updateMealAnalysis e mid meal fs =
     (Inr (), writeIndex e
            \<lparr>meals = sortBy (byTimestampDesc e)
               (case findIndex (\<lambda>m. strictEq (ref_id m) mid) refs of
                  Some entryIndex \<Rightarrow>
                    refs[entryIndex := (refs ! entryIndex)
                           \<lparr>ref_timestamp := timestamp (mergeMeal existing meal)\<rparr>]
                | None \<Rightarrow> newRef mid (timestamp (mergeMeal existing meal)) # refs),
             lastUpdated = 0\<rparr>
            (writeMeal (mealFile e mid) (mergeMeal existing meal) (initializeStorage e fs)))"
proof -
  have "indexEntries e (writeMeal (mealFile e mid) (mergeMeal existing meal)
          (initializeStorage e fs)) = Some refs"
    using assms(2) by simp
  from syncIndexEntry_Inr[OF this] assms(1) show ?thesis
    by (simp add: updateMealAnalysis_def Let_def)
qed

lemma updateMealAnalysis_failed_index:
  assumes "readMeal (mealFile e mid) fs = Inr existing" and "indexEntries e fs = None"
  shows "updateMealAnalysis e mid meal fs =
     (Inl TypeError, writeMeal (mealFile e mid) (mergeMeal existing meal) (initializeStorage e fs))"
proof -
  have "indexEntries e (writeMeal (mealFile e mid) (mergeMeal existing meal)
          (initializeStorage e fs)) = None"
    using assms(2) by simp
  from indexEntries_None[OF this] assms(1) show ?thesis
    by (simp add: updateMealAnalysis_def Let_def syncIndexEntry_def)
qed

lemma updateMealAnalysis_record:
  assumes "readMeal (mealFile e mid) fs = Inr existing"
  shows "fst (getMealById e mid (snd (updateMealAnalysis e mid meal fs)))
           = Some (stringifyMeal (mergeMeal existing meal))"
proof (cases "indexEntries e fs")
  case None
  show ?thesis
    by (simp add: updateMealAnalysis_failed_index[OF assms None] getMealById_readMeal)
next
  case (Some refs)
  show ?thesis
    by (simp add: updateMealAnalysis_eq[OF assms Some] getMealById_readMeal readMeal_def
          writeMeal_def)
qed

lemma spread_cases:
  "(newer = Absent \<longrightarrow> stringified (spread older newer) = stringified older)
   \<and> (\<forall>s. newer = Has s \<longrightarrow> stringified (spread older newer) = Has s)"
  by (cases newer) auto

text \<open>
  Claim C3. For a stored record and an index that can be read, \<^verbatim>\<open>updateMealAnalysis\<close>
  succeeds with every update, whichever properties the update has. The record is left
  with \<open>isLoading = false\<close> and \<open>hasError = false\<close>, whatever the update says about the two
  flags or leaves unsaid; each other property is the one of the update, and the stored one
  when the update has none. The index afterwards has the entries it had, with the time
  stamp of the record in the first entry of the id, or in a new entry when the id had
  none: no entry is lost or added otherwise. When the time stamps of the entries and of
  the record are dates, the index is in descending order of time.
\<close>

theorem updateMealAnalysis_clears_flags_and_sorts:
  assumes stored: "readMeal (mealFile e mid) fs = Inr existing"
    and index: "indexEntries e fs = Some refs"
  shows "fst (updateMealAnalysis e mid meal fs) = Inr ()
    \<and> (\<exists>r refs'. fst (getMealById e mid (snd (updateMealAnalysis e mid meal fs))) = Some r
          \<and> isLoading r = Has False \<and> hasError r = Has False
          \<and> (\<forall>property\<in>set [mealId, timestamp, imageUri, afterImageUri, comment].
                (property meal = Absent \<longrightarrow> property r = stringified (property existing))
                \<and> (\<forall>s. property meal = Has s \<longrightarrow> property r = Has s))
          \<and> (analysis meal = Absent \<longrightarrow> analysis r = stringified (analysis existing))
          \<and> (\<forall>a. analysis meal = Has a \<longrightarrow> analysis r = Has a)
          \<and> indexEntries e (snd (updateMealAnalysis e mid meal fs)) = Some refs'
          \<and> ((\<forall>x\<in>set refs. \<not> strictEq (ref_id x) mid) \<longrightarrow>
               mset refs' = mset (map stringifyRef (newRef mid (timestamp r) # refs)))
          \<and> (\<forall>pre x post. refs = pre @ x # post \<and> strictEq (ref_id x) mid
                 \<and> (\<forall>y\<in>set pre. \<not> strictEq (ref_id y) mid) \<longrightarrow>
               mset refs' = mset (map stringifyRef (pre @ x\<lparr>ref_timestamp := timestamp r\<rparr> # post)))
          \<and> ((\<forall>x\<in>set refs. timeOf e (ref_timestamp x) \<noteq> None)
                \<and> timeOf e (timestamp r) \<noteq> None \<longrightarrow>
              sorted_wrt (\<lambda>a b. \<exists>ta tb. timeOf e (ref_timestamp a) = Some ta
                               \<and> timeOf e (ref_timestamp b) = Some tb \<and> tb \<le> ta) refs'))"
proof -
  let ?ts = "timestamp (mergeMeal existing meal)"
  let ?r = "stringifyMeal (mergeMeal existing meal)"
  let ?entries = "case findIndex (\<lambda>m. strictEq (ref_id m) mid) refs of
                  Some entryIndex \<Rightarrow> refs[entryIndex := (refs ! entryIndex)\<lparr>ref_timestamp := ?ts\<rparr>]
                | None \<Rightarrow> newRef mid ?ts # refs"
  let ?refs' = "map stringifyRef (sortBy (byTimestampDesc e) ?entries)"
  note eq = updateMealAnalysis_eq[OF stored index, of meal]
  have tr: "timestamp ?r = stringified ?ts" by (simp add: stringifyMeal_def)
  have str: "\<And>x. stringifyRef (x\<lparr>ref_timestamp := timestamp ?r\<rparr>) = stringifyRef (x\<lparr>ref_timestamp := ?ts\<rparr>)"
    by (simp add: stringifyRef_def tr)
  have strn: "stringifyRef (newRef mid (timestamp ?r)) = stringifyRef (newRef mid ?ts)"
    by (simp add: stringifyRef_def newRef_def tr)
  have 1: "fst (updateMealAnalysis e mid meal fs) = Inr ()" by (simp add: eq)
  have 2: "fst (getMealById e mid (snd (updateMealAnalysis e mid meal fs))) = Some ?r"
    by (rule updateMealAnalysis_record[OF stored])
  have 3: "isLoading ?r = Has False" "hasError ?r = Has False"
    by (simp_all add: stringifyMeal_def mergeMeal_def)
  have 4: "\<forall>property\<in>set [mealId, timestamp, imageUri, afterImageUri, comment].
                (property meal = Absent \<longrightarrow> property ?r = stringified (property existing))
                \<and> (\<forall>s. property meal = Has s \<longrightarrow> property ?r = Has s)"
    using spread_cases[of "mealId meal" "mealId existing"]
      spread_cases[of "timestamp meal" "timestamp existing"]
      spread_cases[of "imageUri meal" "imageUri existing"]
      spread_cases[of "afterImageUri meal" "afterImageUri existing"]
      spread_cases[of "comment meal" "comment existing"]
    by (simp add: stringifyMeal_def mergeMeal_def)
  have 4: "\<forall>property\<in>set [mealId, timestamp, imageUri, afterImageUri, comment].
                (property meal = Absent \<longrightarrow> property ?r = stringified (property existing))
                \<and> (\<forall>s. property meal = Has s \<longrightarrow> property ?r = Has s)"
    "analysis meal = Absent \<longrightarrow> analysis ?r = stringified (analysis existing)"
    "\<forall>a. analysis meal = Has a \<longrightarrow> analysis ?r = Has a"
    using 4 spread_cases[of "analysis meal" "analysis existing"]
    by (simp_all add: stringifyMeal_def mergeMeal_def)
  have 5: "indexEntries e (snd (updateMealAnalysis e mid meal fs)) = Some ?refs'"
    by (simp add: eq cong: option.case_cong)
  have 6: "(\<forall>x\<in>set refs. \<not> strictEq (ref_id x) mid) \<longrightarrow>
               mset ?refs' = mset (map stringifyRef (newRef mid (timestamp ?r) # refs))"
  proof
    assume "\<forall>x\<in>set refs. \<not> strictEq (ref_id x) mid"
    then have "findIndex (\<lambda>m. strictEq (ref_id m) mid) refs = None"
      by (simp add: findIndex_None)
    then have "?entries = newRef mid ?ts # refs" by simp
    then have "mset ?refs' = mset (map stringifyRef (newRef mid ?ts # refs))"
      by (simp only: mset_map mset_sortBy)
    then show "mset ?refs' = mset (map stringifyRef (newRef mid (timestamp ?r) # refs))"
      by (simp add: strn)
  qed
  have 7: "\<forall>pre x post. refs = pre @ x # post \<and> strictEq (ref_id x) mid
                 \<and> (\<forall>y\<in>set pre. \<not> strictEq (ref_id y) mid) \<longrightarrow>
               mset ?refs' = mset (map stringifyRef (pre @ x\<lparr>ref_timestamp := timestamp ?r\<rparr> # post))"
  proof (intro allI impI)
    fix pre x post
    assume a: "refs = pre @ x # post \<and> strictEq (ref_id x) mid
                 \<and> (\<forall>y\<in>set pre. \<not> strictEq (ref_id y) mid)"
    then have "findIndex (\<lambda>m. strictEq (ref_id m) mid) refs = Some (length pre)"
      by (simp add: findIndex_first)
    with a have "?entries = pre @ x\<lparr>ref_timestamp := ?ts\<rparr> # post" by simp
    then have "mset ?refs' = mset (map stringifyRef (pre @ x\<lparr>ref_timestamp := ?ts\<rparr> # post))"
      by (simp only: mset_map mset_sortBy)
    then show "mset ?refs' = mset (map stringifyRef (pre @ x\<lparr>ref_timestamp := timestamp ?r\<rparr> # post))"
      by (simp add: str)
  qed
  have 8: "(\<forall>x\<in>set refs. timeOf e (ref_timestamp x) \<noteq> None)
                \<and> timeOf e (timestamp ?r) \<noteq> None \<longrightarrow>
              sorted_wrt (\<lambda>a b. \<exists>ta tb. timeOf e (ref_timestamp a) = Some ta
                               \<and> timeOf e (ref_timestamp b) = Some tb \<and> tb \<le> ta) ?refs'"
  proof
    assume a: "(\<forall>x\<in>set refs. timeOf e (ref_timestamp x) \<noteq> None)
                \<and> timeOf e (timestamp ?r) \<noteq> None"
    then have "timeOf e ?ts \<noteq> None" by (simp add: tr)
    with a have "\<forall>r\<in>set ?entries. timeOf e (ref_timestamp r) \<noteq> None"
      by (intro synced_entries_valid) simp_all
    then show "sorted_wrt (\<lambda>a b. \<exists>ta tb. timeOf e (ref_timestamp a) = Some ta
                               \<and> timeOf e (ref_timestamp b) = Some tb \<and> tb \<le> ta) ?refs'"
      by (rule sortBy_timestamps)
  qed
  show ?thesis
  proof (intro conjI exI[of _ ?r] exI[of _ ?refs'])
  qed (rule 1 2 3 4 5 6 7 8)+
qed


lemma failedHistory_index:
  "indexEntries historyEnv failedHistory =
     Some (map (\<lambda>ts. newRef (Has ts) (Has ts)) [''t-30min'', ''t-12h'', ''t-3d'', ''t-40d'', ''t-400d''])"
  by (simp add: indexEntries_def readIndex_def failedHistory_def history_def)

lemma historyEnv_times:
  "getTime historyEnv ''t-30min'' = Some 1714739400000"
  "getTime historyEnv ''t-12h'' = Some 1714698000000"
  "getTime historyEnv ''t-3d'' = Some 1714482000000"
  "getTime historyEnv ''t-40d'' = Some 1711285200000"
  "getTime historyEnv ''t-400d'' = Some 1680181200000"
  "now historyEnv = 1714741200000"
  by (simp_all add: historyEnv_def)

text \<open>The theorem at the failed meal of the sample history, edited without a word on
  the flags and moved 400 days back.\<close>

theorem updateMealAnalysis_clears_flags_and_sorts_witness:
  "hasError failedMeal = Has True \<and> isLoading editedMeal = Absent \<and> hasError editedMeal = Absent
   \<and> (\<exists>r refs'. fst (getMealById historyEnv (Has ''t-12h'')
                 (snd (updateMealAnalysis historyEnv (Has ''t-12h'') editedMeal failedHistory))) = Some r
          \<and> isLoading r = Has False \<and> hasError r = Has False \<and> timestamp r = Has ''t-400d''
          \<and> indexEntries historyEnv
               (snd (updateMealAnalysis historyEnv (Has ''t-12h'') editedMeal failedHistory)) = Some refs'
          \<and> mset refs' = mset [newRef (Has ''t-30min'') (Has ''t-30min''),
                               newRef (Has ''t-12h'') (Has ''t-400d''),
                               newRef (Has ''t-3d'') (Has ''t-3d''),
                               newRef (Has ''t-40d'') (Has ''t-40d''),
                               newRef (Has ''t-400d'') (Has ''t-400d'')]
          \<and> sorted_wrt (\<lambda>a b. \<exists>ta tb. timeOf historyEnv (ref_timestamp a) = Some ta
                         \<and> timeOf historyEnv (ref_timestamp b) = Some tb \<and> tb \<le> ta) refs')"
proof -
  let ?refs = "map (\<lambda>ts. newRef (Has ts) (Has ts)) [''t-30min'', ''t-12h'', ''t-3d'', ''t-40d'', ''t-400d'']"
  have stored: "readMeal (mealFile historyEnv (Has ''t-12h'')) failedHistory = Inr failedMeal"
    by (simp add: readMeal_def failedHistory_def)
  have flags: "hasError failedMeal = Has True" "isLoading editedMeal = Absent"
    "hasError editedMeal = Absent"
    by (simp_all add: failedMeal_def editedMeal_def)
  from updateMealAnalysis_clears_flags_and_sorts[OF stored failedHistory_index, of editedMeal]
  obtain r refs' where
    a: "fst (getMealById historyEnv (Has ''t-12h'')
                 (snd (updateMealAnalysis historyEnv (Has ''t-12h'') editedMeal failedHistory))) = Some r"
    and b: "isLoading r = Has False" "hasError r = Has False"
    and c: "\<forall>property\<in>set [mealId, timestamp, imageUri, afterImageUri, comment].
                (property editedMeal = Absent \<longrightarrow> property r = stringified (property failedMeal))
                \<and> (\<forall>s. property editedMeal = Has s \<longrightarrow> property r = Has s)"
    and d: "indexEntries historyEnv
               (snd (updateMealAnalysis historyEnv (Has ''t-12h'') editedMeal failedHistory)) = Some refs'"
    and f: "\<forall>pre x post. ?refs = pre @ x # post \<and> strictEq (ref_id x) (Has ''t-12h'')
                 \<and> (\<forall>y\<in>set pre. \<not> strictEq (ref_id y) (Has ''t-12h'')) \<longrightarrow>
               mset refs' = mset (map stringifyRef (pre @ x\<lparr>ref_timestamp := timestamp r\<rparr> # post))"
    and g: "(\<forall>x\<in>set ?refs. timeOf historyEnv (ref_timestamp x) \<noteq> None)
                \<and> timeOf historyEnv (timestamp r) \<noteq> None \<longrightarrow>
              sorted_wrt (\<lambda>a b. \<exists>ta tb. timeOf historyEnv (ref_timestamp a) = Some ta
                               \<and> timeOf historyEnv (ref_timestamp b) = Some tb \<and> tb \<le> ta) refs'"
    by blast
  have "timestamp \<in> set [mealId, timestamp, imageUri, afterImageUri, comment]" by simp
  from c[THEN bspec, OF this] have ts: "timestamp r = Has ''t-400d''"
    by (simp add: editedMeal_def failedMeal_def)
  have "?refs = [newRef (Has ''t-30min'') (Has ''t-30min'')] @ newRef (Has ''t-12h'') (Has ''t-12h'')
            # map (\<lambda>ts. newRef (Has ts) (Has ts)) [''t-3d'', ''t-40d'', ''t-400d'']
         \<and> strictEq (ref_id (newRef (Has ''t-12h'') (Has ''t-12h''))) (Has ''t-12h'')
         \<and> (\<forall>y\<in>set [newRef (Has ''t-30min'') (Has ''t-30min'')]. \<not> strictEq (ref_id y) (Has ''t-12h''))"
    by (simp add: newRef_def)
  from f[THEN spec, THEN spec, THEN spec, THEN mp, OF this]
  have m: "mset refs' = mset [newRef (Has ''t-30min'') (Has ''t-30min''),
                               newRef (Has ''t-12h'') (Has ''t-400d''),
                               newRef (Has ''t-3d'') (Has ''t-3d''),
                               newRef (Has ''t-40d'') (Has ''t-40d''),
                               newRef (Has ''t-400d'') (Has ''t-400d'')]"
    by (simp add: ts newRef_def stringifyRef_def)
  have "(\<forall>x\<in>set ?refs. timeOf historyEnv (ref_timestamp x) \<noteq> None)
                \<and> timeOf historyEnv (timestamp r) \<noteq> None"
    by (simp add: ts newRef_def historyEnv_times)
  from g[THEN mp, OF this]
  have s: "sorted_wrt (\<lambda>a b. \<exists>ta tb. timeOf historyEnv (ref_timestamp a) = Some ta
                               \<and> timeOf historyEnv (ref_timestamp b) = Some tb \<and> tb \<le> ta) refs'" .
  show ?thesis
  proof (intro conjI exI[of _ r] exI[of _ refs'])
  qed (rule flags a b ts d m s)+
qed

subsection \<open>The retention cap of saveMealAnalysis\<close>

lemma now_isRecordPath [simp]: "isRecordPath (e\<lparr>now := t\<rparr>) p = isRecordPath e p"
  by (simp add: isRecordPath_def)

lemma now_getMealById [simp]:
  "fst (getMealById (e\<lparr>now := t\<rparr>) i fs) = fst (getMealById e i fs)"
  by (simp add: getMealById_readMeal)

lemma mealFile_isRecordPath [simp]: "isRecordPath e (mealFile e i)"
  by (simp add: isRecordPath_def startsWith_def mealFile_def mealFilename_def)

lemma image_not_recordPath: "startsWith u (imagesDir e) \<Longrightarrow> \<not> isRecordPath e u"
  by (auto simp: isRecordPath_def startsWith_def prefix_def imagesDir_def mealsDir_def)

lemma index_not_recordPath [simp]: "\<not> isRecordPath e (indexFile e)"
  by (auto simp: isRecordPath_def startsWith_def prefix_def indexFile_def mealsDir_def)

lemma dropped_are_records:
  assumes wf: "list_all wellFormedRef refs"
    and p: "p \<in> (\<lambda>r. mealsDir e @ templ (ref_filename r)) `
              set (drop 50 (newRef (Has i) ts # filter (\<lambda>m. \<not> strictEq (ref_id m) (Has i)) refs))"
  shows "isRecordPath e p"
proof -
  from p obtain r where r: "r \<in> set (drop 50 (newRef (Has i) ts # filter (\<lambda>m. \<not> strictEq (ref_id m) (Has i)) refs))"
    and eq: "p = mealsDir e @ templ (ref_filename r)" by blast
  from wellFormed_dropped[OF wf r, of e] eq show ?thesis by simp
qed

lemma unshiftCapped_survives:
  assumes idx: "indexEntries e fs = Some refs" and wf: "list_all wellFormedRef refs"
    and un: "unshiftCapped e (Has i) ts fs = Inr fs'"
    and "fs p \<noteq> None" and "\<not> isRecordPath e p"
  shows "fs' p \<noteq> None"
proof (cases "p = indexFile e")
  case True
  with un show ?thesis unfolding unshiftCapped_Inr[OF idx] by (auto simp: writeIndex_def)
next
  case False
  with assms dropped_are_records[OF wf, of p e i ts] show ?thesis
    by (auto simp: unshiftCapped_other[OF idx un False])
qed

lemma unshiftCapped_no_resurrection:
  assumes idx: "indexEntries e fs = Some refs" and un: "unshiftCapped e mid ts fs = Inr fs'"
    and "fs (mealFile e j) = None"
  shows "fs' (mealFile e j) = None"
  using assms(3) by (simp add: unshiftCapped_other[OF idx un mealFile_neq_indexFile(1)])

lemma unshiftCapped_evicts:
  assumes idx: "indexEntries e fs = Some refs" and wf: "list_all wellFormedRef refs"
    and un: "unshiftCapped e (Has i) ts fs = Inr fs'"
    and r: "r \<in> set (drop 50 (newRef (Has i) ts # filter (\<lambda>m. \<not> strictEq (ref_id m) (Has i)) refs))"
  shows "fs' (mealFile e (ref_id r)) = None"
proof -
  from wellFormed_dropped[OF wf r, of e]
  have "mealFile e (ref_id r) = mealsDir e @ templ (ref_filename r)" by simp
  with r have "mealFile e (ref_id r) \<in> (\<lambda>r. mealsDir e @ templ (ref_filename r)) `
              set (drop 50 (newRef (Has i) ts # filter (\<lambda>m. \<not> strictEq (ref_id m) (Has i)) refs))"
    by blast
  then show ?thesis
    by (simp only: unshiftCapped_other[OF idx un mealFile_neq_indexFile(1)] if_True)
qed


lemma creatable_readable: "creatable e fs meal \<Longrightarrow> imagesReadable e meal fs"
  by (simp add: creatable_def imagesReadable_def)

lemma saveMealAnalysis_step:
  assumes idx: "indexEntries e fs = Some refs" and wf: "list_all wellFormedRef refs"
    and cr: "creatable e fs meal"
  shows "\<exists>fs'. saveMealAnalysis e meal fs = (Inr (), fs')
    \<and> indexEntries e fs' =
        Some (take 50 (newRef (mealId meal) (timestamp meal)
                 # filter (\<lambda>m. \<not> strictEq (ref_id m) (mealId meal)) refs))
    \<and> survives e fs fs'
    \<and> (\<forall>j. templ j \<noteq> templ (mealId meal) \<and> fs (mealFile e j) = None \<longrightarrow> fs' (mealFile e j) = None)
    \<and> (\<forall>r\<in>set (drop 50 (newRef (mealId meal) (timestamp meal)
                 # filter (\<lambda>m. \<not> strictEq (ref_id m) (mealId meal)) refs)).
          fs' (mealFile e (ref_id r)) = None)
    \<and> (\<exists>r. fst (getMealById e (mealId meal) fs') = Some r
          \<and> fs' (orEmpty (imageUri r)) \<noteq> None \<and> \<not> isRecordPath e (orEmpty (imageUri r))
          \<and> (truthyStr (afterImageUri r) \<longrightarrow>
                fs' (orEmpty (afterImageUri r)) \<noteq> None
                \<and> \<not> isRecordPath e (orEmpty (afterImageUri r))))"
proof -
  from cr have valid: "truthyStr (mealId meal)" "truthyStr (timestamp meal)"
      "truthyStr (imageUri meal)" "theAnalysis (analysis meal) \<noteq> None"
    by (simp_all add: creatable_def)
  from truthyStr_Has[OF valid(1)] obtain i where i: "mealId meal = Has i" by blast
  from truthyStr_Has[OF valid(2)] obtain ts where ts: "timestamp meal = Has ts" by blast
  obtain u v fs2 fs3 fs' where
    s1: "storeImage e meal (initializeStorage e fs) = (Inr u, fs2)" and
    s2: "storeAfterImage e meal fs2 = (Inr v, fs3)" and
    un: "unshiftCapped e (mealId meal) (timestamp meal)
       (writeMeal (mealFile e (mealId meal))
          (meal\<lparr>imageUri := Has u, afterImageUri := v\<rparr>) fs3) = Inr fs'" and
    idx4: "indexEntries e (writeMeal (mealFile e (mealId meal))
          (meal\<lparr>imageUri := Has u, afterImageUri := v\<rparr>) fs3) = Some refs" and
    eq: "saveMealAnalysis e meal fs = (Inr (), fs')"
    by (rule saveMealAnalysis_saved[OF valid creatable_readable[OF cr] idx])
  let ?saved = "meal\<lparr>imageUri := Has u, afterImageUri := v\<rparr>"
  let ?fs4 = "writeMeal (mealFile e (mealId meal)) ?saved fs3"
  let ?added = "newRef (mealId meal) (timestamp meal)
                 # filter (\<lambda>m. \<not> strictEq (ref_id m) (mealId meal)) refs"
  note a1 = storeImage_imagesAdded[OF s1]
  note a2 = storeAfterImage_imagesAdded[OF s2]
  note un' = un[unfolded i]
  note idx4' = idx4[unfolded i]
  have mono4: "\<And>p. fs p \<noteq> None \<Longrightarrow> ?fs4 p \<noteq> None"
  proof -
    fix p assume "fs p \<noteq> None"
    then have "initializeStorage e fs p \<noteq> None" by (rule initializeStorage_mono)
    then have "fs2 p \<noteq> None" by (rule imagesAdded_mono[OF a1])
    then have "fs3 p \<noteq> None" by (rule imagesAdded_mono[OF a2])
    then show "?fs4 p \<noteq> None" by (simp add: writeMeal_def)
  qed
  have wfa: "list_all wellFormedRef ?added"
    using wf by (simp add: i ts list_all_filter)
  have 2: "indexEntries e fs' = Some (take 50 ?added)"
    unfolding entries_unshiftCapped[OF idx4 un]
    by (simp only: map_stringifyRef_wellFormed[OF list_all_take[OF wfa]])
  have 3: "survives e fs fs'"
    unfolding survives_def
  proof (intro allI impI)
    fix p assume p: "fs p \<noteq> None \<and> \<not> isRecordPath e p"
    then have "?fs4 p \<noteq> None" using mono4 by simp
    then have w: "writeMeal (mealFile e (Has i)) ?saved fs3 p \<noteq> None" by (simp add: i)
    from p have np: "\<not> isRecordPath e p" by simp
    show "fs' p \<noteq> None" by (rule unshiftCapped_survives[OF idx4' wf un' w np])
  qed
  have 4: "\<forall>j. templ j \<noteq> templ (mealId meal) \<and> fs (mealFile e j) = None \<longrightarrow> fs' (mealFile e j) = None"
  proof (intro allI impI)
    fix j assume j: "templ j \<noteq> templ (mealId meal) \<and> fs (mealFile e j) = None"
    then have "fs3 (mealFile e j) = None"
      using imagesAdded_mealFile[OF a2, of j] imagesAdded_mealFile[OF a1, of j] by simp
    with j have "?fs4 (mealFile e j) = None" by (simp add: writeMeal_def)
    then show "fs' (mealFile e j) = None" by (rule unshiftCapped_no_resurrection[OF idx4 un])
  qed
  have 5: "\<forall>r\<in>set (drop 50 ?added). fs' (mealFile e (ref_id r)) = None"
  proof
    fix r assume "r \<in> set (drop 50 ?added)"
    then have "r \<in> set (drop 50 (newRef (Has i) (timestamp meal)
                 # filter (\<lambda>m. \<not> strictEq (ref_id m) (Has i)) refs))"
      by (simp only: i)
    then show "fs' (mealFile e (ref_id r)) = None" by (rule unshiftCapped_evicts[OF idx4' wf un'])
  qed
  have rec: "fs' (mealFile e (mealId meal)) = Some (MealJson (stringifyMeal ?saved))"
    using unshiftCapped_keeps_record[OF idx4' wf un']
    by (simp add: writeMeal_def i)
  have g: "fst (getMealById e (mealId meal) fs') = Some (stringifyMeal ?saved)"
    by (simp add: getMealById_readMeal readMeal_def rec)
  have src: "initializeStorage e fs (orEmpty (imageUri meal)) \<noteq> None"
    using cr initializeStorage_mono by (simp add: creatable_def)
  have u1: "startsWith u (imagesDir e)" by (rule storeImage_Inr(1)[OF s1])
  have u2: "fs2 u \<noteq> None" by (rule storeImage_Inr(2)[OF s1 src])
  have u3: "\<not> isRecordPath e u" by (rule image_not_recordPath[OF u1])
  from u2 have "fs3 u \<noteq> None" by (rule imagesAdded_mono[OF a2])
  then have "writeMeal (mealFile e (Has i)) ?saved fs3 u \<noteq> None" by (simp add: writeMeal_def)
  then have u4: "fs' u \<noteq> None" using u3 by (rule unshiftCapped_survives[OF idx4' wf un'])
  have aft: "truthyStr (stringified v) \<longrightarrow>
                fs' (orEmpty (stringified v)) \<noteq> None
                \<and> \<not> isRecordPath e (orEmpty (stringified v))"
  proof
    assume t: "truthyStr (stringified v)"
    then obtain w where v: "v = Has w" and w: "w \<noteq> []" by (cases v) auto
    have tr: "truthyStr (afterImageUri meal)"
      using s2 v w
      by (cases rule: copy_cases[of fs2 "orEmpty (afterImageUri meal)" e "templ (mealId meal)" "''after''"];
          cases "afterImageUri meal")
         (auto simp: storeAfterImage_def split: if_splits)
    with cr have "fs (orEmpty (afterImageUri meal)) \<noteq> None" by (simp add: creatable_def)
    then have "initializeStorage e fs (orEmpty (afterImageUri meal)) \<noteq> None"
      by (rule initializeStorage_mono)
    then have "fs2 (orEmpty (afterImageUri meal)) \<noteq> None" by (rule imagesAdded_mono[OF a1])
    from storeAfterImage_Inr(2)[OF s2 v w this]
    have "writeMeal (mealFile e (Has i)) ?saved fs3 w \<noteq> None" by (simp add: writeMeal_def)
    moreover have nr: "\<not> isRecordPath e w"
      by (rule image_not_recordPath[OF storeAfterImage_Inr(1)[OF s2 v w]])
    ultimately have "fs' w \<noteq> None" by (rule unshiftCapped_survives[OF idx4' wf un'])
    with nr v show "fs' (orEmpty (stringified v)) \<noteq> None
                \<and> \<not> isRecordPath e (orEmpty (stringified v))" by simp
  qed
  have 6: "\<exists>r. fst (getMealById e (mealId meal) fs') = Some r
          \<and> fs' (orEmpty (imageUri r)) \<noteq> None \<and> \<not> isRecordPath e (orEmpty (imageUri r))
          \<and> (truthyStr (afterImageUri r) \<longrightarrow>
                fs' (orEmpty (afterImageUri r)) \<noteq> None
                \<and> \<not> isRecordPath e (orEmpty (afterImageUri r)))"
    using g u4 u3 aft by (simp add: stringifyMeal_def)
  show ?thesis
  proof (intro exI[of _ fs'] conjI)
    show "saveMealAnalysis e meal fs = (Inr (), fs')" by (rule eq)
  qed (rule 2 3 4 5 6)+
qed


lemma survives_refl: "survives e fs fs"
  by (simp add: survives_def)

lemma survives_trans: "survives e a b \<Longrightarrow> survives e b c \<Longrightarrow> survives e a c"
  by (simp add: survives_def)

lemma survivesD: "survives e a b \<Longrightarrow> a p \<noteq> None \<Longrightarrow> \<not> isRecordPath e p \<Longrightarrow> b p \<noteq> None"
  by (simp add: survives_def)

lemma creatable_survives:
  "creatable e fs0 meal \<Longrightarrow> survives e fs0 fs \<Longrightarrow> creatable e fs meal"
  by (simp add: creatable_def survives_def)

lemma now_creatable [simp]: "creatable (e\<lparr>now := t\<rparr>) fs meal = creatable e fs meal"
  by (simp add: creatable_def)

lemma now_survives [simp]: "survives (e\<lparr>now := t\<rparr>) a b = survives e a b"
  by (simp add: survives_def)

lemma take_Cons_take: "take n (a # take n ys) = take n (a # ys)"
  by (cases n) simp_all

lemma ref_id_entryOf [simp]: "ref_id (entryOf c) = mealId (snd c)"
  by (simp add: entryOf_def newRef_def)

lemma creatable_entry: "creatable e fs (snd c) \<Longrightarrow> wellFormedRef (entryOf c)"
  by (auto simp: creatable_def entryOf_def dest!: truthyStr_Has)

lemma wellFormed_of_entries:
  assumes "\<forall>c\<in>set xs. creatable e fs0 (snd c)"
  shows "list_all wellFormedRef (take n (rev (map entryOf xs)))"
proof -
  have "\<forall>r\<in>set (rev (map entryOf xs)). wellFormedRef r"
    using assms creatable_entry by auto
  then have "\<forall>r\<in>set (take n (rev (map entryOf xs))). wellFormedRef r"
    using in_set_takeD by fast
  then show ?thesis by (simp add: list_all_iff)
qed

lemma filter_fresh:
  assumes "mid \<notin> set (map (\<lambda>c. mealId (snd c)) xs)" and "truthyStr mid"
  shows "filter (\<lambda>m. \<not> strictEq (ref_id m) mid) (take n (rev (map entryOf xs)))
           = take n (rev (map entryOf xs))"
proof -
  from truthyStr_Has[OF assms(2)] obtain i where i: "mid = Has i" by blast
  have "\<forall>r\<in>set (rev (map entryOf xs)). ref_id r \<noteq> mid"
    using assms(1) by auto
  then have "\<forall>r\<in>set (take n (rev (map entryOf xs))). ref_id r \<noteq> mid"
    using in_set_takeD by fast
  then show ?thesis by (simp add: filter_id_conv i)
qed

lemma oldest_dropped:
  assumes "i + 50 = length ys"
  shows "ys ! i \<in> set (drop 50 (a # take 50 (rev ys)))"
proof -
  have len: "length (take 50 (rev ys)) = 50" using assms by simp
  have "take 50 (rev ys) ! 49 = rev ys ! 49" by simp
  also have "\<dots> = ys ! (length ys - Suc 49)" using assms by (intro rev_nth) simp
  also have "\<dots> = ys ! i"
  proof -
    from assms have "length ys - Suc 49 = i" by arith
    then show ?thesis by simp
  qed
  finally have "take 50 (rev ys) ! 49 = ys ! i" .
  moreover have "take 50 (rev ys) ! 49 \<in> set (drop 49 (take 50 (rev ys)))"
    using len by (simp add: set_conv_nth)
  ultimately show ?thesis by simp
qed

lemma createAll_snoc:
  "createAll e (xs @ [c]) fs =
     (case createAll e xs fs of
        None \<Rightarrow> None
      | Some fs1 \<Rightarrow>
          (case saveMealAnalysis (e\<lparr>now := fst c\<rparr>) (snd c) fs1 of
             (Inr u, fs2) \<Rightarrow> Some fs2
           | (Inl err, fs2) \<Rightarrow> None))"
  by (induction xs arbitrary: fs) (auto split: prod.splits sum.splits option.splits)


lemma keptImages_survives:
  assumes "keptImages e fsi fs mid" and "survives e fs fs'"
  shows "keptImages e fsi fs' mid"
proof -
  from assms(1) obtain r where r: "fst (getMealById e mid fsi) = Some r"
    and i: "fs (orEmpty (imageUri r)) \<noteq> None" "\<not> isRecordPath e (orEmpty (imageUri r))"
    and a: "truthyStr (afterImageUri r) \<longrightarrow>
               fs (orEmpty (afterImageUri r)) \<noteq> None
               \<and> \<not> isRecordPath e (orEmpty (afterImageUri r))"
    unfolding keptImages_def by blast
  from i have "fs' (orEmpty (imageUri r)) \<noteq> None" by (rule survivesD[OF assms(2)])
  moreover from a have "truthyStr (afterImageUri r) \<longrightarrow>
               fs' (orEmpty (afterImageUri r)) \<noteq> None
               \<and> \<not> isRecordPath e (orEmpty (afterImageUri r))"
    using survivesD[OF assms(2)] by blast
  ultimately show ?thesis unfolding keptImages_def using r i(2) by blast
qed

lemma createAll_invariant:
  assumes empty: "indexEntries e fs0 = Some []"
  shows "distinct (map (\<lambda>c. mealId (snd c)) xs) \<Longrightarrow> (\<forall>c\<in>set xs. creatable e fs0 (snd c)) \<Longrightarrow>
     \<exists>fs. createAll e xs fs0 = Some fs
        \<and> indexEntries e fs = Some (take 50 (rev (map entryOf xs)))
        \<and> survives e fs0 fs
        \<and> (\<forall>i. i + 50 < length xs \<longrightarrow> fs (mealFile e (mealId (snd (xs ! i)))) = None)
        \<and> (\<forall>i<length xs. \<exists>fsi. createAll e (take (Suc i) xs) fs0 = Some fsi
                \<and> keptImages e fsi fs (mealId (snd (xs ! i))))"
proof (induction xs rule: rev_induct)
  case Nil
  show ?case by (simp add: empty survives_refl)
next
  case (snoc c xs)
  from snoc.prems have dist: "distinct (map (\<lambda>c. mealId (snd c)) xs)"
    and fresh: "mealId (snd c) \<notin> set (map (\<lambda>c. mealId (snd c)) xs)"
    and cr: "\<forall>c\<in>set xs. creatable e fs0 (snd c)" and crc: "creatable e fs0 (snd c)"
    by simp_all
  from snoc.IH[OF dist cr] obtain fs where
    run: "createAll e xs fs0 = Some fs" and
    idx: "indexEntries e fs = Some (take 50 (rev (map entryOf xs)))" and
    sv: "survives e fs0 fs" and
    gone: "\<forall>i. i + 50 < length xs \<longrightarrow> fs (mealFile e (mealId (snd (xs ! i)))) = None" and
    kept: "\<forall>i<length xs. \<exists>fsi. createAll e (take (Suc i) xs) fs0 = Some fsi
                \<and> keptImages e fsi fs (mealId (snd (xs ! i)))"
    by blast
  let ?e = "e\<lparr>now := fst c\<rparr>"
  from crc have tc: "truthyStr (mealId (snd c))" by (simp add: creatable_def)
  have idxe: "indexEntries ?e fs = Some (take 50 (rev (map entryOf xs)))" using idx by simp
  have wf: "list_all wellFormedRef (take 50 (rev (map entryOf xs)))"
    by (rule wellFormed_of_entries[OF cr])
  have crf: "creatable ?e fs (snd c)" using creatable_survives[OF crc sv] by simp
  from saveMealAnalysis_step[OF idxe wf crf] obtain fs' where
    save: "saveMealAnalysis ?e (snd c) fs = (Inr (), fs')" and
    idx': "indexEntries e fs' =
        Some (take 50 (newRef (mealId (snd c)) (timestamp (snd c))
                 # filter (\<lambda>m. \<not> strictEq (ref_id m) (mealId (snd c))) (take 50 (rev (map entryOf xs)))))" and
    sv': "survives e fs fs'" and
    nores: "\<forall>j. templ j \<noteq> templ (mealId (snd c)) \<and> fs (mealFile e j) = None \<longrightarrow> fs' (mealFile e j) = None" and
    evict: "\<forall>r\<in>set (drop 50 (newRef (mealId (snd c)) (timestamp (snd c))
                 # filter (\<lambda>m. \<not> strictEq (ref_id m) (mealId (snd c))) (take 50 (rev (map entryOf xs))))).
          fs' (mealFile e (ref_id r)) = None" and
    img: "keptImages e fs' fs' (mealId (snd c))"
    unfolding keptImages_def by (simp only: now_paths now_index now_survives now_isRecordPath now_getMealById) blast
  have flt: "filter (\<lambda>m. \<not> strictEq (ref_id m) (mealId (snd c))) (take 50 (rev (map entryOf xs)))
               = take 50 (rev (map entryOf xs))"
    by (rule filter_fresh[OF fresh tc])
  have 1: "createAll e (xs @ [c]) fs0 = Some fs'"
    by (simp add: createAll_snoc run save)
  have 2: "indexEntries e fs' = Some (take 50 (rev (map entryOf (xs @ [c]))))"
    unfolding idx' flt by (simp add: take_Cons_take entryOf_def)
  have 3: "survives e fs0 fs'" by (rule survives_trans[OF sv sv'])
  have 4: "\<forall>i. i + 50 < length (xs @ [c]) \<longrightarrow> fs' (mealFile e (mealId (snd ((xs @ [c]) ! i)))) = None"
  proof (intro allI impI)
    fix i assume i: "i + 50 < length (xs @ [c])"
    then have il: "i < length xs" by simp
    then have nth: "(xs @ [c]) ! i = xs ! i" by (simp add: nth_append)
    have mem: "xs ! i \<in> set xs" using il by simp
    with cr have "truthyStr (mealId (snd (xs ! i)))" by (simp add: creatable_def)
    from truthyStr_Has[OF this] obtain a where a: "mealId (snd (xs ! i)) = Has a" by blast
    from truthyStr_Has[OF tc] obtain b where b: "mealId (snd c) = Has b" by blast
    have ne: "mealId (snd (xs ! i)) \<noteq> mealId (snd c)"
    proof
      assume eq: "mealId (snd (xs ! i)) = mealId (snd c)"
      from mem have "mealId (snd (xs ! i)) \<in> (\<lambda>c. mealId (snd c)) ` set xs" by (rule imageI)
      with eq fresh show False by simp
    qed
    then have ne': "templ (mealId (snd (xs ! i))) \<noteq> templ (mealId (snd c))"
      by (simp add: a b)
    show "fs' (mealFile e (mealId (snd ((xs @ [c]) ! i)))) = None"
    proof (cases "i + 50 < length xs")
      case True
      with gone have "fs (mealFile e (mealId (snd (xs ! i)))) = None" by simp
      with ne' nores show ?thesis unfolding nth by simp
    next
      case False
      with i have eq: "i + 50 = length (map entryOf xs)" by simp
      have "map entryOf xs ! i \<in> set (drop 50 (newRef (mealId (snd c)) (timestamp (snd c))
                 # take 50 (rev (map entryOf xs))))"
        by (rule oldest_dropped[OF eq])
      then have "entryOf (xs ! i) \<in> set (drop 50 (newRef (mealId (snd c)) (timestamp (snd c))
                 # filter (\<lambda>m. \<not> strictEq (ref_id m) (mealId (snd c))) (take 50 (rev (map entryOf xs)))))"
        unfolding flt using il by simp
      with evict have "fs' (mealFile e (ref_id (entryOf (xs ! i)))) = None" by blast
      then show ?thesis unfolding nth by simp
    qed
  qed
  have 5: "\<forall>i<length (xs @ [c]). \<exists>fsi. createAll e (take (Suc i) (xs @ [c])) fs0 = Some fsi
                \<and> keptImages e fsi fs' (mealId (snd ((xs @ [c]) ! i)))"
  proof (intro allI impI)
    fix i assume i: "i < length (xs @ [c])"
    show "\<exists>fsi. createAll e (take (Suc i) (xs @ [c])) fs0 = Some fsi
                \<and> keptImages e fsi fs' (mealId (snd ((xs @ [c]) ! i)))"
    proof (cases "i < length xs")
      case True
      with kept obtain fsi where a: "createAll e (take (Suc i) xs) fs0 = Some fsi"
        and b: "keptImages e fsi fs (mealId (snd (xs ! i)))" by blast
      from True have "take (Suc i) (xs @ [c]) = take (Suc i) xs" "(xs @ [c]) ! i = xs ! i"
        by (simp_all add: nth_append)
      with a keptImages_survives[OF b sv'] show ?thesis by auto
    next
      case False
      with i have "i = length xs" by simp
      then have "take (Suc i) (xs @ [c]) = xs @ [c]" "(xs @ [c]) ! i = c" by simp_all
      with 1 img show ?thesis by auto
    qed
  qed
  show ?case
  proof (intro exI[of _ fs'] conjI)
    show "createAll e (xs @ [c]) fs0 = Some fs'" by (rule 1)
  qed (rule 2 3 4 5)+
qed


text \<open>
  Claim C1. Start from a store whose index is empty (the index file is absent, unreadable
  or holds an index without entries) and save \<open>50 + k\<close> meals with distinct ids, each
  passing the validation and each with images that exist and are not record files. Every
  call succeeds. The index then has exactly 50 entries, those of the 50 meals saved last,
  the newest first. For each of the \<open>k\<close> meals saved first, \<^verbatim>\<open>getMealById\<close> returns null,
  while the image and the after image that its record named when it was saved still
  exist.
\<close>

theorem saveMealAnalysis_retention_cap:
  assumes empty: "indexEntries e fs0 = Some []"
    and dist: "distinct (map (\<lambda>c. mealId (snd c)) xs)"
    and cr: "\<forall>c\<in>set xs. creatable e fs0 (snd c)"
    and len: "length xs = 50 + k"
  shows "\<exists>fs refs. createAll e xs fs0 = Some fs
      \<and> indexEntries e fs = Some refs
      \<and> length refs = 50
      \<and> map ref_id refs = rev (map (\<lambda>c. mealId (snd c)) (drop k xs))
      \<and> (\<forall>i<k. fst (getMealById e (mealId (snd (xs ! i))) fs) = None
             \<and> (\<exists>fsi. createAll e (take (Suc i) xs) fs0 = Some fsi
                   \<and> keptImages e fsi fs (mealId (snd (xs ! i)))))"
proof -
  from createAll_invariant[OF empty dist cr] obtain fs where
    run: "createAll e xs fs0 = Some fs" and
    idx: "indexEntries e fs = Some (take 50 (rev (map entryOf xs)))" and
    gone: "\<forall>i. i + 50 < length xs \<longrightarrow> fs (mealFile e (mealId (snd (xs ! i)))) = None" and
    kept: "\<forall>i<length xs. \<exists>fsi. createAll e (take (Suc i) xs) fs0 = Some fsi
                \<and> keptImages e fsi fs (mealId (snd (xs ! i)))"
    by blast
  let ?refs = "take 50 (rev (map entryOf xs))"
  have 2: "length ?refs = 50" by (simp add: len)
  have "map ref_id (take 50 (rev (map entryOf xs))) = take 50 (rev (map (\<lambda>c. mealId (snd c)) xs))"
    by (simp add: take_map rev_map comp_def)
  also have "\<dots> = rev (drop (length xs - 50) (map (\<lambda>c. mealId (snd c)) xs))"
    by (simp add: take_rev)
  also have "\<dots> = rev (map (\<lambda>c. mealId (snd c)) (drop k xs))"
    by (simp add: len drop_map)
  finally have 3: "map ref_id ?refs = rev (map (\<lambda>c. mealId (snd c)) (drop k xs))" .
  have 4: "\<forall>i<k. fst (getMealById e (mealId (snd (xs ! i))) fs) = None
             \<and> (\<exists>fsi. createAll e (take (Suc i) xs) fs0 = Some fsi
                   \<and> keptImages e fsi fs (mealId (snd (xs ! i))))"
  proof (intro allI impI conjI)
    fix i assume i: "i < k"
    then have "i + 50 < length xs" by (simp add: len)
    with gone have "fs (mealFile e (mealId (snd (xs ! i)))) = None" by simp
    then show "fst (getMealById e (mealId (snd (xs ! i))) fs) = None" by (rule getMealById_None)
    from i have "i < length xs" by (simp add: len)
    with kept show "\<exists>fsi. createAll e (take (Suc i) xs) fs0 = Some fsi
                   \<and> keptImages e fsi fs (mealId (snd (xs ! i)))" by simp
  qed
  show ?thesis
  proof (intro exI[of _ fs] exI[of _ ?refs] conjI)
    show "createAll e xs fs0 = Some fs" by (rule run)
  qed (rule idx 2 3 4)+
qed

text \<open>The theorem at fifty-one photographed meals saved into an empty store.\<close>

theorem saveMealAnalysis_retention_cap_witness:
  "\<exists>fs refs. createAll testEnv fiftyOneMeals cameraRoll = Some fs
      \<and> indexEntries testEnv fs = Some refs
      \<and> length refs = 50
      \<and> fst (getMealById testEnv (Has ''m'') fs) = None
      \<and> (\<exists>fsi. createAll testEnv (take 1 fiftyOneMeals) cameraRoll = Some fsi
            \<and> keptImages testEnv fsi fs (Has ''m''))"
proof -
  have empty: "indexEntries testEnv cameraRoll = Some []"
    by (simp add: indexEntries_def readIndex_def cameraRoll_def indexFile_def testEnv_def)
  have dist: "distinct (map (\<lambda>c. mealId (snd c)) fiftyOneMeals)"
    by (simp add: fiftyOneMeals_def distinct_map comp_def inj_on_def)
  have cr: "\<forall>c\<in>set fiftyOneMeals. creatable testEnv cameraRoll (snd c)"
    by (simp add: fiftyOneMeals_def creatable_def photoMeal_def cameraRoll_def isRecordPath_def
          startsWith_def mealsDir_def testEnv_def)
  have len: "length fiftyOneMeals = 50 + 1" by (simp add: fiftyOneMeals_def)
  have first: "mealId (snd (fiftyOneMeals ! 0)) = Has ''m''"
    by (simp add: fiftyOneMeals_def upt_rec)
  from saveMealAnalysis_retention_cap[OF empty dist cr len] first
  show ?thesis by auto
qed

section \<open>Properties of the analysis pipeline\<close>

subsection \<open>Expiry\<close>

lemma updateMealAnalysisError_eq:
  assumes "readMeal (mealFile e mid) fs = Inr existing"
  shows "updateMealAnalysisError e mid fs =
     (Inr (), writeMeal (mealFile e mid)
                (existing\<lparr>isLoading := Has False, hasError := Has True\<rparr>)
                (initializeStorage e fs))"
  using assms by (simp add: updateMealAnalysisError_def Let_def)

lemma updateMealAnalysisError_fails:
  assumes "readMeal (mealFile e mid) fs = Inl err"
  shows "updateMealAnalysisError e mid fs = (Inl err, initializeStorage e fs)"
  using assms by (simp add: updateMealAnalysisError_def Let_def)

lemma markErrorAndNotify_stored:
  assumes "readMeal (mealFile e (mealId meal)) (files w) = Inr existing"
  shows "markErrorAndNotify e meal w =
     (None, w\<lparr>files := writeMeal (mealFile e (mealId meal))
                          (existing\<lparr>isLoading := Has False, hasError := Has True\<rparr>)
                          (initializeStorage e (files w)),
               emitted := emitted w @
                 [MealUpdated (meal\<lparr>isLoading := Has False, hasError := Has True\<rparr>)]\<rparr>)"
  by (simp add: markErrorAndNotify_def updateMealAnalysisError_eq[OF assms])

lemma markErrorAndNotify_frame:
  "inferenceCalls (snd (markErrorAndNotify e meal w)) = inferenceCalls w"
  "health (snd (markErrorAndNotify e meal w)) = health w"
  by (cases "readMeal (mealFile e (mealId meal)) (files w)";
      simp add: markErrorAndNotify_def updateMealAnalysisError_eq updateMealAnalysisError_fails)+

lemma processMeal_expired:
  assumes "isExpired e meal"
  shows "processMeal e g h meal w =
     (case markErrorAndNotify e meal w of
        (None, w1) \<Rightarrow> (None, w1)
      | (Some err, w1) \<Rightarrow> (None, snd (markErrorAndNotify e meal w1)))"
  using assms
  by (simp add: processMeal_def processMeal_try_def split: prod.splits option.splits)

lemma isExpired_iff:
  "isExpired e meal = (\<exists>t. timeOf e (timestamp meal) = Some t \<and> now e - t > 24 * 60 * 60 * 1000)"
  by (simp add: isExpired_def MEAL_TIMEOUT_MS_def split: option.splits)

lemma processMeal_expired_record:
  assumes "isExpired e meal"
    and "readMeal (mealFile e (mealId meal)) (files w) = Inr existing"
  shows "fst (getMealById e (mealId meal) (files (snd (processMeal e g h meal w))))
            = Some (stringifyMeal (existing\<lparr>isLoading := Has False, hasError := Has True\<rparr>))"
    and "emitted (snd (processMeal e g h meal w)) = emitted w @
               [MealUpdated (meal\<lparr>isLoading := Has False, hasError := Has True\<rparr>)]"
  by (simp_all add: processMeal_expired[OF assms(1)] markErrorAndNotify_stored[OF assms(2)]
        getMealById_readMeal)

text \<open>
  Claim C7. When the time stamp of the meal lies more than 24 hours before the current
  time, \<^verbatim>\<open>processMeal\<close> returns without an exception and without a call of the inference
  collaborator or a change of the sync bridge; and when the record of the meal is stored,
  it is afterwards the stored record with \<open>isLoading = false\<close> and \<open>hasError = true\<close>,
  written by \<^verbatim>\<open>updateMealAnalysisError\<close>, and the update is announced.
\<close>

theorem processMeal_expired_marks_error:
  assumes "timeOf e (timestamp meal) = Some t" and "now e - t > 24 * 60 * 60 * 1000"
  shows "fst (processMeal e g h meal w) = None
    \<and> inferenceCalls (snd (processMeal e g h meal w)) = inferenceCalls w
    \<and> health (snd (processMeal e g h meal w)) = health w
    \<and> (\<forall>existing. readMeal (mealFile e (mealId meal)) (files w) = Inr existing \<longrightarrow>
          fst (getMealById e (mealId meal) (files (snd (processMeal e g h meal w))))
            = Some (stringifyMeal (existing\<lparr>isLoading := Has False, hasError := Has True\<rparr>))
          \<and> emitted (snd (processMeal e g h meal w)) = emitted w @
               [MealUpdated (meal\<lparr>isLoading := Has False, hasError := Has True\<rparr>)])"
proof -
  from assms have ex: "isExpired e meal" by (auto simp: isExpired_iff)
  note pm = processMeal_expired[OF ex, of g h w]
  have 1: "fst (processMeal e g h meal w) = None"
    by (simp add: pm split: prod.splits option.splits)
  have 2: "inferenceCalls (snd (processMeal e g h meal w)) = inferenceCalls w"
    using markErrorAndNotify_frame(1)[of e meal w]
          markErrorAndNotify_frame(1)[of e meal "snd (markErrorAndNotify e meal w)"]
    by (auto simp: pm split: prod.splits option.splits)
  have 3: "health (snd (processMeal e g h meal w)) = health w"
    using markErrorAndNotify_frame(2)[of e meal w]
          markErrorAndNotify_frame(2)[of e meal "snd (markErrorAndNotify e meal w)"]
    by (auto simp: pm split: prod.splits option.splits)
  have 4: "\<forall>existing. readMeal (mealFile e (mealId meal)) (files w) = Inr existing \<longrightarrow>
          fst (getMealById e (mealId meal) (files (snd (processMeal e g h meal w))))
            = Some (stringifyMeal (existing\<lparr>isLoading := Has False, hasError := Has True\<rparr>))
          \<and> emitted (snd (processMeal e g h meal w)) = emitted w @
               [MealUpdated (meal\<lparr>isLoading := Has False, hasError := Has True\<rparr>)]"
    using processMeal_expired_record[OF ex] by blast
  from 1 2 3 4 show ?thesis by (intro conjI)
qed


text \<open>The theorem at a stored pending meal that is 25 hours old.\<close>

theorem processMeal_expired_marks_error_witness:
  "inferenceCalls (snd (processMeal historyEnv failingGemini noHealthConnect staleMeal staleWorld)) = []
   \<and> fst (getMealById historyEnv (Has ''t-25h'')
            (files (snd (processMeal historyEnv failingGemini noHealthConnect staleMeal staleWorld))))
       = Some (staleMeal\<lparr>isLoading := Has False, hasError := Has True\<rparr>)"
proof -
  have a: "timeOf historyEnv (timestamp staleMeal) = Some 1714651200000"
    by (simp add: historyEnv_def staleMeal_def historyMeal_def)
  have b: "now historyEnv - 1714651200000 > 24 * 60 * 60 * 1000"
    by (simp add: historyEnv_def)
  have c: "readMeal (mealFile historyEnv (mealId staleMeal)) (files staleWorld) = Inr staleMeal"
    by (simp add: readMeal_def staleWorld_def staleMeal_def historyMeal_def)
  have d: "stringifyMeal (staleMeal\<lparr>isLoading := Has False, hasError := Has True\<rparr>)
             = staleMeal\<lparr>isLoading := Has False, hasError := Has True\<rparr>"
    by (simp add: stringifyMeal_def staleMeal_def historyMeal_def)
  have e: "mealId staleMeal = Has ''t-25h''" "inferenceCalls staleWorld = []"
    by (simp_all add: staleMeal_def historyMeal_def staleWorld_def)
  from processMeal_expired_marks_error[OF a b, of failingGemini noHealthConnect staleWorld] c d e
  show ?thesis by simp
qed

subsection \<open>Failures are absorbed\<close>

lemma holdsMeal_readMeal: "holdsMeal fs p = (\<exists>m. readMeal p fs = Inr m)"
  by (auto simp: holdsMeal_def split: sum.splits)

lemma holdsMeal_cong: "fs' p = fs p \<Longrightarrow> holdsMeal fs' p = holdsMeal fs p"
  by (simp add: holdsMeal_def readMeal_def)

lemma holdsMeal_init [simp]:
  "holdsMeal (initializeStorage e fs) (mealFile e i) = holdsMeal fs (mealFile e i)"
  by (simp add: holdsMeal_def)

lemma holdsMeal_writeMeal: "holdsMeal fs p \<Longrightarrow> holdsMeal (writeMeal q m fs) p"
  by (simp add: holdsMeal_def readMeal_def writeMeal_def)

lemma syncIndexEntry_other:
  "syncIndexEntry e mid ts fs = Inr fs' \<Longrightarrow> p \<noteq> indexFile e \<Longrightarrow> fs' p = fs p"
  by (auto simp: syncIndexEntry_def Let_def split: sum.splits)

text \<open>What \<^verbatim>\<open>updateMealAnalysis\<close> and \<^verbatim>\<open>updateMealAnalysisError\<close> leave of the record
  files: a readable record stays readable, and the record of another id stays as it
  is.\<close>

lemma updateMealAnalysis_files:
  obtains (unread) "snd (updateMealAnalysis e mid meal fs) = initializeStorage e fs"
  | (written) m where "\<forall>p. p \<noteq> indexFile e \<longrightarrow>
        snd (updateMealAnalysis e mid meal fs) p = writeMeal (mealFile e mid) m (initializeStorage e fs) p"
proof (cases "readMeal (mealFile e mid) (initializeStorage e fs)")
  case (Inl err)
  then have "snd (updateMealAnalysis e mid meal fs) = initializeStorage e fs"
    by (simp add: updateMealAnalysis_def Let_def del: readMeal_init)
  then show ?thesis by (rule unread)
next
  case (Inr existing)
  let ?fs2 = "writeMeal (mealFile e mid) (mergeMeal existing meal) (initializeStorage e fs)"
  have "\<forall>p. p \<noteq> indexFile e \<longrightarrow> snd (updateMealAnalysis e mid meal fs) p = ?fs2 p"
  proof (cases "syncIndexEntry e mid (timestamp (mergeMeal existing meal)) ?fs2")
    case (Inl err)
    with Inr show ?thesis by (simp add: updateMealAnalysis_def Let_def del: readMeal_init)
  next
    case r: (Inr fs3)
    with Inr have "snd (updateMealAnalysis e mid meal fs) = fs3"
      by (simp add: updateMealAnalysis_def Let_def del: readMeal_init)
    with syncIndexEntry_other[OF r] show ?thesis by simp
  qed
  then show ?thesis by (rule written)
qed

lemma updateMealAnalysis_keeps:
  assumes "holdsMeal fs (mealFile e i)"
  shows "holdsMeal (snd (updateMealAnalysis e mid meal fs)) (mealFile e i)"
proof (cases rule: updateMealAnalysis_files[of e mid meal fs])
  case unread
  with assms show ?thesis by simp
next
  case (written m)
  then have "snd (updateMealAnalysis e mid meal fs) (mealFile e i)
      = writeMeal (mealFile e mid) m (initializeStorage e fs) (mealFile e i)" by simp
  from holdsMeal_cong[where p = "mealFile e i" and fs' = "snd (updateMealAnalysis e mid meal fs)"
         and fs = "writeMeal (mealFile e mid) m (initializeStorage e fs)", OF this] assms
  show ?thesis by (simp add: holdsMeal_writeMeal)
qed

lemma updateMealAnalysis_other:
  assumes "templ j \<noteq> templ mid"
  shows "snd (updateMealAnalysis e mid meal fs) (mealFile e j) = fs (mealFile e j)"
proof (cases rule: updateMealAnalysis_files[of e mid meal fs])
  case unread
  then show ?thesis by simp
next
  case (written m)
  then have "snd (updateMealAnalysis e mid meal fs) (mealFile e j)
      = writeMeal (mealFile e mid) m (initializeStorage e fs) (mealFile e j)" by simp
  with assms show ?thesis by (simp add: writeMeal_def)
qed

lemma updateMealAnalysisError_keeps:
  assumes "holdsMeal fs (mealFile e i)"
  shows "holdsMeal (snd (updateMealAnalysisError e mid fs)) (mealFile e i)"
  using assms
  by (cases "readMeal (mealFile e mid) (initializeStorage e fs)")
     (simp_all add: updateMealAnalysisError_def Let_def holdsMeal_writeMeal del: readMeal_init)

lemma updateMealAnalysisError_other:
  assumes "templ j \<noteq> templ mid"
  shows "snd (updateMealAnalysisError e mid fs) (mealFile e j) = fs (mealFile e j)"
  using assms
  by (cases "readMeal (mealFile e mid) (initializeStorage e fs)")
     (simp_all add: updateMealAnalysisError_def Let_def writeMeal_def del: readMeal_init)

lemma markErrorAndNotify_files:
  "files (snd (markErrorAndNotify e meal w)) = snd (updateMealAnalysisError e (mealId meal) (files w))"
  by (simp add: markErrorAndNotify_def split: prod.splits sum.splits)

lemma processMeal_retry_files:
  "files (snd (processMeal_retry e meal w)) =
     (if truthyBool (hasError meal)
      then snd (updateMealAnalysis e (mealId meal)
                  (meal\<lparr>isLoading := Has True, hasError := Has False\<rparr>) (files w))
      else files w)"
  by (simp add: processMeal_retry_def Let_def split: prod.splits sum.splits)

lemma callGemini_files: "files (snd (callGemini g r w)) = files w"
  by (simp add: callGemini_def)

lemma processMeal_analyze_files: "files (snd (processMeal_analyze g meal w)) = files w"
  by (simp add: processMeal_analyze_def callGemini_files split: sum.splits)

lemma processMeal_complete_files:
  "files (snd (processMeal_complete e h meal a w)) =
     snd (updateMealAnalysis e (mealId meal)
            (meal\<lparr>analysis := Has (Some a), isLoading := Has False, hasError := Has False\<rparr>) (files w))"
  by (simp add: processMeal_complete_def Let_def split: prod.splits sum.splits)

text \<open>A property of the files that the two updates of the store keep is kept by the
  \<^verbatim>\<open>try\<close> block and by \<^verbatim>\<open>processMeal\<close>.\<close>

lemma processMeal_try_preserves:
  assumes u: "\<And>m fs. Q fs \<Longrightarrow> Q (snd (updateMealAnalysis e (mealId meal) m fs))"
    and ue: "\<And>fs. Q fs \<Longrightarrow> Q (snd (updateMealAnalysisError e (mealId meal) fs))"
    and q: "Q (files w)"
  shows "Q (files (snd (processMeal_try e g h meal w)))"
proof (cases "isExpired e meal")
  case True
  then show ?thesis
    using q by (simp add: processMeal_try_def markErrorAndNotify_files ue)
next
  case False
  obtain r1 w1 where s1: "processMeal_retry e meal w = (r1, w1)"
    by (cases "processMeal_retry e meal w") auto
  have k1: "Q (files w1)"
    using processMeal_retry_files[of e meal w] q s1
    by (simp add: u split: if_splits)
  show ?thesis
  proof (cases r1)
    case (Some err)
    with False s1 k1 show ?thesis by (simp add: processMeal_try_def)
  next
    case None
    obtain r2 w2 where s2: "processMeal_analyze g meal w1 = (r2, w2)"
      by (cases "processMeal_analyze g meal w1") auto
    have k2: "Q (files w2)"
      using processMeal_analyze_files[of g meal w1] k1 s2 by simp
    show ?thesis
    proof (cases r2)
      case (Inl err)
      with False s1 None s2 k2 show ?thesis by (simp add: processMeal_try_def)
    next
      case (Inr a)
      with False s1 None s2 have "processMeal_try e g h meal w = processMeal_complete e h meal a w2"
        by (simp add: processMeal_try_def)
      with k2 show ?thesis
        by (simp add: processMeal_complete_files u)
    qed
  qed
qed

lemma processMeal_files:
  "files (snd (processMeal e g h meal w)) = files (snd (processMeal_try e g h meal w))
   \<or> files (snd (processMeal e g h meal w)) =
       snd (updateMealAnalysisError e (mealId meal) (files (snd (processMeal_try e g h meal w))))"
proof (cases "processMeal_try e g h meal w")
  case (Pair r w1)
  show ?thesis
  proof (cases r)
    case None
    with Pair show ?thesis by (simp add: processMeal_def)
  next
    case (Some err)
    have "files (snd (processMeal e g h meal w)) = files (snd (markErrorAndNotify e meal w1))"
      by (simp add: processMeal_def Pair Some split: prod.splits option.splits)
    then show ?thesis by (simp add: markErrorAndNotify_files Pair)
  qed
qed

lemma processMeal_preserves:
  assumes u: "\<And>m fs. Q fs \<Longrightarrow> Q (snd (updateMealAnalysis e (mealId meal) m fs))"
    and ue: "\<And>fs. Q fs \<Longrightarrow> Q (snd (updateMealAnalysisError e (mealId meal) fs))"
    and q: "Q (files w)"
  shows "Q (files (snd (processMeal e g h meal w)))"
proof -
  have t: "Q (files (snd (processMeal_try e g h meal w)))"
    by (rule processMeal_try_preserves[of Q, OF u ue q])
  from processMeal_files[of e g h meal w] show ?thesis
  proof
    assume "files (snd (processMeal e g h meal w)) = files (snd (processMeal_try e g h meal w))"
    with t show ?thesis by simp
  next
    assume "files (snd (processMeal e g h meal w)) =
       snd (updateMealAnalysisError e (mealId meal) (files (snd (processMeal_try e g h meal w))))"
    with ue[OF t] show ?thesis by simp
  qed
qed

lemma processMeal_try_keeps:
  assumes "holdsMeal (files w) (mealFile e i)"
  shows "holdsMeal (files (snd (processMeal_try e g h meal w))) (mealFile e i)"
  by (rule processMeal_try_preserves[of "\<lambda>fs. holdsMeal fs (mealFile e i)",
        OF updateMealAnalysis_keeps updateMealAnalysisError_keeps assms])

lemma processMeal_keeps:
  assumes "holdsMeal (files w) (mealFile e i)"
  shows "holdsMeal (files (snd (processMeal e g h meal w))) (mealFile e i)"
  by (rule processMeal_preserves[of "\<lambda>fs. holdsMeal fs (mealFile e i)",
        OF updateMealAnalysis_keeps updateMealAnalysisError_keeps assms])

lemma processMeal_other:
  assumes "templ j \<noteq> templ (mealId meal)"
  shows "files (snd (processMeal e g h meal w)) (mealFile e j) = files w (mealFile e j)"
proof (rule processMeal_preserves[of "\<lambda>fs. fs (mealFile e j) = files w (mealFile e j)"])
  fix m fs assume "fs (mealFile e j) = files w (mealFile e j)"
  then show "snd (updateMealAnalysis e (mealId meal) m fs) (mealFile e j) = files w (mealFile e j)"
    by (simp add: updateMealAnalysis_other[OF assms])
next
  fix fs assume "fs (mealFile e j) = files w (mealFile e j)"
  then show "snd (updateMealAnalysisError e (mealId meal) fs) (mealFile e j) = files w (mealFile e j)"
    by (simp add: updateMealAnalysisError_other[OF assms])
next
  show "files w (mealFile e j) = files w (mealFile e j)" by (rule refl)
qed

lemma processMeal_never_throws: "fst (processMeal e g h meal w) = None"
  by (simp add: processMeal_def split: prod.splits option.splits)

lemma processMeal_failure_marks_error:
  assumes stored: "holdsMeal (files w) (mealFile e (mealId meal))"
    and failed: "fst (processMeal_try e g h meal w) = Some err"
  shows "\<exists>r. fst (getMealById e (mealId meal) (files (snd (processMeal e g h meal w)))) = Some r
            \<and> isLoading r = Has False \<and> hasError r = Has True"
proof -
  obtain w1 where t: "processMeal_try e g h meal w = (Some err, w1)"
    using failed by (cases "processMeal_try e g h meal w") auto
  from processMeal_try_keeps[OF stored, of g h meal] t
  obtain m where m: "readMeal (mealFile e (mealId meal)) (files w1) = Inr m"
    by (auto simp: holdsMeal_readMeal)
  show ?thesis
    by (simp add: processMeal_def t markErrorAndNotify_stored[OF m] getMealById_readMeal
          stringifyMeal_def)
qed

text \<open>With a collaborator that fails every call the inference step fails, so the
  \<^verbatim>\<open>try\<close> block fails unless the meal has expired; either way a stored record ends
  marked.\<close>

lemma processMeal_analyze_fails:
  assumes "\<forall>n r. \<exists>err. g n r = Inl err"
  shows "\<exists>err. fst (processMeal_analyze g meal w) = Inl err"
proof -
  have c: "\<And>r. \<exists>err. fst (callGemini g r w) = Inl err"
    using assms by (simp add: callGemini_def)
  show ?thesis
    using c by (auto simp: processMeal_analyze_def split: sum.splits)
qed

lemma processMeal_try_fails:
  assumes "\<forall>n r. \<exists>err. g n r = Inl err" and "\<not> isExpired e meal"
  shows "\<exists>err. fst (processMeal_try e g h meal w) = Some err"
proof -
  obtain r1 w1 where s1: "processMeal_retry e meal w = (r1, w1)"
    by (cases "processMeal_retry e meal w") auto
  show ?thesis
  proof (cases r1)
    case (Some err)
    with assms(2) s1 show ?thesis by (simp add: processMeal_try_def)
  next
    case None
    from processMeal_analyze_fails[OF assms(1), of meal w1] obtain err
      where a: "fst (processMeal_analyze g meal w1) = Inl err" by blast
    then obtain w2 where "processMeal_analyze g meal w1 = (Inl err, w2)"
      by (cases "processMeal_analyze g meal w1") auto
    with assms(2) s1 None show ?thesis by (simp add: processMeal_try_def)
  qed
qed

lemma processMeal_marks_error:
  assumes failing: "\<forall>n r. \<exists>err. g n r = Inl err"
    and stored: "holdsMeal (files w) (mealFile e (mealId meal))"
  shows "\<exists>r. fst (getMealById e (mealId meal) (files (snd (processMeal e g h meal w)))) = Some r
            \<and> isLoading r = Has False \<and> hasError r = Has True"
proof (cases "isExpired e meal")
  case True
  from stored obtain existing
    where "readMeal (mealFile e (mealId meal)) (files w) = Inr existing"
    by (auto simp: holdsMeal_readMeal)
  from processMeal_expired_record(1)[OF True this] show ?thesis
    by (simp add: stringifyMeal_def)
next
  case False
  from processMeal_try_fails[OF failing False] obtain err
    where "fst (processMeal_try e g h meal w) = Some err" by blast
  with stored show ?thesis by (rule processMeal_failure_marks_error)
qed

lemma processMeal_keeps_mark:
  assumes failing: "\<forall>n r. \<exists>err. g n r = Inl err"
    and marked: "\<exists>r. fst (getMealById e j (files w)) = Some r
            \<and> isLoading r = Has False \<and> hasError r = Has True"
  shows "\<exists>r. fst (getMealById e j (files (snd (processMeal e g h meal w)))) = Some r
            \<and> isLoading r = Has False \<and> hasError r = Has True"
proof (cases "templ j = templ (mealId meal)")
  case True
  then have p: "mealFile e j = mealFile e (mealId meal)" by simp
  from marked have "holdsMeal (files w) (mealFile e j)"
    by (auto simp: holdsMeal_readMeal getMealById_readMeal split: sum.splits)
  then have "holdsMeal (files w) (mealFile e (mealId meal))" by (simp only: p)
  from processMeal_marks_error[OF failing this, of h] show ?thesis
    by (simp add: getMealById_readMeal p)
next
  case False
  from getMealById_cong[where e = e and i = j and fs = "files w"
         and fs' = "files (snd (processMeal e g h meal w))",
         OF processMeal_other[OF False, of e g h w]] marked
  show ?thesis by simp
qed

lemma resumeLoop_never_throws: "fst (resumeLoop e clock g hs k toRetry w) = None"
  by (induction toRetry arbitrary: k w) (auto split: prod.splits option.splits)

lemma resumePending_never_throws: "fst (resumePending e clock g hs w) = None"
  by (simp add: resumePending_def resumeLoop_never_throws split: prod.splits)

lemma resumeLoop_continues:
  "resumeLoop e clock g hs k (meal # rest) w =
     resumeLoop e clock g hs (Suc k) rest (snd (processMeal (e\<lparr>now := clock k\<rparr>) g (hs k) meal w))"
  by (simp split: prod.splits option.splits)

lemma resumeLoop_keeps_mark:
  assumes failing: "\<forall>n r. \<exists>err. g n r = Inl err"
  shows "\<exists>r. fst (getMealById e j (files w)) = Some r
            \<and> isLoading r = Has False \<and> hasError r = Has True \<Longrightarrow>
     \<exists>r. fst (getMealById e j (files (snd (resumeLoop e clock g hs k toRetry w)))) = Some r
            \<and> isLoading r = Has False \<and> hasError r = Has True"
proof (induction toRetry arbitrary: k w)
  case Nil
  then show ?case by simp
next
  case (Cons meal rest)
  from Cons.prems have "\<exists>r. fst (getMealById (e\<lparr>now := clock k\<rparr>) j (files w)) = Some r
            \<and> isLoading r = Has False \<and> hasError r = Has True"
    by (simp add: getMealById_readMeal)
  from processMeal_keeps_mark[OF failing this, of "hs k" meal]
  have "\<exists>r. fst (getMealById e j
                (files (snd (processMeal (e\<lparr>now := clock k\<rparr>) g (hs k) meal w)))) = Some r
            \<and> isLoading r = Has False \<and> hasError r = Has True"
    by (simp add: getMealById_readMeal)
  from Cons.IH[OF this] show ?case by (simp only: resumeLoop_continues)
qed

lemma resumeLoop_marks_error:
  assumes failing: "\<forall>n r. \<exists>err. g n r = Inl err"
  shows "m \<in> set toRetry \<Longrightarrow> holdsMeal (files w) (mealFile e (mealId m)) \<Longrightarrow>
     \<exists>r. fst (getMealById e (mealId m) (files (snd (resumeLoop e clock g hs k toRetry w)))) = Some r
            \<and> isLoading r = Has False \<and> hasError r = Has True"
proof (induction toRetry arbitrary: k w)
  case Nil
  then show ?case by simp
next
  case (Cons meal rest)
  let ?w1 = "snd (processMeal (e\<lparr>now := clock k\<rparr>) g (hs k) meal w)"
  show ?case
  proof (cases "m = meal")
    case True
    from Cons.prems(2) have "holdsMeal (files w) (mealFile (e\<lparr>now := clock k\<rparr>) (mealId meal))"
      by (simp add: True)
    from processMeal_marks_error[OF failing this, of "hs k"]
    have "\<exists>r. fst (getMealById e (mealId m) (files ?w1)) = Some r
            \<and> isLoading r = Has False \<and> hasError r = Has True"
      by (simp add: getMealById_readMeal True)
    from resumeLoop_keeps_mark[OF failing this] show ?thesis
      by (simp only: resumeLoop_continues)
  next
    case False
    with Cons.prems(1) have mem: "m \<in> set rest" by simp
    from Cons.prems(2) have "holdsMeal (files w) (mealFile (e\<lparr>now := clock k\<rparr>) (mealId m))"
      by simp
    from processMeal_keeps[OF this, of g "hs k" meal]
    have "holdsMeal (files ?w1) (mealFile e (mealId m))" by simp
    from Cons.IH[OF mem this] show ?thesis by (simp only: resumeLoop_continues)
  qed
qed

lemma resumePending_marks_error:
  assumes failing: "\<forall>n r. \<exists>err. g n r = Inl err"
    and listed: "m \<in> set (fst (getMealHistory e (files w)))"
    and retry: "truthyBool (isLoading m) \<or> truthyBool (hasError m)"
    and stored: "holdsMeal (files w) (mealFile e (mealId m))"
  shows "\<exists>r. fst (getMealById e (mealId m) (files (snd (resumePending e clock g hs w)))) = Some r
            \<and> isLoading r = Has False \<and> hasError r = Has True"
proof -
  obtain history fs1 where h: "getMealHistory e (files w) = (history, fs1)"
    by (cases "getMealHistory e (files w)") auto
  have fs1: "fs1 = initializeStorage e (files w)"
    using h by (auto simp: getMealHistory_def Let_def split: sum.splits)
  let ?toRetry = "filter (\<lambda>m. truthyBool (isLoading m) \<or> truthyBool (hasError m)) history"
  from listed retry h have mem: "m \<in> set ?toRetry" by simp
  from stored have st: "holdsMeal (files (w\<lparr>files := fs1\<rparr>)) (mealFile e (mealId m))"
    by (simp add: fs1)
  from resumeLoop_marks_error[OF failing mem st, of clock hs 0] show ?thesis
    by (simp add: resumePending_def h Let_def)
qed


text \<open>
  Claim C8. No exception leaves \<^verbatim>\<open>processMeal\<close>, whatever the collaborator, the bridge
  and the file system do. When the \<^verbatim>\<open>try\<close> block fails and the record of the meal is
  stored, the record is afterwards marked \<open>hasError = true\<close>, \<open>isLoading = false\<close>. For a
  meal that has not expired, fresh or retried, a failure of the retry write is a failure
  of the block, and so is a failure of the inference step that follows it (a failing
  collaborator, an unreadable image, no image and no comment). With a collaborator that
  fails every call, every stored record that is processed ends marked. No exception
  leaves \<^verbatim>\<open>resumePending\<close>, and with a collaborator that fails every call every listed
  record that is loading or failed, and stored under its own id, ends marked: the loop
  goes on after each failure.
\<close>

theorem processMeal_absorbs_failures:
  "fst (processMeal e g h meal w) = None
   \<and> (\<forall>err. holdsMeal (files w) (mealFile e (mealId meal))
         \<and> fst (processMeal_try e g h meal w) = Some err \<longrightarrow>
         (\<exists>r. fst (getMealById e (mealId meal) (files (snd (processMeal e g h meal w)))) = Some r
             \<and> isLoading r = Has False \<and> hasError r = Has True))
   \<and> (\<forall>err. \<not> isExpired e meal \<and> fst (processMeal_retry e meal w) = Some err \<longrightarrow>
         fst (processMeal_try e g h meal w) = Some err)
   \<and> (\<forall>err. \<not> isExpired e meal \<and> fst (processMeal_retry e meal w) = None
         \<and> fst (processMeal_analyze g meal (snd (processMeal_retry e meal w))) = Inl err \<longrightarrow>
         fst (processMeal_try e g h meal w) = Some err)
   \<and> ((\<forall>n r. \<exists>err. g n r = Inl err) \<and> holdsMeal (files w) (mealFile e (mealId meal)) \<longrightarrow>
         (\<exists>r. fst (getMealById e (mealId meal) (files (snd (processMeal e g h meal w)))) = Some r
             \<and> isLoading r = Has False \<and> hasError r = Has True))
   \<and> fst (resumePending e clock g hs w) = None
   \<and> ((\<forall>n r. \<exists>err. g n r = Inl err) \<longrightarrow>
        (\<forall>m\<in>set (fst (getMealHistory e (files w))).
           (truthyBool (isLoading m) \<or> truthyBool (hasError m))
           \<and> holdsMeal (files w) (mealFile e (mealId m)) \<longrightarrow>
           (\<exists>r. fst (getMealById e (mealId m) (files (snd (resumePending e clock g hs w)))) = Some r
               \<and> isLoading r = Has False \<and> hasError r = Has True)))"
proof (intro conjI allI impI ballI)
  show "fst (processMeal e g h meal w) = None" by (rule processMeal_never_throws)
next
  fix err
  assume "holdsMeal (files w) (mealFile e (mealId meal))
         \<and> fst (processMeal_try e g h meal w) = Some err"
  then show "\<exists>r. fst (getMealById e (mealId meal) (files (snd (processMeal e g h meal w)))) = Some r
             \<and> isLoading r = Has False \<and> hasError r = Has True"
    using processMeal_failure_marks_error by blast
next
  fix err
  assume "\<not> isExpired e meal \<and> fst (processMeal_retry e meal w) = Some err"
  then show "fst (processMeal_try e g h meal w) = Some err"
    by (cases "processMeal_retry e meal w") (simp add: processMeal_try_def)
next
  fix err
  assume "\<not> isExpired e meal \<and> fst (processMeal_retry e meal w) = None
         \<and> fst (processMeal_analyze g meal (snd (processMeal_retry e meal w))) = Inl err"
  then show "fst (processMeal_try e g h meal w) = Some err"
    by (cases "processMeal_retry e meal w";
        cases "processMeal_analyze g meal (snd (processMeal_retry e meal w))")
       (simp add: processMeal_try_def)
next
  assume "(\<forall>n r. \<exists>err. g n r = Inl err) \<and> holdsMeal (files w) (mealFile e (mealId meal))"
  then show "\<exists>r. fst (getMealById e (mealId meal) (files (snd (processMeal e g h meal w)))) = Some r
             \<and> isLoading r = Has False \<and> hasError r = Has True"
    using processMeal_marks_error by blast
next
  show "fst (resumePending e clock g hs w) = None" by (rule resumePending_never_throws)
next
  fix m
  assume "\<forall>n r. \<exists>err. g n r = Inl err" and "m \<in> set (fst (getMealHistory e (files w)))"
    and "(truthyBool (isLoading m) \<or> truthyBool (hasError m))
           \<and> holdsMeal (files w) (mealFile e (mealId m))"
  then show "\<exists>r. fst (getMealById e (mealId m) (files (snd (resumePending e clock g hs w)))) = Some r
               \<and> isLoading r = Has False \<and> hasError r = Has True"
    using resumePending_marks_error by blast
qed

lemma pendingWorld_history:
  "fst (getMealHistory historyEnv (files pendingWorld)) =
     [freshMeal, failedMeal, historyMeal ''t-3d'', historyMeal ''t-40d'', historyMeal ''t-400d'']"
proof -
  have i: "readIndex historyEnv (files pendingWorld) =
      Inr \<lparr>meals = map (\<lambda>ts. newRef (Has ts) (Has ts))
               [''t-30min'', ''t-12h'', ''t-3d'', ''t-40d'', ''t-400d''], lastUpdated = 0\<rparr>"
    by (simp add: readIndex_def pendingWorld_def history_def)
  have p: "\<And>i. mealsDir historyEnv @ templ (ref_filename (newRef (Has i) (Has i)))
             = mealFile historyEnv (Has i)"
    by (simp add: newRef_def mealFile_def)
  have r: "readMeal (mealFile historyEnv (Has ''t-30min'')) (files pendingWorld) = Inr freshMeal"
    "readMeal (mealFile historyEnv (Has ''t-12h'')) (files pendingWorld) = Inr failedMeal"
    "readMeal (mealFile historyEnv (Has ''t-3d'')) (files pendingWorld) = Inr (historyMeal ''t-3d'')"
    "readMeal (mealFile historyEnv (Has ''t-40d'')) (files pendingWorld) = Inr (historyMeal ''t-40d'')"
    "readMeal (mealFile historyEnv (Has ''t-400d'')) (files pendingWorld)
       = Inr (historyMeal ''t-400d'')"
    by (simp_all add: readMeal_def pendingWorld_def history_def)
  show ?thesis
    by (simp add: getMealHistory_def Let_def i p r)
qed

text \<open>The theorem at a stored pending text meal and a collaborator that fails, and at
  the resumption of a history in which one meal is pending and one has failed.\<close>

theorem processMeal_absorbs_failures_witness:
  "fst (processMeal historyEnv failingGemini noHealthConnect freshMeal freshWorld) = None
   \<and> (\<exists>r. fst (getMealById historyEnv (Has ''t-30min'')
                 (files (snd (processMeal historyEnv failingGemini noHealthConnect freshMeal
                                freshWorld)))) = Some r
          \<and> isLoading r = Has False \<and> hasError r = Has True)
   \<and> fst (resumePending historyEnv (\<lambda>k. 1714741200000) failingGemini (\<lambda>k. noHealthConnect)
            pendingWorld) = None
   \<and> (\<exists>r. fst (getMealById historyEnv (Has ''t-30min'')
                 (files (snd (resumePending historyEnv (\<lambda>k. 1714741200000) failingGemini
                                (\<lambda>k. noHealthConnect) pendingWorld)))) = Some r
          \<and> isLoading r = Has False \<and> hasError r = Has True)
   \<and> (\<exists>r. fst (getMealById historyEnv (Has ''t-12h'')
                 (files (snd (resumePending historyEnv (\<lambda>k. 1714741200000) failingGemini
                                (\<lambda>k. noHealthConnect) pendingWorld)))) = Some r
          \<and> isLoading r = Has False \<and> hasError r = Has True)"
proof -
  have failing: "\<forall>n r. \<exists>err. failingGemini n r = Inl err"
    by (simp add: failingGemini_def)
  have ids: "mealId freshMeal = Has ''t-30min''" "mealId failedMeal = Has ''t-12h''"
    by (simp_all add: freshMeal_def failedMeal_def historyMeal_def)
  have a: "holdsMeal (files freshWorld) (mealFile historyEnv (mealId freshMeal))"
    by (simp add: holdsMeal_def readMeal_def freshWorld_def ids)
  note th1 = processMeal_absorbs_failures[of historyEnv failingGemini noHealthConnect freshMeal
              freshWorld "\<lambda>k. 1714741200000" "\<lambda>k. noHealthConnect"]
  note th2 = processMeal_absorbs_failures[of historyEnv failingGemini noHealthConnect freshMeal
              pendingWorld "\<lambda>k. 1714741200000" "\<lambda>k. noHealthConnect"]
  have 1: "fst (processMeal historyEnv failingGemini noHealthConnect freshMeal freshWorld) = None"
    by (rule th1[THEN conjunct1])
  from th1[THEN conjunct2, THEN conjunct2, THEN conjunct2, THEN conjunct2, THEN conjunct1,
           THEN mp, OF conjI[OF failing a]]
  have 2: "\<exists>r. fst (getMealById historyEnv (Has ''t-30min'')
                 (files (snd (processMeal historyEnv failingGemini noHealthConnect freshMeal
                                freshWorld)))) = Some r
          \<and> isLoading r = Has False \<and> hasError r = Has True"
    by (simp only: ids)
  have 3: "fst (resumePending historyEnv (\<lambda>k. 1714741200000) failingGemini (\<lambda>k. noHealthConnect)
            pendingWorld) = None"
    by (rule th2[THEN conjunct2, THEN conjunct2, THEN conjunct2, THEN conjunct2, THEN conjunct2,
                 THEN conjunct1])
  note loop = th2[THEN conjunct2, THEN conjunct2, THEN conjunct2, THEN conjunct2, THEN conjunct2,
                  THEN conjunct2, THEN mp, OF failing]
  have m1: "freshMeal \<in> set (fst (getMealHistory historyEnv (files pendingWorld)))"
    and m2: "failedMeal \<in> set (fst (getMealHistory historyEnv (files pendingWorld)))"
    by (simp_all add: pendingWorld_history)
  have h1: "(truthyBool (isLoading freshMeal) \<or> truthyBool (hasError freshMeal))
           \<and> holdsMeal (files pendingWorld) (mealFile historyEnv (mealId freshMeal))"
    by (simp add: holdsMeal_def readMeal_def pendingWorld_def ids) (simp add: freshMeal_def)
  have h2: "(truthyBool (isLoading failedMeal) \<or> truthyBool (hasError failedMeal))
           \<and> holdsMeal (files pendingWorld) (mealFile historyEnv (mealId failedMeal))"
    by (simp add: holdsMeal_def readMeal_def pendingWorld_def ids) (simp add: failedMeal_def)
  from loop[THEN bspec, OF m1, THEN mp, OF h1]
  have 4: "\<exists>r. fst (getMealById historyEnv (Has ''t-30min'')
                 (files (snd (resumePending historyEnv (\<lambda>k. 1714741200000) failingGemini
                                (\<lambda>k. noHealthConnect) pendingWorld)))) = Some r
          \<and> isLoading r = Has False \<and> hasError r = Has True"
    by (simp only: ids)
  from loop[THEN bspec, OF m2, THEN mp, OF h2]
  have 5: "\<exists>r. fst (getMealById historyEnv (Has ''t-12h'')
                 (files (snd (resumePending historyEnv (\<lambda>k. 1714741200000) failingGemini
                                (\<lambda>k. noHealthConnect) pendingWorld)))) = Some r
          \<and> isLoading r = Has False \<and> hasError r = Has True"
    by (simp only: ids)
  from 1 2 3 4 5 show ?thesis by (intro conjI)
qed

subsection \<open>The retry transition\<close>

text \<open>
  Claim C4 at a failing input. The failed meal of the sample history is retried. The
  retry branch of \<^verbatim>\<open>processMeal\<close> builds the meal with \<open>isLoading = true\<close> and announces
  it so, but \<^verbatim>\<open>updateMealAnalysis\<close> forces both flags to false: the record on disk while
  the collaborator is called has \<open>isLoading = false\<close>, \<open>hasError = false\<close> and
  \<open>analysis = null\<close>.
\<close>

theorem processMeal_retry_persists_idle_without_analysis:
  "truthyBool (hasError failedMeal) \<and> \<not> isExpired historyEnv failedMeal
   \<and> fst (processMeal_retry historyEnv failedMeal failedWorld) = None
   \<and> emitted (snd (processMeal_retry historyEnv failedMeal failedWorld))
       = [MealUpdated (failedMeal\<lparr>isLoading := Has True, hasError := Has False\<rparr>)]
   \<and> fst (getMealById historyEnv (Has ''t-12h'')
            (files (snd (processMeal_retry historyEnv failedMeal failedWorld))))
       = Some (failedMeal\<lparr>isLoading := Has False, hasError := Has False\<rparr>)
   \<and> analysis failedMeal = Has None"
proof -
  let ?retryMeal = "failedMeal\<lparr>isLoading := Has True, hasError := Has False\<rparr>"
  have fw: "files failedWorld = failedHistory" "emitted failedWorld = []"
    by (simp_all add: failedWorld_def)
  have stored: "readMeal (mealFile historyEnv (Has ''t-12h'')) failedHistory = Inr failedMeal"
    by (simp add: readMeal_def failedHistory_def)
  have id: "mealId failedMeal = Has ''t-12h''" "truthyBool (hasError failedMeal)"
    "analysis failedMeal = Has None"
    by (simp_all add: failedMeal_def historyMeal_def)
  have m: "stringifyMeal (mergeMeal failedMeal ?retryMeal)
            = failedMeal\<lparr>isLoading := Has False, hasError := Has False\<rparr>"
    by (simp add: stringifyMeal_def mergeMeal_def failedMeal_def historyMeal_def)
  obtain fs1 where u: "updateMealAnalysis historyEnv (Has ''t-12h'') ?retryMeal failedHistory
                         = (Inr (), fs1)"
    using updateMealAnalysis_eq[OF stored failedHistory_index, of ?retryMeal] by simp
  have g1: "fst (getMealById historyEnv (Has ''t-12h'') fs1)
              = Some (failedMeal\<lparr>isLoading := Has False, hasError := Has False\<rparr>)"
    using updateMealAnalysis_record[OF stored, of ?retryMeal] by (simp add: u m)
  have r: "processMeal_retry historyEnv failedMeal failedWorld =
      (None, failedWorld\<lparr>files := fs1,
              emitted := emitted failedWorld @ [MealUpdated ?retryMeal]\<rparr>)"
    by (simp add: processMeal_retry_def Let_def id fw u)
  have g: "fst (getMealById historyEnv (Has ''t-12h'')
            (files (snd (processMeal_retry historyEnv failedMeal failedWorld))))
       = Some (failedMeal\<lparr>isLoading := Has False, hasError := Has False\<rparr>)"
    by (simp add: r g1)
  have e: "emitted (snd (processMeal_retry historyEnv failedMeal failedWorld))
       = [MealUpdated ?retryMeal]"
    by (simp add: r fw)
  have x: "\<not> isExpired historyEnv failedMeal"
    by (simp add: isExpired_def historyEnv_def failedMeal_def historyMeal_def MEAL_TIMEOUT_MS_def)
  have f: "fst (processMeal_retry historyEnv failedMeal failedWorld) = None"
    by (simp add: r)
  from id(2) x f e g id(3) show ?thesis by (intro conjI)
qed

section \<open>Properties of the sync bridge\<close>

lemma hasWritePermission_frame:
  "versionMapItem (snd (hasWritePermission h s)) = versionMapItem s"
  "written (snd (hasWritePermission h s)) = written s"
  by (simp_all add: hasWritePermission_def setPermissionGranted_def Let_def split: granted.splits)

lemma sync_without_record:
  assumes "convertMealToNutritionRecord e meal = None"
  shows "writeMealToHealthConnect h e meal s = (None, s)
         \<or> writeMealToHealthConnect h e meal s = (None, snd (hasWritePermission h s))"
  using assms
  by (cases "hasWritePermission h s"; cases "getNextVersion h (mealId meal) (snd (hasWritePermission h s))")
     (simp add: writeMealToHealthConnect_def)

lemma healthyPhone_permits:
  "hasWritePermission healthyPhone s = (True, s\<lparr>permissionFlag := Some ''true''\<rparr>)"
  "hasWritePermission unreadablePhone s = (True, s\<lparr>permissionFlag := Some ''true''\<rparr>)"
  by (simp_all add: hasWritePermission_def healthyPhone_def unreadablePhone_def
        setPermissionGranted_def)

lemma threeDays_record:
  "convertMealToNutritionRecord historyEnv (historyMeal ''t-3d'') =
     Some (\<lambda>version. Inr \<lparr>clientRecordId = Has ''t-3d'', clientRecordVersion = version,
                          startTime = 1714482000000, endTime = 1714482000000 + 60 * 1000,
                          recordName = ''Meal'', energy = 0, protein = 0,
                          totalCarbohydrate = 0, totalFat = 0\<rparr>)"
  by (simp add: convertMealToNutritionRecord_def historyMeal_def EMPTY_ANALYSIS_def
        historyEnv_def orZero_def)

text \<open>
  Claim C9 at a failing input. The version map holds version 5 for the meal that is three
  days old and version 7 for another meal. On a phone where every step works the next
  sync of the meal writes the record with version 6. On the same phone with a secure
  store that cannot be read, \<^verbatim>\<open>readVersionMap\<close> falls back to the empty map: the sync
  succeeds, the record written carries version 1 after version 5, and the version map
  stored afterwards holds version 1 for the meal and nothing for the other meal.
\<close>

theorem writeMealToHealthConnect_restarts_after_failed_read:
  "versionMapItem syncedFive = Some (VersionJson [''t-3d'' \<mapsto> Num 5, ''t-40d'' \<mapsto> Num 7])
   \<and> map clientRecordVersion
       (written (snd (writeMealToHealthConnect healthyPhone historyEnv (historyMeal ''t-3d'')
                        syncedFive))) = [Num 6]
   \<and> fst (writeMealToHealthConnect unreadablePhone historyEnv (historyMeal ''t-3d'') syncedFive)
       = None
   \<and> map clientRecordVersion
       (written (snd (writeMealToHealthConnect unreadablePhone historyEnv (historyMeal ''t-3d'')
                        syncedFive))) = [Num 1]
   \<and> versionMapItem
       (snd (writeMealToHealthConnect unreadablePhone historyEnv (historyMeal ''t-3d'') syncedFive))
       = Some (VersionJson [''t-3d'' \<mapsto> Num 1])"
proof -
  have id: "mealId (historyMeal ''t-3d'') = Has ''t-3d''" by (simp add: historyMeal_def)
  have hp: "platformAndroid healthyPhone" "healthConnectLoaded healthyPhone"
    "\<And>k. ensureInitialized healthyPhone k" "\<And>r. attemptWrite healthyPhone r"
    "secureStoreReads healthyPhone" "secureStoreWrites healthyPhone"
    by (simp_all add: healthyPhone_def ensureInitialized_def attemptWrite_def)
  have up: "platformAndroid unreadablePhone" "healthConnectLoaded unreadablePhone"
    "\<And>k. ensureInitialized unreadablePhone k" "\<And>r. attemptWrite unreadablePhone r"
    "\<not> secureStoreReads unreadablePhone" "secureStoreWrites unreadablePhone"
    by (simp_all add: unreadablePhone_def healthyPhone_def ensureInitialized_def attemptWrite_def)
  have v6: "getNextVersion healthyPhone (Has ''t-3d'') (syncedFive\<lparr>permissionFlag := Some ''true''\<rparr>)
      = (Num 6, [''t-3d'' \<mapsto> Num 5, ''t-40d'' \<mapsto> Num 7])"
    by (simp add: getNextVersion_def readVersionMap_def hp syncedFive_def getProperty_def
          orZeroValue_def Let_def)
  have v1: "getNextVersion unreadablePhone (Has ''t-3d'') (syncedFive\<lparr>permissionFlag := Some ''true''\<rparr>)
      = (Num 1, Map.empty)"
    by (simp add: getNextVersion_def readVersionMap_def up getProperty_def
          orZeroValue_def objectPrototypeNames_def Let_def)
  have a: "versionMapItem syncedFive = Some (VersionJson [''t-3d'' \<mapsto> Num 5, ''t-40d'' \<mapsto> Num 7])"
    by (simp add: syncedFive_def)
  have w: "written syncedFive = []" by (simp add: syncedFive_def)
  have b: "map clientRecordVersion
       (written (snd (writeMealToHealthConnect healthyPhone historyEnv (historyMeal ''t-3d'')
                        syncedFive))) = [Num 6]"
    by (simp add: writeMealToHealthConnect_def hp healthyPhone_permits id v6 threeDays_record
          persistVersion_def writeVersionMap_def w)
  have s: "writeMealToHealthConnect unreadablePhone historyEnv (historyMeal ''t-3d'') syncedFive
      = (None, persistVersion unreadablePhone (Has ''t-3d'') (Num 1) Map.empty
                 \<lparr>clientRecordId = Has ''t-3d'', clientRecordVersion = Num 1,
                          startTime = 1714482000000, endTime = 1714482000000 + 60 * 1000,
                          recordName = ''Meal'', energy = 0, protein = 0,
                          totalCarbohydrate = 0, totalFat = 0\<rparr>
                 (syncedFive\<lparr>permissionFlag := Some ''true''\<rparr>))"
    by (simp add: writeMealToHealthConnect_def up healthyPhone_permits id v1 threeDays_record)
  have c: "fst (writeMealToHealthConnect unreadablePhone historyEnv (historyMeal ''t-3d'') syncedFive)
       = None"
    by (simp add: s)
  have d: "map clientRecordVersion
       (written (snd (writeMealToHealthConnect unreadablePhone historyEnv (historyMeal ''t-3d'')
                        syncedFive))) = [Num 1]"
    by (simp add: s persistVersion_def writeVersionMap_def w)
  have e: "versionMapItem
       (snd (writeMealToHealthConnect unreadablePhone historyEnv (historyMeal ''t-3d'') syncedFive))
       = Some (VersionJson [''t-3d'' \<mapsto> Num 1])"
    by (simp add: s persistVersion_def writeVersionMap_def up setProperty_def)
  from a b c d e show ?thesis by (intro conjI)
qed


lemma convert_None_iff:
  "(convertMealToNutritionRecord e meal = None) =
     (theAnalysis (analysis meal) = None
      \<or> (\<exists>a. theAnalysis (analysis meal) = Some a \<and> total_meal_nutritional_values a = None))"
  by (auto simp: convertMealToNutritionRecord_def split: option.splits)

text \<open>
  Claim C10. For a meal whose analysis is null or missing, or has no
  \<open>total_meal_nutritional_values\<close>, \<^verbatim>\<open>writeMealToHealthConnect\<close> returns without an
  exception, writes no record and leaves the version map as it was, on every device.
\<close>

theorem writeMealToHealthConnect_skips_unanalysed:
  assumes "theAnalysis (analysis meal) = None
           \<or> (\<exists>a. theAnalysis (analysis meal) = Some a \<and> total_meal_nutritional_values a = None)"
  shows "fst (writeMealToHealthConnect h e meal s) = None
    \<and> written (snd (writeMealToHealthConnect h e meal s)) = written s
    \<and> versionMapItem (snd (writeMealToHealthConnect h e meal s)) = versionMapItem s"
proof -
  from assms have conv: "convertMealToNutritionRecord e meal = None"
    by (simp add: convert_None_iff)
  from sync_without_record[OF conv, of h s] show ?thesis
    using hasWritePermission_frame[of h s] by auto
qed

text \<open>The theorem at a pending meal on a phone where every step would work.\<close>

theorem writeMealToHealthConnect_skips_unanalysed_witness:
  "analysis freshMeal = Has None
   \<and> written (snd (writeMealToHealthConnect healthyPhone historyEnv freshMeal syncedOnce)) = []
   \<and> versionMapItem (snd (writeMealToHealthConnect healthyPhone historyEnv freshMeal syncedOnce))
       = versionMapItem syncedOnce"
proof -
  have a: "analysis freshMeal = Has None" by (simp add: freshMeal_def)
  then have "theAnalysis (analysis freshMeal) = None
           \<or> (\<exists>a. theAnalysis (analysis freshMeal) = Some a \<and> total_meal_nutritional_values a = None)"
    by simp
  from writeMealToHealthConnect_skips_unanalysed[OF this, of healthyPhone historyEnv syncedOnce] a
  show ?thesis by (simp add: syncedOnce_def)
qed

end
